(* ===== verification/Prelude.thy ===== *)
theory Prelude
  imports Main "HOL-Library.Word"
begin

text \<open>
  Shared vocabulary of the development: C++ exceptions as values, state-passing programs
  with an exception result, the rules that carry a property of two states through the
  program combinators (locale \<open>effect_order\<close>), \<open>std::unordered_map\<close> as an
  association list behind an interface (locale \<open>keyed_store\<close>), and the decimal printing
  of \<open>std::to_string\<close>.
\<close>

section \<open>Theorem collections\<close>

named_theorems run_simps \<open>one-step evaluation of the program combinators\<close>
named_theorems keeps_rules \<open>operations that keep the daemon's standing relations\<close>

section \<open>Exceptions and programs\<close>

text \<open>
  \<open>StdExn w\<close> is an exception derived from \<open>std::exception\<close> with \<open>what() = w\<close>;
  \<open>Undefined w\<close> marks a point where the C++ has undefined behaviour (a dangling reference,
  a conversion out of range); \<open>Aborts w\<close> is \<open>std::terminate\<close> (an exception leaving a
  destructor). \<open>Exits n\<close> is a call of \<open>exit(n)\<close> and \<open>Replaced\<close> a successful \<open>execve\<close>: the
  program does not come back. A \<open>catch (const std::exception&)\<close> catches the first only.
\<close>

datatype exn = StdExn string | Undefined string | Aborts string | Exits int | Replaced

type_synonym ('s, 'a) prog = "'s \<Rightarrow> (exn + 'a) \<times> 's"

definition returnM :: "'a \<Rightarrow> ('s, 'a) prog" where
  "returnM x = (\<lambda>s. (Inr x, s))"

definition throwM :: "exn \<Rightarrow> ('s, 'a) prog" where
  "throwM e = (\<lambda>s. (Inl e, s))"

definition bindM :: "('s, 'a) prog \<Rightarrow> ('a \<Rightarrow> ('s, 'b) prog) \<Rightarrow> ('s, 'b) prog" where
  "bindM m f = (\<lambda>s. case m s of (r, s') \<Rightarrow> (case r of Inl e \<Rightarrow> (Inl e, s') | Inr x \<Rightarrow> f x s'))"

definition seqM :: "('s, 'a) prog \<Rightarrow> ('s, 'b) prog \<Rightarrow> ('s, 'b) prog" where
  "seqM m n = bindM m (\<lambda>_. n)"

definition getsM :: "('s \<Rightarrow> 'a) \<Rightarrow> ('s, 'a) prog" where
  "getsM f = (\<lambda>s. (Inr (f s), s))"

definition modifyM :: "('s \<Rightarrow> 's) \<Rightarrow> ('s, unit) prog" where
  "modifyM f = (\<lambda>s. (Inr (), f s))"

definition whenM :: "bool \<Rightarrow> ('s, unit) prog \<Rightarrow> ('s, unit) prog" where
  "whenM b m = (if b then m else returnM ())"

text \<open>\<open>try { m } catch (const std::exception& e) { h(e.what()) }\<close>\<close>

definition tryM :: "('s, 'a) prog \<Rightarrow> (string \<Rightarrow> ('s, 'a) prog) \<Rightarrow> ('s, 'a) prog" where
  "tryM m h = (\<lambda>s. case m s of (r, s') \<Rightarrow>
     (case r of Inl e \<Rightarrow> (case e of StdExn w \<Rightarrow> h w s' | _ \<Rightarrow> (Inl e, s')) | Inr x \<Rightarrow> (Inr x, s')))"

text \<open>A \<open>noexcept\<close> function (every destructor): an exception that leaves it terminates.\<close>

definition noexceptM :: "('s, 'a) prog \<Rightarrow> ('s, 'a) prog" where
  "noexceptM m = (\<lambda>s. case m s of (r, s') \<Rightarrow>
     (case r of Inl (StdExn w) \<Rightarrow> (Inl (Aborts w), s') | _ \<Rightarrow> (r, s')))"

text \<open>Stack unwinding: \<open>cleanup\<close> are the destructors that run when \<open>m\<close> throws.\<close>

definition unwindM :: "('s, 'a) prog \<Rightarrow> ('s, unit) prog \<Rightarrow> ('s, 'a) prog" where
  "unwindM m cleanup = (\<lambda>s. case m s of (r, s') \<Rightarrow>
     (case r of Inl (StdExn w) \<Rightarrow> seqM (noexceptM cleanup) (throwM (StdExn w)) s' | _ \<Rightarrow> (r, s')))"

text \<open>A range-based \<open>for\<close> loop.\<close>

primrec forM :: "('x \<Rightarrow> ('s, unit) prog) \<Rightarrow> 'x list \<Rightarrow> ('s, unit) prog" where
  "forM f [] = returnM ()"
| "forM f (x # xs) = seqM (f x) (forM f xs)"

lemma returnM_run [run_simps]: "returnM x s = (Inr x, s)"
  by (simp add: returnM_def)

lemma throwM_run [run_simps]: "throwM e s = (Inl e, s)"
  by (simp add: throwM_def)

lemma bindM_run [run_simps]:
  "bindM m f s = (case m s of (r, s') \<Rightarrow> (case r of Inl e \<Rightarrow> (Inl e, s') | Inr x \<Rightarrow> f x s'))"
  by (simp add: bindM_def)

lemma seqM_run [run_simps]:
  "seqM m n s = (case m s of (r, s') \<Rightarrow> (case r of Inl e \<Rightarrow> (Inl e, s') | Inr x \<Rightarrow> n s'))"
  by (simp add: seqM_def bindM_def)

lemma getsM_run [run_simps]: "getsM f s = (Inr (f s), s)"
  by (simp add: getsM_def)

lemma modifyM_run [run_simps]: "modifyM f s = (Inr (), f s)"
  by (simp add: modifyM_def)

lemma whenM_run [run_simps]: "whenM b m s = (if b then m s else (Inr (), s))"
  by (simp add: whenM_def returnM_def)

lemma tryM_run [run_simps]:
  "tryM m h s = (case m s of (r, s') \<Rightarrow>
     (case r of Inl e \<Rightarrow> (case e of StdExn w \<Rightarrow> h w s' | _ \<Rightarrow> (Inl e, s')) | Inr x \<Rightarrow> (Inr x, s')))"
  by (simp add: tryM_def)

lemma noexceptM_run [run_simps]:
  "noexceptM m s = (case m s of (r, s') \<Rightarrow>
     (case r of Inl (StdExn w) \<Rightarrow> (Inl (Aborts w), s') | _ \<Rightarrow> (r, s')))"
  by (simp add: noexceptM_def)

lemma unwindM_run [run_simps]:
  "unwindM m cleanup s = (case m s of (r, s') \<Rightarrow>
     (case r of Inl (StdExn w) \<Rightarrow> seqM (noexceptM cleanup) (throwM (StdExn w)) s' | _ \<Rightarrow> (r, s')))"
  by (simp add: unwindM_def)

text \<open>The laws of sequencing, which bring a program into the form of one action after another.\<close>

lemma seq_assoc:
  "seqM (bindM m f) n = bindM m (\<lambda>x. seqM (f x) n)" "seqM (seqM m k) n = seqM m (seqM k n)"
  "bindM (bindM m f) g = bindM m (\<lambda>x. bindM (f x) g)" "bindM (seqM m k) g = seqM m (bindM k g)"
  by (auto simp: fun_eq_iff run_simps split: prod.split sum.split)

lemma seq_simps:
  "seqM (returnM x) n = n" "seqM (throwM e) n = throwM e" "bindM (returnM x) f = f x"
  "bindM (throwM e) f = throwM e" "seqM (if b then m else k) n = (if b then seqM m n else seqM k n)"
  "seqM (whenM b u) n = (if b then seqM u n else n)"
  by (auto simp: fun_eq_iff run_simps)

lemma forM_append_run:
  "forM f (xs @ ys) s =
     (case forM f xs s of (r, s') \<Rightarrow> (case r of Inl e \<Rightarrow> (Inl e, s') | Inr _ \<Rightarrow> forM f ys s'))"
  by (induction xs arbitrary: s)
    (auto simp: run_simps split: prod.splits sum.splits)

text \<open>An exception handler for \<open>std::exception\<close> leaves no \<open>StdExn\<close> when it raises none.\<close>

definition no_std_exn :: "exn + 'a \<Rightarrow> bool" where
  "no_std_exn r \<longleftrightarrow> (case r of Inl (StdExn _) \<Rightarrow> False | _ \<Rightarrow> True)"

lemma no_std_exn_simps [simp]:
  "no_std_exn (Inr x)" "\<not> no_std_exn (Inl (StdExn w))"
  "no_std_exn (Inl (Undefined w))" "no_std_exn (Inl (Aborts w))"
  "no_std_exn (Inl (Exits n))" "no_std_exn (Inl Replaced)"
  by (simp_all add: no_std_exn_def)

lemma tryM_no_std_exn:
  assumes "\<And>w t. no_std_exn (fst (h w t))"
  shows "no_std_exn (fst (tryM m h s))"
  using assms by (auto simp: tryM_def split: prod.splits sum.splits exn.splits)

text \<open>The same without a state, for the code that only computes.\<close>

definition bindE :: "'e + 'a \<Rightarrow> ('a \<Rightarrow> 'e + 'b) \<Rightarrow> 'e + 'b" where
  "bindE r f = (case r of Inl e \<Rightarrow> Inl e | Inr x \<Rightarrow> f x)"

lemma bindE_simps [simp]: "bindE (Inl e) f = Inl e" "bindE (Inr x) f = f x"
  by (simp_all add: bindE_def)

lemma bindE_Inr: "bindE r f = Inr y \<longleftrightarrow> (\<exists>x. r = Inr x \<and> f x = Inr y)"
  by (cases r) auto

lemma bindE_assoc: "bindE (bindE r f) g = bindE r (\<lambda>x. bindE (f x) g)"
  by (cases r) auto

section \<open>Relations between the state before and after\<close>

definition keeps :: "('s \<Rightarrow> 's \<Rightarrow> bool) \<Rightarrow> ('s, 'a) prog \<Rightarrow> bool" where
  "keeps R m \<longleftrightarrow> (\<forall>s. R s (snd (m s)))"

lemma keepsI: "(\<And>s. R s (snd (m s))) \<Longrightarrow> keeps R m"
  by (simp add: keeps_def)

lemma keepsD: "keeps R m \<Longrightarrow> m s = (r, t) \<Longrightarrow> R s t"
  by (metis keeps_def snd_conv)

text \<open>
  The interface of a standing relation: a preorder on states. An invariant \<open>I\<close> is the
  preorder \<open>\<lambda>s t. I s \<longrightarrow> I t\<close>; a frame condition is an equality of components; a history
  condition is a prefix order. Every combinator carries it.
\<close>

locale effect_order =
  fixes R :: "'s \<Rightarrow> 's \<Rightarrow> bool"
  assumes eff_refl: "R s s"
    and eff_trans: "R s t \<Longrightarrow> R t u \<Longrightarrow> R s u"
begin

lemma return_keeps: "keeps R (returnM x)"
  by (simp add: keeps_def returnM_def eff_refl)

lemma throw_keeps: "keeps R (throwM e)"
  by (simp add: keeps_def throwM_def eff_refl)

lemma gets_keeps: "keeps R (getsM f)"
  by (simp add: keeps_def getsM_def eff_refl)

lemma modify_keeps: "(\<And>s. R s (f s)) \<Longrightarrow> keeps R (modifyM f)"
  by (simp add: keeps_def modifyM_def)

lemma bind_keeps: "keeps R m \<Longrightarrow> (\<And>x. keeps R (f x)) \<Longrightarrow> keeps R (bindM m f)"
  unfolding keeps_def bindM_def
  by (auto split: prod.splits sum.splits) (metis eff_trans snd_conv)+

lemma seq_keeps: "keeps R m \<Longrightarrow> keeps R n \<Longrightarrow> keeps R (seqM m n)"
  unfolding seqM_def by (rule bind_keeps)

lemma when_keeps: "(b \<Longrightarrow> keeps R m) \<Longrightarrow> keeps R (whenM b m)"
  by (simp add: whenM_def return_keeps)

lemma if_keeps: "(b \<Longrightarrow> keeps R m) \<Longrightarrow> (\<not> b \<Longrightarrow> keeps R n) \<Longrightarrow> keeps R (if b then m else n)"
  by simp

lemma option_keeps:
  "keeps R m \<Longrightarrow> (\<And>x. keeps R (f x)) \<Longrightarrow> keeps R (case v of None \<Rightarrow> m | Some x \<Rightarrow> f x)"
  by (cases v) auto

lemma sum_keeps:
  "(\<And>x. keeps R (f x)) \<Longrightarrow> (\<And>x. keeps R (g x)) \<Longrightarrow> keeps R (case v of Inl x \<Rightarrow> f x | Inr x \<Rightarrow> g x)"
  by (cases v) auto

lemma pair_keeps: "(\<And>x y. keeps R (f x y)) \<Longrightarrow> keeps R (case v of (x, y) \<Rightarrow> f x y)"
  by (cases v) auto

lemma try_keeps: "keeps R m \<Longrightarrow> (\<And>w. keeps R (h w)) \<Longrightarrow> keeps R (tryM m h)"
  unfolding keeps_def tryM_def
  by (auto split: prod.splits sum.splits exn.splits) (metis eff_trans snd_conv)+

lemma noexcept_keeps: "keeps R m \<Longrightarrow> keeps R (noexceptM m)"
  unfolding keeps_def noexceptM_def
  by (auto split: prod.splits sum.splits exn.splits) (metis snd_conv)+

lemma unwind_keeps:
  fixes m :: "('s, 'x) prog"
  assumes "keeps R m" and "keeps R cleanup"
  shows "keeps R (unwindM m cleanup)"
proof (rule keepsI)
  fix s
  obtain r t where m: "m s = (r, t)" by fastforce
  have "R s t" by (rule keepsD [OF assms(1) m])
  moreover have "keeps R (seqM (noexceptM cleanup) (throwM e :: ('s, 'x) prog))" for e
    by (intro seq_keeps noexcept_keeps throw_keeps assms(2))
  then have "R t (snd (seqM (noexceptM cleanup) (throwM e :: ('s, 'x) prog) t))" for e
    by (simp add: keeps_def)
  ultimately show "R s (snd (unwindM m cleanup s))"
    by (auto simp: unwindM_def m split: sum.splits exn.splits intro: eff_trans)
qed

lemma for_keeps: "(\<And>x. keeps R (f x)) \<Longrightarrow> keeps R (forM f xs)"
  by (induction xs) (auto intro: return_keeps seq_keeps)

lemmas combinator_keeps =
  return_keeps throw_keeps gets_keeps bind_keeps seq_keeps when_keeps option_keeps
  sum_keeps pair_keeps try_keeps noexcept_keeps unwind_keeps for_keeps

end

section \<open>\<open>std::unordered_map\<close>\<close>

text \<open>
  The code walks its maps in an order the standard leaves open. The model keeps that order:
  a map is the list of its entries in iteration order, keys distinct. \<open>um_emplace\<close> does
  nothing when the key is present, as \<open>emplace\<close> does; \<open>um_assign\<close> is \<open>m[k] = v\<close>.
\<close>

type_synonym ('k, 'v) umap = "('k \<times> 'v) list"

definition um_find :: "'k \<Rightarrow> ('k, 'v) umap \<Rightarrow> 'v option" where
  "um_find k m = map_of m k"

definition um_emplace :: "'k \<Rightarrow> 'v \<Rightarrow> ('k, 'v) umap \<Rightarrow> ('k, 'v) umap" where
  "um_emplace k v m = (if um_find k m = None then m @ [(k, v)] else m)"

definition um_erase :: "'k \<Rightarrow> ('k, 'v) umap \<Rightarrow> ('k, 'v) umap" where
  "um_erase k m = filter (\<lambda>e. fst e \<noteq> k) m"

definition um_assign :: "'k \<Rightarrow> 'v \<Rightarrow> ('k, 'v) umap \<Rightarrow> ('k, 'v) umap" where
  "um_assign k v m =
     (if um_find k m = None then m @ [(k, v)] else map (\<lambda>e. if fst e = k then (k, v) else e) m)"

definition um_ok :: "('k, 'v) umap \<Rightarrow> bool" where
  "um_ok m \<longleftrightarrow> distinct (map fst m)"

lemma um_find_emplace:
  "um_find k' (um_emplace k v m) = (if k' = k \<and> um_find k m = None then Some v else um_find k' m)"
  by (auto simp: um_emplace_def um_find_def map_add_def split: option.splits)

lemma um_find_erase: "um_find k' (um_erase k m) = (if k' = k then None else um_find k' m)"
  by (induction m) (auto simp: um_find_def um_erase_def)

lemma um_find_assign: "um_find k' (um_assign k v m) = (if k' = k then Some v else um_find k' m)"
proof (cases "um_find k m = None")
  case True
  then show ?thesis
    by (auto simp: um_assign_def um_find_def map_add_def split: option.splits)
next
  case False
  have "um_find k' (map (\<lambda>e. if fst e = k then (k, v) else e) m)
          = (if k' = k \<and> um_find k m \<noteq> None then Some v else um_find k' m)"
    by (induction m) (auto simp: um_find_def)
  with False show ?thesis
    unfolding um_assign_def by (simp only: if_False not_False_eq_True simp_thms)
qed

lemma um_find_None: "um_find k m = None \<longleftrightarrow> k \<notin> set (map fst m)"
  by (induction m) (auto simp: um_find_def)

lemma um_ok_emplace: "um_ok m \<Longrightarrow> um_ok (um_emplace k v m)"
  by (auto simp: um_ok_def um_emplace_def um_find_None)

lemma um_ok_erase: "um_ok m \<Longrightarrow> um_ok (um_erase k m)"
  by (simp add: um_ok_def um_erase_def distinct_map_filter)

lemma um_ok_assign: "um_ok m \<Longrightarrow> um_ok (um_assign k v m)"
proof (cases "um_find k m = None")
  case True
  then show "um_ok m \<Longrightarrow> um_ok (um_assign k v m)"
    by (auto simp: um_ok_def um_assign_def um_find_None)
next
  case False
  have "map fst (map (\<lambda>e. if fst e = k then (k, v) else e) m) = map fst m"
    by (induction m) auto
  with False show "um_ok m \<Longrightarrow> um_ok (um_assign k v m)"
    unfolding um_ok_def um_assign_def by (simp only: if_False)
qed

lemma um_ok_Nil: "um_ok []"
  by (simp add: um_ok_def)

lemma um_mem_find: "um_ok m \<Longrightarrow> (k, v) \<in> set m \<longleftrightarrow> um_find k m = Some v"
  by (simp add: um_ok_def um_find_def)

text \<open>What the job manager and the configuration loader rely on, as an interface.\<close>

locale keyed_store =
  fixes empty :: "'m"
    and find :: "'k \<Rightarrow> 'm \<Rightarrow> 'v option"
    and emplace :: "'k \<Rightarrow> 'v \<Rightarrow> 'm \<Rightarrow> 'm"
    and erase :: "'k \<Rightarrow> 'm \<Rightarrow> 'm"
    and ok :: "'m \<Rightarrow> bool"
  assumes find_empty: "find k empty = None"
    and find_emplace: "find k' (emplace k v m) =
          (if k' = k \<and> find k m = None then Some v else find k' m)"
    and find_erase: "find k' (erase k m) = (if k' = k then None else find k' m)"
    and ok_empty: "ok empty"
    and ok_emplace: "ok m \<Longrightarrow> ok (emplace k v m)"
    and ok_erase: "ok m \<Longrightarrow> ok (erase k m)"
begin

lemma replace_find:
  "find k' (emplace k v (erase k m)) = (if k' = k then Some v else find k' m)"
  by (simp add: find_emplace find_erase)

lemma emplace_first_wins: "find k (emplace k w (emplace k v m)) = find k (emplace k v m)"
  by (simp add: find_emplace)

lemma emplace_present: "find k m \<noteq> None \<Longrightarrow> find k' (emplace k v m) = find k' m"
  by (auto simp: find_emplace)

lemma replace_ok: "ok m \<Longrightarrow> ok (emplace k v (erase k m))"
  by (intro ok_emplace ok_erase)

end

interpretation um: keyed_store "[]" um_find um_emplace um_erase um_ok
  by unfold_locales
    (auto simp: um_find_emplace um_find_erase um_ok_Nil um_ok_emplace um_ok_erase,
      simp add: um_find_def)

section \<open>\<open>std::to_string\<close> on integers\<close>

fun digits_nat :: "nat \<Rightarrow> string" where
  "digits_nat n =
     (if n < 10 then [char_of (48 + n)] else digits_nat (n div 10) @ [char_of (48 + n mod 10)])"

declare digits_nat.simps [simp del]

definition to_string :: "int \<Rightarrow> string" where
  "to_string i = (if i < 0 then CHR ''-'' # digits_nat (nat (- i)) else digits_nat (nat i))"

text \<open>Text between single quotes, as in many messages.\<close>

definition quoted :: "string \<Rightarrow> string" where
  "quoted x = CHR 0x27 # x @ [CHR 0x27]"

end
