(* ===== verification/Logger.thy ===== *)
theory Logger
  imports Prelude
begin

text \<open>
  The logging library, \<^verbatim>\<open>libs/logger\<close>: the level filter, the colours, the routing of a
  message to standard output and to the system log, and the singleton's initialisation.
\<close>

section \<open>Severities and levels\<close>

datatype log_type = LT_Fatal | LT_Error | LT_Warning | LT_Info | LT_Debug

datatype log_level = LL_None | LL_Sparse | LL_Normal | LL_Debug

text \<open>Both enums are ordered by declaration, as their underlying integers are.\<close>

fun log_type_rank :: "log_type \<Rightarrow> nat" where
  "log_type_rank LT_Fatal = 0"
| "log_type_rank LT_Error = 1"
| "log_type_rank LT_Warning = 2"
| "log_type_rank LT_Info = 3"
| "log_type_rank LT_Debug = 4"

fun log_level_rank :: "log_level \<Rightarrow> nat" where
  "log_level_rank LL_None = 0"
| "log_level_rank LL_Sparse = 1"
| "log_level_rank LL_Normal = 2"
| "log_level_rank LL_Debug = 3"

lemma log_type_rank_inj: "log_type_rank a = log_type_rank b \<Longrightarrow> a = b"
  by (cases a; cases b) auto

lemma log_level_rank_inj: "log_level_rank a = log_level_rank b \<Longrightarrow> a = b"
  by (cases a; cases b) auto

instantiation log_type :: linorder
begin

definition less_eq_log_type :: "log_type \<Rightarrow> log_type \<Rightarrow> bool" where
  "less_eq_log_type a b \<longleftrightarrow> log_type_rank a \<le> log_type_rank b"

definition less_log_type :: "log_type \<Rightarrow> log_type \<Rightarrow> bool" where
  "less_log_type a b \<longleftrightarrow> log_type_rank a < log_type_rank b"

instance
  by standard (auto simp: less_eq_log_type_def less_log_type_def intro: log_type_rank_inj)

end

instantiation log_level :: linorder
begin

definition less_eq_log_level :: "log_level \<Rightarrow> log_level \<Rightarrow> bool" where
  "less_eq_log_level a b \<longleftrightarrow> log_level_rank a \<le> log_level_rank b"

definition less_log_level :: "log_level \<Rightarrow> log_level \<Rightarrow> bool" where
  "less_log_level a b \<longleftrightarrow> log_level_rank a < log_level_rank b"

instance
  by standard (auto simp: less_eq_log_level_def less_log_level_def intro: log_level_rank_inj)

end

section \<open>The logger\<close>

record logger =
  lg_enable_stdout :: bool
  lg_level :: log_level

fun CanLogLogWithSetLogLevel :: "log_level \<Rightarrow> log_type \<Rightarrow> bool" where
  "CanLogLogWithSetLogLevel LL_None t = False"
| "CanLogLogWithSetLogLevel LL_Sparse t = (t \<noteq> LT_Debug \<and> t \<noteq> LT_Info)"
| "CanLogLogWithSetLogLevel LL_Normal t = (t \<noteq> LT_Debug)"
| "CanLogLogWithSetLogLevel LL_Debug t = True"

abbreviation ansi :: "string \<Rightarrow> string" where
  "ansi code \<equiv> CHR 0x1B # CHR ''['' # code @ ''m''"

definition COLOR_RESET :: string where "COLOR_RESET = ansi ''0''"

fun GetLogColor :: "log_type \<Rightarrow> string" where
  "GetLogColor LT_Fatal = ansi ''38;5;208''"
| "GetLogColor LT_Error = ansi ''38;5;160''"
| "GetLogColor LT_Warning = ansi ''38;5;226''"
| "GetLogColor LT_Info = ansi ''38;5;13''"
| "GetLogColor LT_Debug = ansi ''38;5;21''"

text \<open>The priorities of \<^verbatim>\<open>syslog.h\<close>: \<open>LOG_DAEMON\<close> is \<open>3 << 3\<close>.\<close>

definition LOG_DAEMON :: int where "LOG_DAEMON = push_bit 3 3"

fun syslog_priority :: "log_type \<Rightarrow> int" where
  "syslog_priority LT_Fatal = or LOG_DAEMON 3"
| "syslog_priority LT_Error = or LOG_DAEMON 3"
| "syslog_priority LT_Warning = or LOG_DAEMON 4"
| "syslog_priority LT_Info = or LOG_DAEMON 6"
| "syslog_priority LT_Debug = or LOG_DAEMON 7"

type_synonym messages = "(log_type \<times> string) list"

record sinks =
  stdout_lines :: "string list"
  syslog_entries :: "(int \<times> string) list"

definition log_stdout :: "logger \<Rightarrow> string \<Rightarrow> log_type \<Rightarrow> string list" where
  "log_stdout lg msg t =
     (if lg_enable_stdout lg \<or> t = LT_Debug
      then [GetLogColor t @ msg @ COLOR_RESET @ [CHR 0x0A]] else [])"

definition log_message :: "logger \<Rightarrow> string \<Rightarrow> log_type \<Rightarrow> sinks \<Rightarrow> sinks" where
  "log_message lg msg t k =
     (if \<not> CanLogLogWithSetLogLevel (lg_level lg) t then k
      else let k' = k\<lparr>stdout_lines := stdout_lines k @ log_stdout lg msg t\<rparr>
           in k'\<lparr>syslog_entries := syslog_entries k' @ [(syslog_priority t, msg)]\<rparr>)"

text \<open>The constructor; what \<open>openlog\<close> keeps is the C library's.\<close>

definition log_new :: "log_level \<Rightarrow> bool \<Rightarrow> logger" where
  "log_new lvl en = \<lparr>lg_enable_stdout = en, lg_level = lvl\<rparr>"

text \<open>\<open>LogInterface::Initialize\<close> on the singleton pointer; the second call throws.\<close>

definition log_initialize ::
  "log_level \<Rightarrow> bool \<Rightarrow> (logger option, unit) prog" where
  "log_initialize lvl en =
     bindM (getsM id) (\<lambda>inst.
     if inst \<noteq> None then throwM (StdExn ''Logger is already initialized.'')
     else modifyM (\<lambda>_. Some (log_new lvl en)))"

section \<open>Correctness\<close>

text \<open>The level as a threshold: the least severe type it lets through, if any.\<close>

fun level_threshold :: "log_level \<Rightarrow> log_type option" where
  "level_threshold LL_None = None"
| "level_threshold LL_Sparse = Some LT_Warning"
| "level_threshold LL_Normal = Some LT_Info"
| "level_threshold LL_Debug = Some LT_Debug"

lemma can_log_threshold:
  "CanLogLogWithSetLogLevel lvl t \<longleftrightarrow> (case level_threshold lvl of None \<Rightarrow> False | Some m \<Rightarrow> t \<le> m)"
  by (cases lvl; cases t) (auto simp: less_eq_log_type_def)

lemma level_threshold_mono:
  "l \<le> l' \<Longrightarrow> level_threshold l = Some m \<Longrightarrow> \<exists>m'. level_threshold l' = Some m' \<and> m \<le> m'"
  by (cases l; cases l') (auto simp: less_eq_log_level_def less_eq_log_type_def)

text \<open>
  The log filter is monotone: raising the level or the severity of a message never
  suppresses a message that was logged before (so a debug daemon logs all a sparse one does).
\<close>

lemma log_filter_monotone:
  assumes "CanLogLogWithSetLogLevel l t" and "l \<le> l'" and "t' \<le> t"
  shows "CanLogLogWithSetLogLevel l' t'"
proof -
  from assms(1) obtain m where m: "level_threshold l = Some m" "t \<le> m"
    by (auto simp: can_log_threshold split: option.splits)
  from level_threshold_mono [OF assms(2) m(1)] obtain m'
    where "level_threshold l' = Some m'" "m \<le> m'" by blast
  with m(2) assms(3) show ?thesis
    by (auto simp: can_log_threshold)
qed

lemma log_message_simps:
  "stdout_lines (log_message lg msg t k) = stdout_lines k @
     (if CanLogLogWithSetLogLevel (lg_level lg) t then log_stdout lg msg t else [])"
  "syslog_entries (log_message lg msg t k) = syslog_entries k @
     (if CanLogLogWithSetLogLevel (lg_level lg) t then [(syslog_priority t, msg)] else [])"
  by (simp_all add: log_message_def Let_def)

text \<open>
  Routing: a debug message that passes the filter reaches both standard output, whatever
  the standard-output switch says, and the system log; no message reaches standard output
  without also reaching the system log.
\<close>

lemma log_routing:
  "(lg_level lg = LL_Debug \<longrightarrow>
      stdout_lines (log_message lg msg LT_Debug k)
        = stdout_lines k @ [GetLogColor LT_Debug @ msg @ COLOR_RESET @ [CHR 0x0A]] \<and>
      syslog_entries (log_message lg msg LT_Debug k) = syslog_entries k @ [(31, msg)]) \<and>
   (stdout_lines (log_message lg msg t k) \<noteq> stdout_lines k \<longrightarrow>
      syslog_entries (log_message lg msg t k) = syslog_entries k @ [(syslog_priority t, msg)])"
  by (auto simp: log_message_simps log_stdout_def LOG_DAEMON_def)

lemma log_initialize_once:
  "log_initialize lvl en None = (Inr (), Some \<lparr>lg_enable_stdout = en, lg_level = lvl\<rparr>)"
  "log_initialize lvl en (Some lg) = (Inl (StdExn ''Logger is already initialized.''), Some lg)"
  by (simp_all add: log_initialize_def log_new_def run_simps)

end
