(* ===== verification/World.thy ===== *)
theory World
  imports Logger
begin

text \<open>
  The process's surroundings: the system calls it makes, with the environment's answers, the
  \<^verbatim>\<open>wait.h\<close> macros on a status word, the log, and the helpers of \<^verbatim>\<open>libs/utils\<close>.

  The kernel is not modelled. \<open>w_ans n c\<close> is its answer to call \<open>c\<close> when \<open>n\<close> calls were made
  before, \<open>w_strerror n\<close> the text of \<open>errno\<close> after \<open>n\<close> calls, \<open>w_again n\<close> whether that
  \<open>errno\<close> is \<open>EAGAIN\<close> or \<open>EWOULDBLOCK\<close>, \<open>w_status n\<close> the status word a \<open>waitpid\<close> stores, \<open>w_data n k\<close>
  byte \<open>k\<close> of what a \<open>recv\<close> stores, \<open>w_wordexp\<close> the word expansion of the C library (\<open>None\<close>: it failed). A
  theorem that needs the kernel to behave says so in its hypotheses. \<open>w_trace\<close> is the history
  of calls with their answers, latest first; \<open>w_next\<close> numbers heap objects, so that an object
  created at a freed address is not mistaken for the old one.
\<close>

unbundle bit_operations_syntax

section \<open>System calls\<close>

text \<open>A socket address as the kernel sees it: its family, its port (if it has one) and its address or path.\<close>

type_synonym sockaddr = "int \<times> 16 word \<times> 8 word list"

datatype syscall =
    SysFork
  | SysWaitpid int
  | SysPidfdOpen int "32 word"
  | SysPidfdSendSignal int int "32 word"
  | SysTimerfdCreate
  | SysTimerfdSettime int int int
  | SysReadTimer int
  | SysEpollCreate
  | SysEpollAdd int bool bool
  | SysEpollMod int bool bool
  | SysEpollDel int
  | SysAccept int
  | SysSend int "8 word list"
  | SysRecv int int
  | SysClose int
  | SysGetgid
  | SysSetgid int
  | SysGetuid
  | SysSetuid int
  | SysSetpgid int int
  | SysOpenWrite string
  | SysDup2 int int
  | SysChdir string
  | SysUmask "32 word"
  | SysExecve string "string list" "string list"
  | SysSocket int int
  | SysReuseAddr int
  | SysUnlink string
  | SysBind int sockaddr int
  | SysListen int int
  | SysConnect int sockaddr int

record world =
  w_ans :: "nat \<Rightarrow> syscall \<Rightarrow> int"
  w_strerror :: "nat \<Rightarrow> string"
  w_status :: "nat \<Rightarrow> 32 word"
  w_again :: "nat \<Rightarrow> bool"
  w_data :: "nat \<Rightarrow> nat \<Rightarrow> 8 word"
  w_wordexp :: "string \<Rightarrow> string list option"
  w_clock :: nat
  w_trace :: "(syscall \<times> int) list"
  w_next :: nat
  w_logger :: logger
  w_sinks :: sinks

definition sys :: "syscall \<Rightarrow> ('z world_scheme, int) prog" where
  "sys c = (\<lambda>s. let r = w_ans s (w_clock s) c
     in (Inr r, s\<lparr>w_clock := Suc (w_clock s), w_trace := (c, r) # w_trace s\<rparr>))"

text \<open>\<open>strerror(errno)\<close> after the last call.\<close>

definition errno_text :: "('z world_scheme, string) prog" where
  "errno_text = getsM (\<lambda>s. w_strerror s (w_clock s))"

definition fresh_id :: "('z world_scheme, nat) prog" where
  "fresh_id = bindM (getsM w_next) (\<lambda>n. seqM (modifyM (\<lambda>s. s\<lparr>w_next := Suc n\<rparr>)) (returnM n))"

definition logM :: "log_type \<Rightarrow> string \<Rightarrow> ('z world_scheme, unit) prog" where
  "logM t msg = modifyM (\<lambda>s. s\<lparr>w_sinks := log_message (w_logger s) msg t (w_sinks s)\<rparr>)"

lemma sys_run [run_simps]:
  "sys c s = (Inr (w_ans s (w_clock s) c),
     s\<lparr>w_clock := Suc (w_clock s), w_trace := (c, w_ans s (w_clock s) c) # w_trace s\<rparr>)"
  by (simp add: sys_def Let_def)

lemma errno_text_run [run_simps]: "errno_text s = (Inr (w_strerror s (w_clock s)), s)"
  by (simp add: errno_text_def run_simps)

lemma fresh_id_run [run_simps]: "fresh_id s = (Inr (w_next s), s\<lparr>w_next := Suc (w_next s)\<rparr>)"
  by (simp add: fresh_id_def run_simps)

lemma logM_run [run_simps]:
  "logM t msg s = (Inr (), s\<lparr>w_sinks := log_message (w_logger s) msg t (w_sinks s)\<rparr>)"
  by (simp add: logM_def run_simps)

section \<open>\<^verbatim>\<open>libs/utils\<close>\<close>

definition pidfd_send_signal :: "int \<Rightarrow> int \<Rightarrow> 32 word \<Rightarrow> ('z world_scheme, int) prog" where
  "pidfd_send_signal pidfd sig flags = sys (SysPidfdSendSignal pidfd sig flags)"

definition pidfd_open :: "int \<Rightarrow> 32 word \<Rightarrow> ('z world_scheme, int) prog" where
  "pidfd_open pid flags = sys (SysPidfdOpen pid flags)"

text \<open>A failed expansion (unbalanced quotes, a shell operator) gives no argument at all.\<close>

definition split_shell :: "(string \<Rightarrow> string list option) \<Rightarrow> string \<Rightarrow> string list" where
  "split_shell wordexp str = (case wordexp str of None \<Rightarrow> [] | Some ws \<Rightarrow> ws)"

lemma pidfd_run [run_simps]:
  "pidfd_send_signal fd sig flags s = sys (SysPidfdSendSignal fd sig flags) s"
  "pidfd_open pid flags s = sys (SysPidfdOpen pid flags) s"
  by (simp_all add: pidfd_send_signal_def pidfd_open_def)

section \<open>The status word of \<open>waitpid\<close>\<close>

definition WTERMSIG :: "32 word \<Rightarrow> 32 word" where
  "WTERMSIG st = st AND 0x7F"

definition WEXITSTATUS :: "32 word \<Rightarrow> int" where
  "WEXITSTATUS st = uint (drop_bit 8 (st AND 0xFF00))"

definition WIFEXITED :: "32 word \<Rightarrow> bool" where
  "WIFEXITED st \<longleftrightarrow> WTERMSIG st = 0"

text \<open>glibc: \<open>((signed char) (((status) & 0x7f) + 1) >> 1) > 0\<close>.\<close>

definition WIFSIGNALED :: "32 word \<Rightarrow> bool" where
  "WIFSIGNALED st \<longleftrightarrow> sint (signed_drop_bit 1 (ucast (WTERMSIG st + 1) :: 8 word)) > 0"

lemma WEXITSTATUS_range: "0 \<le> WEXITSTATUS st \<and> WEXITSTATUS st < 256"
proof -
  have "WEXITSTATUS st = uint (drop_bit 8 st AND 255)"
    by (simp add: WEXITSTATUS_def)
  moreover have "uint (drop_bit 8 st AND 255) \<le> 255"
    using word_and_le1 [of "drop_bit 8 st" 255] by (simp add: word_le_def)
  ultimately show ?thesis by simp
qed

lemma exited_status:
  "WIFEXITED (0x300 :: 32 word)" "WEXITSTATUS 0x300 = 3"
  "\<not> WIFEXITED (9 :: 32 word)" "WIFSIGNALED (9 :: 32 word)" "\<not> WIFSIGNALED (0x7F :: 32 word)"
  by (simp_all add: WIFEXITED_def WEXITSTATUS_def WTERMSIG_def WIFSIGNALED_def)

section \<open>A well-behaved kernel\<close>

text \<open>
  A concrete kernel for the examples that show hypotheses about the environment can hold:
  every call succeeds, descriptors and process ids are numbered by the call, a send takes
  all it is given and a timer has expired once when read.
\<close>

fun good_kernel :: "nat \<Rightarrow> syscall \<Rightarrow> int" where
  "good_kernel n SysFork = 1000 + int n"
| "good_kernel n (SysWaitpid pid) = pid"
| "good_kernel n (SysPidfdOpen pid flags) = 10 + int n"
| "good_kernel n SysTimerfdCreate = 10 + int n"
| "good_kernel n (SysReadTimer fd) = 8"
| "good_kernel n (SysAccept fd) = 10 + int n"
| "good_kernel n (SysSend fd data) = int (length data)"
| "good_kernel n _ = 0"

definition example_world :: world where
  "example_world = \<lparr>w_ans = good_kernel, w_strerror = (\<lambda>n. ''Success''), w_status = (\<lambda>n. 0),
     w_again = (\<lambda>n. False), w_data = (\<lambda>n k. 0), w_wordexp = (\<lambda>cmd. Some [cmd]), w_clock = 0,
     w_trace = [], w_next = 0, w_logger = \<lparr>lg_enable_stdout = True, lg_level = LL_Debug\<rparr>,
     w_sinks = \<lparr>stdout_lines = [], syslog_entries = []\<rparr>\<rparr>"

end
