(* ===== verification/Proto_Wire.thy ===== *)
theory Proto_Wire
  imports World
begin

text \<open>
  The wire protocol, \<^verbatim>\<open>libs/ipc\<close>: the messages of \<^verbatim>\<open>taskmaster.proto\<close> and the framing of
  \<^verbatim>\<open>ProtoWriter\<close> and \<^verbatim>\<open>ProtoReader\<close>, a four-byte big-endian length before each serialised
  message. Protocol Buffers' own serialiser and parser are arguments of the definitions that
  call them.
\<close>

section \<open>Messages\<close>

text \<open>The enums are open (edition 2023): a number without a name is kept.\<close>

datatype command_type =
  START | STOP | RESTART | STATUS | RELOAD | TERMINATE | COMMAND_ERROR | CT_Unknown int

datatype command_status =
  OK | ERROR | TOO_MANY_ARGUMENTS | ARGUMENT_ERROR | TYPE_ERROR | CS_Unknown int

fun command_type_number :: "command_type \<Rightarrow> int" where
  "command_type_number START = 0"
| "command_type_number STOP = 1"
| "command_type_number RESTART = 2"
| "command_type_number STATUS = 3"
| "command_type_number RELOAD = 4"
| "command_type_number TERMINATE = 5"
| "command_type_number COMMAND_ERROR = 6"
| "command_type_number (CT_Unknown n) = n"

record command =
  cmd_type :: command_type
  cmd_args :: "string list"

record response =
  res_status :: command_status
  res_message :: string

section \<open>Network byte order\<close>

type_synonym bytes = "8 word list"

definition htonl_bytes :: "32 word \<Rightarrow> bytes" where
  "htonl_bytes w = [ucast (drop_bit 24 w), ucast (drop_bit 16 w), ucast (drop_bit 8 w), ucast w]"

definition ntohl_bytes :: "bytes \<Rightarrow> 32 word" where
  "ntohl_bytes bs = or (or (push_bit 24 (ucast (bs ! 0))) (push_bit 16 (ucast (bs ! 1))))
     (or (push_bit 8 (ucast (bs ! 2))) (ucast (bs ! 3)))"

lemma length_htonl_bytes [simp]: "length (htonl_bytes w) = 4"
  by (simp add: htonl_bytes_def)

lemma htonl_bytes_not_Nil [simp]: "htonl_bytes w \<noteq> []"
  by (simp add: htonl_bytes_def)

lemma ntohl_htonl [simp]: "ntohl_bytes (htonl_bytes w) = w"
proof (rule bit_word_eqI)
  fix n
  assume n: "n < LENGTH(32)"
  consider "n < 8" | "8 \<le> n" "n < 16" | "16 \<le> n" "n < 24" | "24 \<le> n" by linarith
  then show "bit (ntohl_bytes (htonl_bytes w)) n = bit w n"
    using n by cases (auto simp: ntohl_bytes_def htonl_bytes_def bit_simps)
qed

section \<open>\<open>ProtoWriter\<close>\<close>

record writer =
  pw_message :: bytes
  pw_bytes_written :: int
  pw_size_written :: bool

definition writer_new :: writer where
  "writer_new = \<lparr>pw_message = [], pw_bytes_written = 0, pw_size_written = False\<rparr>"

definition PROTOWRITER_MAX_WRITE_SIZE :: nat where
  "PROTOWRITER_MAX_WRITE_SIZE = 4096"

definition writer_clear :: "writer \<Rightarrow> writer" where
  "writer_clear w = w\<lparr>pw_message := [], pw_bytes_written := 0, pw_size_written := False\<rparr>"

definition writer_init :: "('m \<Rightarrow> bytes option) \<Rightarrow> 'm \<Rightarrow> writer \<Rightarrow> exn + writer" where
  "writer_init serialize m w =
     (if length (pw_message w) > 0
      then Inl (StdExn ''Already initialized this protoWriter, finish writing the message or reset'')
      else case serialize m of
        None \<Rightarrow> Inl (StdExn ''Failed to serialize the message'')
      | Some bs \<Rightarrow> Inr (w\<lparr>pw_message := bs\<rparr>))"

text \<open>
  One call of \<open>write\<close>: the flag says whether the message is out. The conversion of the
  message's size to \<open>u32\<close> is the \<open>of_nat\<close> into \<^typ>\<open>32 word\<close>.
\<close>

definition writer_write :: "int \<Rightarrow> writer \<Rightarrow> ('z world_scheme, bool \<times> writer) prog" where
  "writer_write fd w =
     (if \<not> pw_size_written w then
        bindM (sys (SysSend fd (htonl_bytes (of_nat (length (pw_message w)))))) (\<lambda>r.
        if r = -1
        then throwM (StdExn ''Failed to send the message size, is the socket still open?'')
        else seqM (logM LT_Debug (''Successfully sent a message size of ''
                     @ to_string (int (length (pw_message w))) @ '' bytes''))
               (returnM (False, w\<lparr>pw_size_written := True\<rparr>)))
      else if pw_bytes_written w = int (length (pw_message w)) then
        seqM (logM LT_Debug ''Message already fully sent'') (returnM (True, w))
      else
        (let data = drop (nat (pw_bytes_written w)) (pw_message w);
             writeSize = min (length data) PROTOWRITER_MAX_WRITE_SIZE
         in bindM (sys (SysSend fd (take writeSize data))) (\<lambda>bytesSent.
            if bytesSent = -1
            then throwM (StdExn ''Failed to send the command message, is the socket still open?'')
            else
              (let w' = w\<lparr>pw_bytes_written := pw_bytes_written w + bytesSent\<rparr>
               in if pw_bytes_written w' = int (length (pw_message w'))
                  then seqM (logM LT_Debug ''Successfully sent an entire message'')
                         (returnM (True, writer_clear w'))
                  else seqM (logM LT_Debug (''Successfully sent '' @ to_string bytesSent
                               @ '' amount of bytes''))
                         (returnM (False, w'))))))"

section \<open>\<open>ProtoReader\<close>\<close>

record reader =
  pr_buffer :: bytes
  pr_message_size :: "nat option"

definition reader_new :: reader where
  "reader_new = \<lparr>pr_buffer = [], pr_message_size = None\<rparr>"

text \<open>
  What \<open>read\<close> does with the bytes of one successful \<open>recv\<close>. The reader is changed even when
  the call throws, so both come back.
\<close>

definition reader_feed ::
  "(bytes \<Rightarrow> 'm option) \<Rightarrow> reader \<Rightarrow> bytes \<Rightarrow> (exn + 'm option) \<times> reader" where
  "reader_feed parse r data =
     (let buf = pr_buffer r @ data;
          size = (if pr_message_size r = None \<and> length buf \<ge> 4
                  then Some (unat (ntohl_bytes (take 4 buf))) else pr_message_size r)
      in case size of
           Some n \<Rightarrow>
             (if length buf \<ge> 4 + n
              then let r' = \<lparr>pr_buffer = drop (4 + n) buf, pr_message_size = None\<rparr>
                   in (case parse (take n (drop 4 buf)) of
                         None \<Rightarrow> (Inl (StdExn ''Failed to parse protobuf message''), r')
                       | Some m \<Rightarrow> (Inr (Some m), r'))
              else (Inr None, \<lparr>pr_buffer = buf, pr_message_size = Some n\<rparr>))
         | None \<Rightarrow> (Inr None, \<lparr>pr_buffer = buf, pr_message_size = None\<rparr>))"

definition READER_BUFFER_SIZE :: int where
  "READER_BUFFER_SIZE = 4096"

definition reader_read ::
  "(bytes \<Rightarrow> 'm option) \<Rightarrow> int \<Rightarrow> reader
     \<Rightarrow> ('z world_scheme, (exn + int \<times> 'm option) \<times> reader) prog" where
  "reader_read parse fd r =
     bindM (getsM w_clock) (\<lambda>n.
     bindM (getsM w_data) (\<lambda>data.
     bindM (sys (SysRecv fd READER_BUFFER_SIZE)) (\<lambda>bytes_read.
     bindM (getsM w_again) (\<lambda>again.
     bindM errno_text (\<lambda>err.
     if bytes_read > 0 then
       seqM (whenM (pr_message_size r = None \<and> length (pr_buffer r) + nat bytes_read \<ge> 4)
              (logM LT_Debug (''Successfully received a message size of: ''
                 @ to_string (uint (ntohl_bytes (take 4 (pr_buffer r @ map (data n) [0..<nat bytes_read]))))
                 @ '' bytes'')))
       (case reader_feed parse r (map (data n) [0..<nat bytes_read]) of
          (Inl e, r') \<Rightarrow> returnM (Inl e, r')
        | (Inr m, r') \<Rightarrow> returnM (Inr (bytes_read, m), r'))
     else if bytes_read = -1 \<and> \<not> again (Suc n)
     then returnM (Inl (StdExn (''Failed to read from fd: '' @ err)), r)
     else returnM (Inr (bytes_read, None), r))))))"

section \<open>The writer's loop\<close>

text \<open>
  \<open>while (!writer.write(socket)) continue;\<close> with a bound on the calls; \<open>None\<close> when the bound is
  used up. \<open>writer_sends_frame\<close> gives a bound that is always enough.
\<close>

fun write_until :: "nat \<Rightarrow> int \<Rightarrow> writer \<Rightarrow> ('z world_scheme, writer option) prog" where
  "write_until 0 fd w = returnM None"
| "write_until (Suc fuel) fd w =
     bindM (writer_write fd w) (\<lambda>(doneWriting, w').
       if doneWriting then returnM (Some w') else write_until fuel fd w')"

text \<open>The bytes the kernel took from a descriptor's sends, in order.\<close>

fun sent_entry :: "int \<Rightarrow> syscall \<times> int \<Rightarrow> bytes" where
  "sent_entry fd (SysSend fd' data, r) = (if fd' = fd then take (nat r) data else [])"
| "sent_entry fd _ = []"

definition sent_bytes :: "int \<Rightarrow> (syscall \<times> int) list \<Rightarrow> bytes" where
  "sent_bytes fd tr = concat (map (sent_entry fd) (rev tr))"

lemma sent_bytes_Cons [simp]: "sent_bytes fd (e # tr) = sent_bytes fd tr @ sent_entry fd e"
  by (simp add: sent_bytes_def)

lemma sent_bytes_Nil [simp]: "sent_bytes fd [] = []"
  by (simp add: sent_bytes_def)

text \<open>
  What \<open>send\<close> on a connected blocking socket documents: it takes at least one byte of a
  non-empty buffer; the code also relies on the four bytes of the length going out whole.
\<close>

definition sends_progress :: "int \<Rightarrow> 'z world_scheme \<Rightarrow> bool" where
  "sends_progress fd s \<longleftrightarrow>
     (\<forall>n data. data \<noteq> [] \<longrightarrow> 1 \<le> w_ans s n (SysSend fd data) \<and> w_ans s n (SysSend fd data) \<le> int (length data)) \<and>
     (\<forall>n w. w_ans s n (SysSend fd (htonl_bytes w)) = 4)"

definition frame :: "bytes \<Rightarrow> bytes" where
  "frame bs = htonl_bytes (of_nat (length bs)) @ bs"

definition remaining :: "writer \<Rightarrow> bytes" where
  "remaining w = drop (nat (pw_bytes_written w)) (pw_message w)"

definition writing :: "writer \<Rightarrow> bool" where
  "writing w \<longleftrightarrow> pw_size_written w \<and> 0 \<le> pw_bytes_written w \<and> pw_bytes_written w \<le> int (length (pw_message w))"

definition next_chunk :: "writer \<Rightarrow> bytes" where
  "next_chunk w = take (min (length (remaining w)) PROTOWRITER_MAX_WRITE_SIZE) (remaining w)"

lemma writer_write_data:
  assumes "pw_size_written w" and "pw_bytes_written w \<noteq> int (length (pw_message w))"
    and r: "w_ans s (w_clock s) (SysSend fd (next_chunk w)) = r" and "r \<noteq> -1"
  shows "fst (writer_write fd w s) =
       Inr (if pw_bytes_written w + r = int (length (pw_message w))
            then (True, writer_clear w) else (False, w\<lparr>pw_bytes_written := pw_bytes_written w + r\<rparr>))"
    and "w_ans (snd (writer_write fd w s)) = w_ans s"
    and "w_trace (snd (writer_write fd w s)) = (SysSend fd (next_chunk w), r) # w_trace s"
  using assms
  unfolding writer_write_def Let_def next_chunk_def remaining_def
  by (auto simp: bindM_run seqM_run returnM_run sys_run logM_run writer_clear_def)

lemma writer_write_payload:
  assumes good: "sends_progress fd s" and w: "writing w" and ne: "remaining w \<noteq> []"
  shows "\<exists>k s'. 1 \<le> k \<and> k \<le> length (remaining w) \<and> k \<le> PROTOWRITER_MAX_WRITE_SIZE \<and>
     writer_write fd w s =
       (Inr (if k = length (remaining w) then (True, writer_clear w)
             else (False, w\<lparr>pw_bytes_written := pw_bytes_written w + int k\<rparr>)), s') \<and>
     w_ans s' = w_ans s \<and>
     sent_bytes fd (w_trace s') = sent_bytes fd (w_trace s) @ take k (remaining w)"
proof -
  obtain r where r: "w_ans s (w_clock s) (SysSend fd (next_chunk w)) = r" by simp
  have "next_chunk w \<noteq> []"
    using ne by (simp add: next_chunk_def PROTOWRITER_MAX_WRITE_SIZE_def)
  with good r have le: "1 \<le> r" "r \<le> int (length (next_chunk w))"
    unfolding sends_progress_def by blast+
  have len: "length (next_chunk w) \<le> length (remaining w)"
    "length (next_chunk w) \<le> PROTOWRITER_MAX_WRITE_SIZE"
    by (simp_all add: next_chunk_def)
  have neq: "pw_bytes_written w \<noteq> int (length (pw_message w))"
    using ne by (auto simp: remaining_def)
  have last: "pw_bytes_written w + r = int (length (pw_message w)) \<longleftrightarrow> nat r = length (remaining w)"
    using w le by (auto simp: remaining_def writing_def)
  have "nat r \<le> length (remaining w)" "nat r \<le> PROTOWRITER_MAX_WRITE_SIZE"
    using le len by linarith+
  then have "nat r \<le> min (length (remaining w)) PROTOWRITER_MAX_WRITE_SIZE"
    by (rule min.boundedI)
  then have "take (nat r) (next_chunk w) = take (nat r) (remaining w)"
    unfolding next_chunk_def by (simp only: take_take min_absorb1)
  with w le neq last len show ?thesis
    using writer_write_data [OF _ neq r]
    by (intro exI [of _ "nat r"] exI [of _ "snd (writer_write fd w s)"])
      (auto simp: writing_def prod_eq_iff)
qed

lemma write_until_payload:
  assumes "sends_progress fd s" and "writing w" and "length (remaining w) < fuel"
  shows "\<exists>w' s'. write_until fuel fd w s = (Inr (Some w'), s') \<and>
     sent_bytes fd (w_trace s') = sent_bytes fd (w_trace s) @ remaining w"
  using assms
proof (induction fuel arbitrary: w s)
  case 0
  then show ?case by simp
next
  case (Suc fuel)
  show ?case
  proof (cases "remaining w = []")
    case True
    with Suc.prems(2) have "pw_bytes_written w = int (length (pw_message w))"
      by (auto simp: remaining_def writing_def)
    with True Suc.prems(2) show ?thesis
      by (simp add: writer_write_def run_simps writing_def)
  next
    case False
    from writer_write_payload [OF Suc.prems(1,2) False] obtain k s' where
      k: "1 \<le> k" "k \<le> length (remaining w)" and
      step: "writer_write fd w s =
         (Inr (if k = length (remaining w) then (True, writer_clear w)
               else (False, w\<lparr>pw_bytes_written := pw_bytes_written w + int k\<rparr>)), s')" and
      ans: "w_ans s' = w_ans s" and
      sent: "sent_bytes fd (w_trace s') = sent_bytes fd (w_trace s) @ take k (remaining w)"
      by blast
    show ?thesis
    proof (cases "k = length (remaining w)")
      case True
      with step sent show ?thesis by (simp add: run_simps)
    next
      case False
      let ?w = "w\<lparr>pw_bytes_written := pw_bytes_written w + int k\<rparr>"
      have rem: "remaining ?w = drop k (remaining w)" and "writing ?w"
        using Suc.prems(2) k by (auto simp: remaining_def writing_def nat_add_distrib add.commute)
      moreover have "sends_progress fd s'"
        using Suc.prems(1) ans by (simp add: sends_progress_def)
      moreover have "length (remaining ?w) < fuel"
        using Suc.prems(3) k rem by simp
      ultimately obtain w' s'' where
        "write_until fuel fd ?w s' = (Inr (Some w'), s'')"
        "sent_bytes fd (w_trace s'') = sent_bytes fd (w_trace s') @ drop k (remaining w)"
        using Suc.IH [of s' ?w] by auto
      with step sent False show ?thesis
        by (simp add: run_simps)
    qed
  qed
qed

section \<open>Decoding a stream of frames\<close>

text \<open>
  The contract of an incremental decoder: it holds back the bytes it has not delivered, stays
  silent while they are no complete frame, and delivers a complete frame as soon as its last
  byte arrives, keeping what follows it.
\<close>

text \<open>Successive calls on the chunks that arrive, with the result of each.\<close>

fun feed_all :: "('r \<Rightarrow> 'b list \<Rightarrow> 'res \<times> 'r) \<Rightarrow> 'r \<Rightarrow> 'b list list \<Rightarrow> 'res list \<times> 'r" where
  "feed_all feed r [] = ([], r)"
| "feed_all feed r (c # cs) =
     (case feed r c of (res, r') \<Rightarrow> (case feed_all feed r' cs of (rs, r'') \<Rightarrow> (res # rs, r'')))"

locale frame_decoder =
  fixes feed :: "'r \<Rightarrow> 'b list \<Rightarrow> (exn + 'm option) \<times> 'r"
    and pending :: "'r \<Rightarrow> 'b list"
    and ok :: "'r \<Rightarrow> bool"
    and complete :: "'b list \<Rightarrow> bool"
    and is_frame :: "'b list \<Rightarrow> bool"
    and decode :: "'b list \<Rightarrow> exn + 'm option"
  assumes feed_silent: "ok r \<Longrightarrow> \<not> complete (pending r @ c) \<Longrightarrow>
        fst (feed r c) = Inr None \<and> pending (snd (feed r c)) = pending r @ c \<and> ok (snd (feed r c))"
    and feed_delivers: "ok r \<Longrightarrow> pending r @ c = f @ rest \<Longrightarrow> is_frame f \<Longrightarrow>
        fst (feed r c) = decode f \<and> pending (snd (feed r c)) = rest \<and> ok (snd (feed r c))"
    and frame_prefix: "is_frame (f @ g) \<Longrightarrow> g \<noteq> [] \<Longrightarrow> \<not> complete f"
begin

lemma feed_all_frame:
  assumes "ok r" and "pending r @ concat cs = f @ rest" and "is_frame f"
    and "length (concat (butlast cs)) + length (pending r) < length f" and "cs \<noteq> []"
  shows "\<exists>r'. feed_all feed r cs = (replicate (length cs - 1) (Inr None) @ [decode f], r') \<and>
     pending r' = rest \<and> ok r'"
  using assms
proof (induction cs arbitrary: r)
  case Nil
  then show ?case by simp
next
  case (Cons c cs)
  show ?case
  proof (cases "cs = []")
    case True
    with Cons.prems(2) have "pending r @ c = f @ rest" by simp
    from feed_delivers [OF Cons.prems(1) this Cons.prems(3)] True
    show ?thesis
      by (cases "feed r c") simp
  next
    case False
    with Cons.prems(4) have short: "length (pending r @ c) < length f" by simp
    have eq: "(pending r @ c) @ concat cs = f @ rest"
      using Cons.prems(2) by simp
    with short obtain g where f: "f = (pending r @ c) @ g" and g: "g \<noteq> []"
      by (metis append_eq_append_conv_if append_take_drop_id drop_eq_Nil linorder_not_le
          nless_le take_all)
    have "\<not> complete (pending r @ c)"
      using frame_prefix [OF Cons.prems(3) [unfolded f] g] by simp
    from feed_silent [OF Cons.prems(1) this]
    obtain r' where r': "feed r c = (Inr None, r')" "pending r' = pending r @ c" "ok r'"
      by (cases "feed r c") auto
    have "\<exists>r''. feed_all feed r' cs = (replicate (length cs - 1) (Inr None) @ [decode f], r'') \<and>
        pending r'' = rest \<and> ok r''"
      using Cons.prems False eq r' by (intro Cons.IH) auto
    with r'(1) False show ?thesis
      by (cases cs) auto
  qed
qed

end

definition pr_ok :: "reader \<Rightarrow> bool" where
  "pr_ok r \<longleftrightarrow> (case pr_message_size r of None \<Rightarrow> True
     | Some n \<Rightarrow> 4 \<le> length (pr_buffer r) \<and> n = unat (ntohl_bytes (take 4 (pr_buffer r))))"

definition frame_complete :: "bytes \<Rightarrow> bool" where
  "frame_complete b \<longleftrightarrow> 4 \<le> length b \<and> 4 + unat (ntohl_bytes (take 4 b)) \<le> length b"

definition is_frame :: "bytes \<Rightarrow> bool" where
  "is_frame f \<longleftrightarrow> 4 \<le> length f \<and> length f = 4 + unat (ntohl_bytes (take 4 f))"

definition decode_frame :: "(bytes \<Rightarrow> 'm option) \<Rightarrow> bytes \<Rightarrow> exn + 'm option" where
  "decode_frame parse f = (case parse (drop 4 f) of
     None \<Rightarrow> Inl (StdExn ''Failed to parse protobuf message'') | Some m \<Rightarrow> Inr (Some m))"

lemma is_frame_frame: "length bs < 2 ^ 32 \<Longrightarrow> is_frame (frame bs)"
  by (simp add: is_frame_def frame_def unat_of_nat)

lemma decode_frame_frame: "parse bs = Some m \<Longrightarrow> decode_frame parse (frame bs) = Inr (Some m)"
  by (simp add: decode_frame_def frame_def)

lemma take4_prefix: "4 \<le> length b \<Longrightarrow> take 4 (b @ c) = take 4 b"
  by simp

lemma reader_size:
  assumes "pr_ok r"
  shows "(if pr_message_size r = None \<and> length (pr_buffer r @ c) \<ge> 4
          then Some (unat (ntohl_bytes (take 4 (pr_buffer r @ c)))) else pr_message_size r)
       = (if length (pr_buffer r @ c) \<ge> 4
          then Some (unat (ntohl_bytes (take 4 (pr_buffer r @ c)))) else None)"
  using assms by (auto simp: pr_ok_def split: option.splits)

lemma reader_feed_eq:
  assumes "pr_ok r"
  shows "reader_feed parse r c =
     (let buf = pr_buffer r @ c; n = unat (ntohl_bytes (take 4 buf))
      in if length buf < 4 then (Inr None, \<lparr>pr_buffer = buf, pr_message_size = None\<rparr>)
         else if length buf < 4 + n then (Inr None, \<lparr>pr_buffer = buf, pr_message_size = Some n\<rparr>)
         else (decode_frame parse (take (4 + n) buf), \<lparr>pr_buffer = drop (4 + n) buf, pr_message_size = None\<rparr>))"
proof -
  obtain buf where buf: "pr_buffer r @ c = buf" by simp
  show ?thesis
    unfolding reader_feed_def Let_def reader_size [OF assms] unfolding buf
    by (auto simp: decode_frame_def drop_take split: option.splits)
qed

lemma reader_feed_silent:
  assumes "pr_ok r" and "\<not> frame_complete (pr_buffer r @ c)"
  shows "fst (reader_feed parse r c) = Inr None \<and>
     pr_buffer (snd (reader_feed parse r c)) = pr_buffer r @ c \<and> pr_ok (snd (reader_feed parse r c))"
  using assms(2) unfolding reader_feed_eq [OF assms(1)] Let_def
  by (auto simp: frame_complete_def pr_ok_def)

lemma reader_feed_delivers:
  assumes "pr_ok r" and "pr_buffer r @ c = f @ rest" and "is_frame f"
  shows "fst (reader_feed parse r c) = decode_frame parse f \<and>
     pr_buffer (snd (reader_feed parse r c)) = rest \<and> pr_ok (snd (reader_feed parse r c))"
proof -
  from assms(3) have "take 4 (f @ rest) = take 4 f" "length f = 4 + unat (ntohl_bytes (take 4 f))"
    by (simp_all add: is_frame_def)
  then show ?thesis
    unfolding reader_feed_eq [OF assms(1)] Let_def assms(2)
    by (simp add: pr_ok_def)
qed

lemma frame_proper_prefix: "is_frame (f @ g) \<Longrightarrow> g \<noteq> [] \<Longrightarrow> \<not> frame_complete f"
  by (cases g) (auto simp: is_frame_def frame_complete_def)

interpretation rd: frame_decoder "reader_feed parse" pr_buffer pr_ok frame_complete is_frame
  "decode_frame parse"
  by unfold_locales
    (fact reader_feed_silent reader_feed_delivers frame_proper_prefix)+

section \<open>Framing is correct\<close>

lemma concat_butlast_short:
  "cs \<noteq> [] \<Longrightarrow> [] \<notin> set cs \<Longrightarrow> length (concat (butlast cs)) < length (concat cs)"
  by (induction cs) auto

lemma write_until_frame:
  assumes "writer_init serialize m writer_new = Inr w" and "serialize m = Some bs"
    and "sends_progress fd s" and "length bs + 2 \<le> fuel"
  shows "\<exists>w' s'. write_until fuel fd w s = (Inr (Some w'), s') \<and>
     sent_bytes fd (w_trace s') = sent_bytes fd (w_trace s) @ frame bs"
proof -
  from assms(1,2) have w: "w = \<lparr>pw_message = bs, pw_bytes_written = 0, pw_size_written = False\<rparr>"
    by (auto simp: writer_init_def writer_new_def)
  obtain f where fuel: "fuel = Suc f" "length bs < f"
    using assms(4) by (cases fuel) auto
  obtain s1 where s1: "writer_write fd w s = (Inr (False, w\<lparr>pw_size_written := True\<rparr>), s1)"
    "w_ans s1 = w_ans s"
    "w_trace s1 = (SysSend fd (htonl_bytes (of_nat (length bs))), 4) # w_trace s"
    using assms(3) by (simp add: w writer_write_def run_simps sends_progress_def)
  have "sends_progress fd s1"
    using assms(3) s1(2) by (simp add: sends_progress_def)
  moreover have "writing (w\<lparr>pw_size_written := True\<rparr>)" "remaining (w\<lparr>pw_size_written := True\<rparr>) = bs"
    by (simp_all add: w writing_def remaining_def)
  ultimately obtain w' s' where
    "write_until f fd (w\<lparr>pw_size_written := True\<rparr>) s1 = (Inr (Some w'), s')"
    "sent_bytes fd (w_trace s') = sent_bytes fd (w_trace s1) @ bs"
    using write_until_payload [of fd s1 "w\<lparr>pw_size_written := True\<rparr>" f] fuel(2) by auto
  with s1 show ?thesis
    by (auto simp: fuel(1) run_simps frame_def)
qed

text \<open>
  C34. The writer puts exactly one frame on the wire: calling \<open>write\<close> until it reports the
  message done, at most \<open>length bs + 2\<close> times, sends the four-byte big-endian length and then
  every byte of the serialised message, whatever part of each chunk the kernel accepts.
\<close>

theorem writer_sends_frame:
  assumes "writer_init serialize m writer_new = Inr w" and "serialize m = Some bs"
    and "sends_progress fd s" and "length bs + 2 \<le> fuel"
  shows "\<exists>w' s'. write_until fuel fd w s = (Inr (Some w'), s') \<and>
     sent_bytes fd (w_trace s') = sent_bytes fd (w_trace s) @ frame bs"
  using assms by (rule write_until_frame)

theorem writer_sends_frame_witness:
  "\<exists>w' s'. write_until 5 7 \<lparr>pw_message = [1, 2, 3], pw_bytes_written = 0, pw_size_written = False\<rparr>
       example_world = (Inr (Some w'), s') \<and> sent_bytes 7 (w_trace s') = [0, 0, 0, 3, 1, 2, 3]"
  using writer_sends_frame [of Some "[1, 2, 3]"
      "\<lparr>pw_message = [1, 2, 3], pw_bytes_written = 0, pw_size_written = False\<rparr>" "[1, 2, 3]" 7
      example_world 5]
  by (auto simp: writer_init_def writer_new_def sends_progress_def example_world_def
      Suc_le_eq frame_def htonl_bytes_def)

lemma feed_all_one_frame:
  assumes "length bs < 2 ^ 32" and "parse bs = Some m"
    and "concat cs = frame bs" and "[] \<notin> set cs"
  shows "feed_all (reader_feed parse) reader_new cs =
     (replicate (length cs - 1) (Inr None) @ [Inr (Some m)], reader_new)"
proof -
  have ne: "cs \<noteq> []"
    using assms(3) by (auto simp: frame_def)
  have "length (concat (butlast cs)) < length (frame bs)"
    using concat_butlast_short [OF ne assms(4)] assms(3) by simp
  then obtain r' where r': "feed_all (reader_feed parse) reader_new cs =
      (replicate (length cs - 1) (Inr None) @ [decode_frame parse (frame bs)], r')"
    "pr_buffer r' = []" "pr_ok r'"
    using rd.feed_all_frame [of reader_new cs "frame bs" "[]" parse] assms is_frame_frame ne
    by (auto simp: reader_new_def pr_ok_def)
  from r'(2,3) have "r' = reader_new"
    by (intro reader.equality) (auto simp: reader_new_def pr_ok_def split: option.splits)
  with r'(1) decode_frame_frame [of parse bs m] assms(2) show ?thesis
    by (simp only:)
qed

text \<open>
  C35. The reader reassembles a frame however the stream cuts it: fed the frame of a message in
  non-empty chunks, every read but the last reports no message, the last delivers it, and the
  reader is as new.
\<close>

theorem reader_reassembles:
  assumes "length bs < 2 ^ 32" and "parse bs = Some m"
    and "concat cs = frame bs" and "[] \<notin> set cs"
  shows "feed_all (reader_feed parse) reader_new cs =
     (replicate (length cs - 1) (Inr None) @ [Inr (Some m)], reader_new)"
  using assms by (rule feed_all_one_frame)

theorem reader_reassembles_witness:
  "feed_all (reader_feed Some) reader_new [[0, 0], [0, 3, 1, 2], [3]] =
     ([Inr None, Inr None, Inr (Some [1, 2, 3])], reader_new)"
proof -
  have "concat [[0, 0], [0, 3, 1, 2], [3]] = frame [1, 2, 3 :: 8 word]"
    by (simp add: frame_def htonl_bytes_def)
  from reader_reassembles [OF _ _ this, of Some "[1, 2, 3]"] show ?thesis by simp
qed

text \<open>
  C36. Pipelined frames are not lost but are delivered one per read: when a second frame arrives
  in the same chunk, the first read delivers the first message and keeps the second frame; it
  is delivered by the next read, and that read must bring at least one more byte.
\<close>

theorem reader_pipelines:
  assumes "length bs < 2 ^ 32" and "length bs' < 2 ^ 32"
    and "parse bs = Some m" and "parse bs' = Some m'" and "x \<noteq> []"
  shows "feed_all (reader_feed parse) reader_new [frame bs @ frame bs', x] =
     ([Inr (Some m), Inr (Some m')], \<lparr>pr_buffer = x, pr_message_size = None\<rparr>)"
proof -
  have f: "is_frame (frame bs)" and f': "is_frame (frame bs')"
    using assms(1,2) by (simp_all add: is_frame_frame)
  have "pr_ok reader_new" by (simp add: pr_ok_def reader_new_def)
  note first = reader_feed_eq [OF this, of parse "frame bs @ frame bs'"]
  have "reader_feed parse reader_new (frame bs @ frame bs') =
      (Inr (Some m), \<lparr>pr_buffer = frame bs', pr_message_size = None\<rparr>)"
    unfolding first using f assms(3)
    by (auto simp: reader_new_def Let_def is_frame_def decode_frame_frame)
  moreover have "pr_ok \<lparr>pr_buffer = frame bs', pr_message_size = None\<rparr>"
    by (simp add: pr_ok_def)
  note second = reader_feed_eq [OF this, of parse x]
  have "reader_feed parse \<lparr>pr_buffer = frame bs', pr_message_size = None\<rparr> x =
      (Inr (Some m'), \<lparr>pr_buffer = x, pr_message_size = None\<rparr>)"
    unfolding second using f' assms(4)
    by (auto simp: Let_def is_frame_def decode_frame_frame)
  ultimately show ?thesis by simp
qed

theorem reader_pipelines_witness:
  "feed_all (reader_feed Some) reader_new [[0, 0, 0, 1, 5, 0, 0, 0, 1, 6], [0]] =
     ([Inr (Some [5]), Inr (Some [6])], \<lparr>pr_buffer = [0], pr_message_size = None\<rparr>)"
  using reader_pipelines [of "[5]" "[6]" Some "[5]" "[6]" "[0]"]
  by (simp add: frame_def htonl_bytes_def)

end
