(* ===== verification/Event_Manager.thy ===== *)
theory Event_Manager
  imports World
begin

text \<open>
  The event loop's registry, \<^verbatim>\<open>taskmasterd/src/core/EventManager.cpp\<close>: two maps from file
  descriptors to callbacks beside the kernel's interest list. A callback is a value of the type
  \<open>'cb\<close> that the daemon's dispatcher interprets; an entry \<open>Some None\<close> is an empty
  \<open>std::function\<close>. \<open>em_interest\<close> is the interest list as it follows from the \<open>epoll_ctl\<close> calls
  that succeeded: it is what the kernel was told, no code reads it.
\<close>

record 'cb events = world +
  em_read_callbacks :: "int \<Rightarrow> 'cb option option"
  em_write_callbacks :: "int \<Rightarrow> 'cb option option"
  em_interest :: "int \<Rightarrow> (bool \<times> bool) option"

text \<open>
  The constructor, and the function-local static of \<open>getInstance\<close> as an argument: when the
  construction throws, the static is still uninitialised and the next call tries again. The
  operations below are those of the instance. The first call is in the server's constructor; later ones
  return the instance and are not repeated in the model.
\<close>

definition event_manager_new :: "('z world_scheme, int) prog" where
  "event_manager_new = bindM (sys SysEpollCreate) (\<lambda>fd.
     if fd = -1 then throwM (StdExn ''Failed to create epoll file descriptor'') else returnM fd)"

definition getInstance :: "int option \<Rightarrow> ('z world_scheme, int) prog" where
  "getInstance instance_fd = (case instance_fd of None \<Rightarrow> event_manager_new | Some fd \<Rightarrow> returnM fd)"

lemma getInstance_once:
  "getInstance instance_fd s = (Inr fd, t) \<Longrightarrow> getInstance (Some fd) t = (Inr fd, t) \<and> (instance_fd = None \<longrightarrow> fd \<noteq> -1)"
  by (cases instance_fd) (auto simp: getInstance_def event_manager_new_def run_simps split: if_splits)

datatype epoll_op = EPOLL_CTL_ADD | EPOLL_CTL_MOD

definition updateEventInternal ::
  "int \<Rightarrow> epoll_op \<Rightarrow> 'cb option \<Rightarrow> 'cb option \<Rightarrow> (('cb, 'z) events_scheme, unit) prog" where
  "updateEventInternal fd operation read_callback write_callback =
     (let ein = (read_callback \<noteq> None); eout = (write_callback \<noteq> None)
      in bindM (sys (case operation of
             EPOLL_CTL_ADD \<Rightarrow> SysEpollAdd fd ein eout | EPOLL_CTL_MOD \<Rightarrow> SysEpollMod fd ein eout)) (\<lambda>r.
         if r = -1
         then bindM errno_text (\<lambda>err.
                throwM (StdExn (''Failed to update file descriptor in epoll: '' @ err)))
         else modifyM (\<lambda>s. s\<lparr>em_interest := (em_interest s)(fd \<mapsto> (ein, eout)),
                em_read_callbacks := (em_read_callbacks s)(fd \<mapsto> read_callback),
                em_write_callbacks := (em_write_callbacks s)(fd \<mapsto> write_callback)\<rparr>)))"

definition registerEvent ::
  "int \<Rightarrow> 'cb option \<Rightarrow> 'cb option \<Rightarrow> (('cb, 'z) events_scheme, unit) prog" where
  "registerEvent fd read_callback write_callback =
     updateEventInternal fd EPOLL_CTL_ADD read_callback write_callback"

definition updateEvent ::
  "int \<Rightarrow> 'cb option \<Rightarrow> 'cb option \<Rightarrow> (('cb, 'z) events_scheme, unit) prog" where
  "updateEvent fd read_callback write_callback =
     updateEventInternal fd EPOLL_CTL_MOD read_callback write_callback"

definition unregisterEvent :: "int \<Rightarrow> (('cb, 'z) events_scheme, unit) prog" where
  "unregisterEvent fd =
     bindM (sys (SysEpollDel fd)) (\<lambda>r.
     if r = -1
     then bindM errno_text (\<lambda>err.
            throwM (StdExn (''Failed to remove file descriptor from epoll: '' @ err)))
     else modifyM (\<lambda>s. s\<lparr>em_interest := (em_interest s)(fd := None),
            em_read_callbacks := (em_read_callbacks s)(fd := None),
            em_write_callbacks := (em_write_callbacks s)(fd := None)\<rparr>))"

section \<open>Dispatch\<close>

text \<open>
  What \<open>epoll_wait\<close> reports: descriptors with their \<open>EPOLLIN\<close> and \<open>EPOLLOUT\<close> flags, an
  interruption by a signal, or an error.
\<close>

datatype epoll_result = Events "(int \<times> bool \<times> bool) list" | Interrupted | WaitFailed

text \<open>\<open>callbacks.at(fd)()\<close>.\<close>

definition call_at ::
  "('cb \<Rightarrow> ('s, unit) prog) \<Rightarrow> (int \<Rightarrow> 'cb option option) \<Rightarrow> int \<Rightarrow> ('s, unit) prog" where
  "call_at invoke callbacks fd = (case callbacks fd of
     None \<Rightarrow> throwM (StdExn ''unordered_map::at'')
   | Some None \<Rightarrow> throwM (StdExn ''bad_function_call'')
   | Some (Some cb) \<Rightarrow> invoke cb)"

definition handleEvent ::
  "('cb \<Rightarrow> (('cb, 'z) events_scheme, unit) prog) \<Rightarrow> int \<times> bool \<times> bool
     \<Rightarrow> (('cb, 'z) events_scheme, unit) prog" where
  "handleEvent invoke ev = (case ev of (fd, ein, eout) \<Rightarrow>
     tryM (seqM (whenM ein (bindM (getsM em_read_callbacks) (\<lambda>m. call_at invoke m fd)))
                (whenM eout (bindM (getsM em_write_callbacks) (\<lambda>m. call_at invoke m fd))))
          (\<lambda>w. logM LT_Error (''Error handling event for fd '' @ to_string fd @ '': '' @ w)))"

fun handleEvents ::
  "('cb \<Rightarrow> (('cb, 'z) events_scheme, unit) prog) \<Rightarrow> epoll_result
     \<Rightarrow> (('cb, 'z) events_scheme, unit) prog" where
  "handleEvents invoke Interrupted = returnM ()"
| "handleEvents invoke WaitFailed =
     bindM errno_text (\<lambda>err. throwM (StdExn (''epoll_wait failed: '' @ err)))"
| "handleEvents invoke (Events evs) = forM (handleEvent invoke) evs"

section \<open>The registry's contract\<close>

text \<open>What timers, processes, clients and the server rely on.\<close>

locale event_registry =
  fixes register :: "int \<Rightarrow> 'cb option \<Rightarrow> 'cb option \<Rightarrow> ('s, unit) prog"
    and unregister :: "int \<Rightarrow> ('s, unit) prog"
    and registered :: "'s \<Rightarrow> int \<Rightarrow> ('cb option \<times> 'cb option) option"
  assumes register_ok: "register fd r w s = (Inr (), t) \<Longrightarrow> registered t = (registered s)(fd \<mapsto> (r, w))"
    and register_fails: "register fd r w s = (Inl e, t) \<Longrightarrow> registered t = registered s"
    and unregister_ok: "unregister fd s = (Inr (), t) \<Longrightarrow> registered t = (registered s)(fd := None)"
    and unregister_fails: "unregister fd s = (Inl e, t) \<Longrightarrow> registered t = registered s"
begin

text \<open>Switching a descriptor from one kind of event to another.\<close>

lemma rearm_ok:
  assumes "seqM (unregister fd) (register fd r w) s = (Inr (), t)"
  shows "registered t = (registered s)(fd \<mapsto> (r, w))"
  using assms
  by (auto simp: seqM_run dest!: register_ok unregister_ok split: prod.splits sum.splits)

lemma rearm_fails:
  assumes "seqM (unregister fd) (register fd r w) s = (Inl e, t)"
  shows "registered t = registered s \<or> registered t = (registered s)(fd := None)"
  using assms
  by (auto simp: seqM_run dest!: register_fails unregister_ok unregister_fails
      split: prod.splits sum.splits)

lemma unregister_other:
  "unregister fd s = (res, t) \<Longrightarrow> fd' \<noteq> fd \<Longrightarrow> registered t fd' = registered s fd'"
  by (cases res) (auto dest: unregister_ok unregister_fails)

end

definition entry_of :: "'cb option option \<Rightarrow> 'cb option option \<Rightarrow> ('cb option \<times> 'cb option) option" where
  "entry_of r w = Option.bind r (\<lambda>r'. map_option (Pair r') w)"

definition registered_callbacks ::
  "('cb, 'z) events_scheme \<Rightarrow> int \<Rightarrow> ('cb option \<times> 'cb option) option" where
  "registered_callbacks s = (\<lambda>fd. entry_of (em_read_callbacks s fd) (em_write_callbacks s fd))"

interpretation reg: event_registry registerEvent unregisterEvent registered_callbacks
  by unfold_locales
    (auto simp: registerEvent_def updateEventInternal_def unregisterEvent_def run_simps Let_def
      registered_callbacks_def entry_of_def fun_eq_iff split: if_splits)

text \<open>
  The registry is consistent: a descriptor has both entries or none, and the kernel watches it
  for exactly the kinds of event that have a callback.
\<close>

fun entry_ok :: "'cb option option \<Rightarrow> 'cb option option \<Rightarrow> (bool \<times> bool) option \<Rightarrow> bool" where
  "entry_ok None None None = True"
| "entry_ok (Some r) (Some w) (Some (ein, eout)) = (ein = (r \<noteq> None) \<and> eout = (w \<noteq> None))"
| "entry_ok _ _ _ = False"

definition em_ok :: "('cb, 'z) events_scheme \<Rightarrow> bool" where
  "em_ok s \<longleftrightarrow>
     (\<forall>fd. entry_ok (em_read_callbacks s fd) (em_write_callbacks s fd) (em_interest s fd))"

abbreviation em_keeps :: "('cb, 'z) events_scheme \<Rightarrow> ('cb, 'z) events_scheme \<Rightarrow> bool" where
  "em_keeps s t \<equiv> em_ok s \<longrightarrow> em_ok t"

interpretation em: effect_order em_keeps
  by unfold_locales auto

lemma em_ok_world [simp]:
  "em_ok (w_clock_update f s) = em_ok s" "em_ok (w_trace_update g s) = em_ok s"
  "em_ok (w_next_update h s) = em_ok s" "em_ok (w_sinks_update k s) = em_ok s"
  by (simp_all add: em_ok_def)

lemma registered_world [simp]:
  "registered_callbacks (w_clock_update f s) = registered_callbacks s"
  "registered_callbacks (w_trace_update g s) = registered_callbacks s"
  "registered_callbacks (w_next_update h s) = registered_callbacks s"
  "registered_callbacks (w_sinks_update k s) = registered_callbacks s"
  by (simp_all add: registered_callbacks_def fun_eq_iff)

lemma sys_em: "keeps em_keeps (sys c)"
  by (rule keepsI) (simp add: run_simps)

lemma errno_em: "keeps em_keeps errno_text"
  by (rule keepsI) (simp add: run_simps)

lemma log_em: "keeps em_keeps (logM t msg)"
  by (rule keepsI) (simp add: run_simps)

lemma fresh_em: "keeps em_keeps fresh_id"
  by (rule keepsI) (simp add: run_simps)

lemma updateEventInternal_em: "keeps em_keeps (updateEventInternal fd op r w)"
  unfolding updateEventInternal_def Let_def
  by (intro em.bind_keeps sys_em em.if_keeps errno_em em.throw_keeps em.modify_keeps)
    (auto simp: em_ok_def)

lemma unregisterEvent_em: "keeps em_keeps (unregisterEvent fd)"
  unfolding unregisterEvent_def
  by (intro em.bind_keeps sys_em em.if_keeps errno_em em.throw_keeps em.modify_keeps)
    (auto simp: em_ok_def)

lemma registerEvent_em: "keeps em_keeps (registerEvent fd r w)"
  by (simp add: registerEvent_def updateEventInternal_em)

lemma updateEvent_em: "keeps em_keeps (updateEvent fd r w)"
  by (simp add: updateEvent_def updateEventInternal_em)

lemma call_at_em: "(\<And>cb. keeps em_keeps (invoke cb)) \<Longrightarrow> keeps em_keeps (call_at invoke m fd)"
  by (auto simp: call_at_def em.throw_keeps split: option.splits)

lemma handleEvents_em:
  assumes "\<And>cb. keeps em_keeps (invoke cb)"
  shows "keeps em_keeps (handleEvents invoke wait)"
proof (cases wait)
  case (Events evs)
  have "keeps em_keeps (handleEvent invoke ev)" for ev
    unfolding handleEvent_def
    by (intro em.pair_keeps em.try_keeps em.seq_keeps em.when_keeps em.bind_keeps em.gets_keeps
        call_at_em assms log_em)
  with Events show ?thesis by (simp add: em.for_keeps)
qed (auto intro: em.return_keeps em.bind_keeps errno_em em.throw_keeps)

section \<open>Correctness\<close>

text \<open>
  C37. Every operation of the event manager keeps the registry consistent: a descriptor has a
  read and a write entry or neither, and the kernel watches it for exactly the event kinds that
  have a callback, whether the \<open>epoll_ctl\<close> call succeeds or fails.
\<close>

theorem registry_consistent:
  assumes "em_ok s"
  shows "em_ok (snd (registerEvent fd r w s)) \<and> em_ok (snd (updateEvent fd r w s)) \<and>
     em_ok (snd (unregisterEvent fd s))"
  using assms registerEvent_em [of fd r w] updateEvent_em [of fd r w] unregisterEvent_em [of fd]
  by (auto simp: keeps_def)

definition example_events :: "'cb events" where
  "example_events = world.extend example_world
     \<lparr>em_read_callbacks = (\<lambda>fd. None), em_write_callbacks = (\<lambda>fd. None), em_interest = (\<lambda>fd. None)\<rparr>"

lemma example_events_ok: "em_ok example_events"
  by (simp add: em_ok_def example_events_def world.defs)

theorem registry_consistent_witness:
  "em_ok (snd (unregisterEvent 5 (snd (registerEvent 5 (Some ()) None example_events))))"
  using registry_consistent [OF registry_consistent [OF example_events_ok, THEN conjunct1]]
  by blast



end
