(* ===== verification/Timer.thy ===== *)
theory Timer
  imports Event_Manager
begin

text \<open>
  Timers, \<^verbatim>\<open>taskmasterd/src/core/Timer.cpp\<close>: a kernel timer descriptor that runs a callback once.
  A timer is an object of its own: \<open>t_id\<close> stands for its address, so that a callback bound to a
  destroyed timer is not taken for one bound to its successor.
\<close>

datatype timer_state = T_STOPPED | T_RUNNING

record 'tc timer =
  t_id :: nat
  t_fd :: int
  t_interval :: int
  t_state :: timer_state
  t_callback :: 'tc

definition timer_new ::
  "int \<Rightarrow> 'tc \<Rightarrow> ('z world_scheme, 'tc timer) prog" where
  "timer_new interval callback =
     bindM (sys SysTimerfdCreate) (\<lambda>fd.
     if fd = -1 then throwM (StdExn ''Failed to create timerfd'')
     else bindM fresh_id (\<lambda>i.
       returnM \<lparr>t_id = i, t_fd = fd, t_interval = interval, t_state = T_STOPPED,
         t_callback = callback\<rparr>))"

text \<open>\<open>~FileDescriptor\<close>, the destructor of every descriptor owner.\<close>

definition fd_destroy :: "int \<Rightarrow> ('z world_scheme, unit) prog" where
  "fd_destroy fd = whenM (fd \<noteq> -1) (seqM (sys (SysClose fd)) (returnM ()))"

definition timer_destroy :: "'tc timer \<Rightarrow> (('cb, 'z) events_scheme, unit) prog" where
  "timer_destroy t = noexceptM
     (seqM (whenM (t_state t = T_RUNNING) (unregisterEvent (t_fd t))) (fd_destroy (t_fd t)))"

text \<open>
  \<open>start\<close> arms the kernel timer for a first expiry after \<open>interval\<close> seconds and the same period,
  then registers the given callback for the descriptor. The object changes last.
\<close>

definition timer_start ::
  "'cb \<Rightarrow> 'tc timer \<Rightarrow> (('cb, 'z) events_scheme, 'tc timer) prog" where
  "timer_start on_expire t =
     bindM (sys (SysTimerfdSettime (t_fd t) (t_interval t) (t_interval t))) (\<lambda>r.
     if r = -1 then throwM (StdExn ''Failed to set timerfd time'')
     else seqM (registerEvent (t_fd t) (Some on_expire) None)
            (returnM (t\<lparr>t_state := T_RUNNING\<rparr>)))"

text \<open>\<open>onExpire\<close>; \<open>put\<close> writes the object back, \<open>run\<close> calls the stored callback.\<close>

definition timer_on_expire ::
  "('tc timer \<Rightarrow> (('cb, 'z) events_scheme, unit) prog) \<Rightarrow> ('tc \<Rightarrow> (('cb, 'z) events_scheme, unit) prog)
     \<Rightarrow> 'tc timer \<Rightarrow> (('cb, 'z) events_scheme, unit) prog" where
  "timer_on_expire put run t =
     seqM (put (t\<lparr>t_state := T_STOPPED\<rparr>))
     (bindM (sys (SysReadTimer (t_fd t))) (\<lambda>s.
      if s \<noteq> 8 then throwM (StdExn ''Failed to read timerfd'')
      else seqM (unregisterEvent (t_fd t)) (run (t_callback t))))"

section \<open>Correctness\<close>

lemma timer_new_em: "keeps em_keeps (timer_new interval cb)"
  unfolding timer_new_def
  by (intro em.bind_keeps em.if_keeps em.throw_keeps em.return_keeps sys_em fresh_em)

lemma fd_destroy_em: "keeps em_keeps (fd_destroy fd)"
  unfolding fd_destroy_def by (intro em.when_keeps em.seq_keeps sys_em em.return_keeps)

lemma timer_destroy_em: "keeps em_keeps (timer_destroy t)"
  unfolding timer_destroy_def
  by (intro em.noexcept_keeps em.seq_keeps em.when_keeps unregisterEvent_em fd_destroy_em)

lemma timer_start_em: "keeps em_keeps (timer_start cb t)"
  unfolding timer_start_def
  by (intro em.bind_keeps em.seq_keeps em.if_keeps em.throw_keeps em.return_keeps sys_em
      registerEvent_em)

lemma timer_on_expire_em:
  assumes "\<And>u. keeps em_keeps (put u)" and "\<And>c. keeps em_keeps (run c)"
  shows "keeps em_keeps (timer_on_expire put run t)"
  unfolding timer_on_expire_def
  by (intro em.bind_keeps em.seq_keeps em.if_keeps em.throw_keeps assms sys_em unregisterEvent_em)

text \<open>Started without failure, a timer is registered for its callback and armed as configured.\<close>

lemma timer_start_ok:
  assumes "timer_start cb t s = (Inr t', s')"
  shows "t' = t\<lparr>t_state := T_RUNNING\<rparr>"
    and "registered_callbacks s' = (registered_callbacks s)(t_fd t \<mapsto> (Some cb, None))"
    and "\<exists>r r' ein eout. w_trace s' = (SysEpollAdd (t_fd t) ein eout, r)
           # (SysTimerfdSettime (t_fd t) (t_interval t) (t_interval t), r') # w_trace s"
  using assms
  by (auto simp: timer_start_def registerEvent_def updateEventInternal_def run_simps Let_def
      registered_callbacks_def entry_of_def fun_eq_iff split: if_splits)

text \<open>
  A timer runs its callback at most once per start: when \<open>onExpire\<close> reaches the callback, the
  object is in state STOPPED and its descriptor is no longer registered; when the read of the
  descriptor or the deregistration fails, the callback is not run at all.
\<close>

lemma timer_fires_once:
  assumes put: "\<And>u s. put u s = (Inr (), upd u s)"
    and regs: "\<And>u s. registered_callbacks (upd u s) = registered_callbacks s"
    and ans: "\<And>u s. w_ans (upd u s) = w_ans s" "\<And>u s. w_clock (upd u s) = w_clock s"
  shows "\<exists>s'. registered_callbacks s' \<in>
            {registered_callbacks s, (registered_callbacks s)(t_fd t := None)} \<and>
     (timer_on_expire put run t s = run (t_callback t) s' \<and>
        registered_callbacks s' = (registered_callbacks s)(t_fd t := None) \<and>
        w_ans s (w_clock s) (SysReadTimer (t_fd t)) = 8
      \<or> (\<exists>w. timer_on_expire put run t s = (Inl (StdExn w), s')))"
proof (cases "w_ans s (w_clock s) (SysReadTimer (t_fd t)) = 8")
  case False
  then show ?thesis
    by (intro exI [of _ "snd (timer_on_expire put run t s)"])
      (simp add: timer_on_expire_def seqM_run bindM_run sys_run throwM_run put ans regs)
next
  case True
  obtain s1 where s1: "bindM (sys (SysReadTimer (t_fd t))) (\<lambda>s. returnM s) (upd (t\<lparr>t_state := T_STOPPED\<rparr>) s)
      = (Inr 8, s1)" "registered_callbacks s1 = registered_callbacks s"
    using True regs by (simp add: run_simps ans)
  have run: "timer_on_expire put run t s = seqM (unregisterEvent (t_fd t)) (run (t_callback t)) s1"
    using s1(1) True by (simp add: timer_on_expire_def seqM_run bindM_run sys_run returnM_run put ans)
  obtain r s2 where r: "unregisterEvent (t_fd t) s1 = (r, s2)" by fastforce
  show ?thesis
  proof (cases r)
    case (Inl e)
    then obtain w where "e = StdExn w"
      using r by (auto simp: unregisterEvent_def run_simps split: if_splits)
    with Inl r run s1(2) reg.unregister_fails [of "t_fd t" s1 e s2] show ?thesis
      by (intro exI [of _ s2]) (simp add: seqM_run)
  next
    case (Inr x)
    with r run s1(2) reg.unregister_ok [of "t_fd t" s1 s2] True show ?thesis
      by (intro exI [of _ s2]) (simp add: seqM_run)
  qed
qed

end
