(* ===== verification/Signals.thy ===== *)
theory Signals
  imports Timer
begin

text \<open>
  Signals, \<^verbatim>\<open>taskmasterd/src/jobs/Signal.cpp\<close>, and the daemon's global state,
  \<^verbatim>\<open>Globals.hpp\<close>. The numbers are Linux's.
\<close>

datatype signals = S_INT | S_TERM | S_HUP | S_QUIT | S_KILL | S_USR1 | S_USR2

fun signal_number :: "signals \<Rightarrow> int" where
  "signal_number S_INT = 2"
| "signal_number S_TERM = 15"
| "signal_number S_HUP = 1"
| "signal_number S_QUIT = 3"
| "signal_number S_KILL = 9"
| "signal_number S_USR1 = 10"
| "signal_number S_USR2 = 12"

lemma signal_number_inj: "signal_number a = signal_number b \<Longrightarrow> a = b"
  by (cases a; cases b) auto

text \<open>The text of a \<open>Signals\<close> value, which may hold any integer.\<close>

definition signal_text :: "int \<Rightarrow> string" where
  "signal_text n =
     (if n = 2 then ''SIGINT'' else if n = 15 then ''SIGTERM'' else if n = 1 then ''SIGHUP''
      else if n = 3 then ''SIGQUIT'' else if n = 9 then ''SIGKILL'' else if n = 10 then ''SIGUSR1''
      else if n = 12 then ''SIGUSR2'' else ''UNKNOWN SIGNAL'')"

datatype daemon_state = G_RUNNING | G_RELOAD | G_TERMINATED

record 'cb globals = "'cb events" +
  g_state :: daemon_state

definition signalHandler :: "int \<Rightarrow> (('cb, 'z) globals_scheme, unit) prog" where
  "signalHandler signum =
     seqM (logM LT_Info (''Received signal: '' @ signal_text signum))
       (modifyM (\<lambda>s. s\<lparr>g_state := (if signum = 1 then G_RELOAD else G_TERMINATED)\<rparr>))"

lemma signal_text_number [simp]:
  "signal_text (signal_number S_HUP) = ''SIGHUP''" "signal_text (signal_number S_KILL) = ''SIGKILL''"
  by (simp_all add: signal_text_def)

lemma signalHandler_state:
  "g_state (snd (signalHandler signum s)) = (if signum = 1 then G_RELOAD else G_TERMINATED)"
  by (simp add: signalHandler_def run_simps)

end
