(* ===== verification/Job_Config.thy ===== *)
theory Job_Config
  imports Signals "HOL-Library.Multiset"
begin

text \<open>
  Job configurations, \<^verbatim>\<open>taskmasterd/src/jobs/JobConfig.cpp\<close>: the record, its comparison, the
  fourteen option parsers and the loader. yaml-cpp's nodes and the file system are a record of
  functions (\<open>config_env\<close>) over an abstract node type. The loader touches nothing but its result and
  the log, so what it logs is a second function over the same nodes.
\<close>

section \<open>The configuration record\<close>

datatype restart_policy = NEVER | ALWAYS | ON_FAILURE

record jobconfig =
  c_name :: string
  c_cmd :: string
  c_working_dir :: string
  c_numprocs :: int
  c_umask :: "32 word"
  c_autostart :: bool
  c_restart_policy :: restart_policy
  c_exit_codes :: "int list"
  c_start_retries :: int
  c_start_time :: int
  c_stop_time :: int
  c_stop_signal :: signals
  c_out :: "string option"
  c_err :: "string option"
  c_env :: "(string, string) umap"

text \<open>\<open>operator==\<close> on unordered maps does not see the order of the entries.\<close>

definition umap_eq :: "('k, 'v) umap \<Rightarrow> ('k, 'v) umap \<Rightarrow> bool" where
  "umap_eq a b \<longleftrightarrow> length a = length b \<and> list_all (\<lambda>(k, v). um_find k b = Some v) a"

definition config_eq :: "jobconfig \<Rightarrow> jobconfig \<Rightarrow> bool" where
  "config_eq a b \<longleftrightarrow> a\<lparr>c_env := []\<rparr> = b\<lparr>c_env := []\<rparr> \<and> umap_eq (c_env a) (c_env b)"

definition signal_names :: "(string, signals) umap" where
  "signal_names = [(''HUP'', S_HUP), (''INT'', S_INT), (''TERM'', S_TERM), (''QUIT'', S_QUIT),
     (''KILL'', S_KILL), (''USR1'', S_USR1), (''USR2'', S_USR2)]"

definition policy_names :: "(string, restart_policy) umap" where
  "policy_names = [(''true'', ALWAYS), (''unexpected'', ON_FAILURE), (''false'', NEVER)]"

section \<open>Parsing\<close>

record 'n config_env =
  y_is_defined :: "'n \<Rightarrow> bool"
  y_is_scalar :: "'n \<Rightarrow> bool"
  y_is_null :: "'n \<Rightarrow> bool"
  y_as_string :: "'n \<Rightarrow> exn + string"
  y_as_i32 :: "'n \<Rightarrow> exn + int"
  y_as_bool :: "'n \<Rightarrow> exn + bool"
  y_as_i32s :: "'n \<Rightarrow> exn + int list"
  y_entries :: "'n \<Rightarrow> ('n \<times> 'n) list"
  y_index :: "'n \<Rightarrow> string \<Rightarrow> exn + 'n"
  fs_exists :: "string \<Rightarrow> exn + bool"

type_synonym 'n parser = "'n config_env \<Rightarrow> jobconfig \<Rightarrow> 'n \<Rightarrow> exn + jobconfig"

definition parseCmd :: "'n parser" where
  "parseCmd E obj config =
     (if \<not> y_is_defined E config
      then Inl (StdExn (''ERROR: CMD is required to be set for job'' @ c_name obj))
      else bindE (y_as_string E config) (\<lambda>v. Inr (obj\<lparr>c_cmd := v\<rparr>)))"

definition parseNumberProcesses :: "'n parser" where
  "parseNumberProcesses E obj config =
     (if \<not> y_is_defined E config then Inr (obj\<lparr>c_numprocs := 1\<rparr>)
      else bindE (y_as_i32 E config) (\<lambda>v. Inr (obj\<lparr>c_numprocs := v\<rparr>)))"

definition octal_digits :: string where "octal_digits = ''01234567''"

text \<open>\<open>std::stoi(_, nullptr, 8)\<close> on a string of octal digits.\<close>

definition stoi_octal :: "string \<Rightarrow> int" where
  "stoi_octal ds = foldl (\<lambda>n c. 8 * n + (of_char c - 48)) 0 ds"

definition parseUnMask :: "'n parser" where
  "parseUnMask E obj config =
     (if \<not> y_is_defined E config then Inr (obj\<lparr>c_umask := 18\<rparr>)
      else bindE (y_as_string E config) (\<lambda>result.
        if length result \<noteq> 3 \<or> \<not> list_all (\<lambda>c. c \<in> set octal_digits) result
        then Inl (StdExn (''ERROR: Invalid umask value for job '' @ c_name obj))
        else Inr (obj\<lparr>c_umask := of_int (stoi_octal result)\<rparr>)))"

definition parseWorkingDir :: "'n parser" where
  "parseWorkingDir E obj config =
     (if \<not> y_is_defined E config then Inr (obj\<lparr>c_working_dir := ''.''\<rparr>)
      else bindE (y_as_string E config) (\<lambda>v. Inr (obj\<lparr>c_working_dir := v\<rparr>)))"

definition parseAutoStart :: "'n parser" where
  "parseAutoStart E obj config =
     (if \<not> y_is_defined E config then Inr (obj\<lparr>c_autostart := True\<rparr>)
      else bindE (y_as_bool E config) (\<lambda>v. Inr (obj\<lparr>c_autostart := v\<rparr>)))"

definition parseAutoRestart :: "'n parser" where
  "parseAutoRestart E obj config =
     (if \<not> y_is_defined E config then Inr (obj\<lparr>c_restart_policy := ON_FAILURE\<rparr>)
      else bindE (y_as_string E config) (\<lambda>v. case um_find v policy_names of
             None \<Rightarrow> Inl (StdExn ''Unsupported restart type!'')
           | Some p \<Rightarrow> Inr (obj\<lparr>c_restart_policy := p\<rparr>)))"

definition parseExitCodes :: "'n parser" where
  "parseExitCodes E obj config =
     (if \<not> y_is_defined E config then Inr (obj\<lparr>c_exit_codes := c_exit_codes obj @ [0]\<rparr>)
      else bindE (if y_is_scalar E config
             then bindE (y_as_i32 E config) (\<lambda>v. Inr (obj\<lparr>c_exit_codes := c_exit_codes obj @ [v]\<rparr>))
             else bindE (y_as_i32s E config) (\<lambda>vs. Inr (obj\<lparr>c_exit_codes := vs\<rparr>)))
           (\<lambda>obj'. Inr (obj'\<lparr>c_exit_codes := sort (c_exit_codes obj')\<rparr>)))"

definition parseStartRetries :: "'n parser" where
  "parseStartRetries E obj config =
     (if \<not> y_is_defined E config then Inr (obj\<lparr>c_start_retries := 3\<rparr>)
      else bindE (y_as_i32 E config) (\<lambda>v. Inr (obj\<lparr>c_start_retries := v\<rparr>)))"

definition parseStartTime :: "'n parser" where
  "parseStartTime E obj config =
     (if \<not> y_is_defined E config then Inr (obj\<lparr>c_start_time := 1\<rparr>)
      else bindE (y_as_i32 E config) (\<lambda>v. Inr (obj\<lparr>c_start_time := v\<rparr>)))"

definition parseStopSignal :: "'n parser" where
  "parseStopSignal E obj config =
     (if \<not> y_is_defined E config then Inr (obj\<lparr>c_stop_signal := S_TERM\<rparr>)
      else bindE (y_as_string E config) (\<lambda>v. case um_find v signal_names of
             None \<Rightarrow> Inl (StdExn ''Unsupported signal type!'')
           | Some g \<Rightarrow> Inr (obj\<lparr>c_stop_signal := g\<rparr>)))"

definition parseStopTime :: "'n parser" where
  "parseStopTime E obj config =
     (if \<not> y_is_defined E config then Inr (obj\<lparr>c_stop_time := 10\<rparr>)
      else bindE (y_as_i32 E config) (\<lambda>v. Inr (obj\<lparr>c_stop_time := v\<rparr>)))"

text \<open>
  \<open>std::filesystem::path::parent_path\<close> on POSIX: what stands before the last component, without the
  separators between the two, unless it is the root; empty for a path without a separator.
\<close>

definition parent_path :: "string \<Rightarrow> string" where
  "parent_path p =
     (let dir = rev (dropWhile (\<lambda>c. c \<noteq> CHR ''/'') (rev p));
          stripped = rev (dropWhile (\<lambda>c. c = CHR ''/'') (rev dir))
      in if stripped = [] then take 1 dir else stripped)"

lemma parent_path_examples:
  "parent_path ''/var/log/a.log'' = ''/var/log''" "parent_path ''/a.log'' = ''/''"
  "parent_path ''logs//a.log'' = ''logs''" "parent_path ''logs/'' = ''logs''" "parent_path ''a.log'' = []"
  by (simp_all add: parent_path_def)

definition parseSTDOUT :: "'n parser" where
  "parseSTDOUT E obj config =
     (if \<not> y_is_defined E config then Inr (obj\<lparr>c_out := None\<rparr>)
      else bindE (y_as_string E config) (\<lambda>path.
        bindE (fs_exists E (parent_path path)) (\<lambda>found.
        if \<not> found then Inr (obj\<lparr>c_out := None\<rparr>)
        else Inr (obj\<lparr>c_out := Some path\<rparr>))))"

definition parseSTDERR :: "'n parser" where
  "parseSTDERR E obj config =
     (if \<not> y_is_defined E config then Inr (obj\<lparr>c_err := None\<rparr>)
      else bindE (y_as_string E config) (\<lambda>path.
        bindE (fs_exists E (parent_path path)) (\<lambda>found.
        if \<not> found then Inr (obj\<lparr>c_err := None\<rparr>)
        else Inr (obj\<lparr>c_err := Some path\<rparr>))))"

fun add_env :: "'n config_env \<Rightarrow> ('n \<times> 'n) list \<Rightarrow> (string, string) umap
    \<Rightarrow> exn + (string, string) umap" where
  "add_env E [] env = Inr env"
| "add_env E ((k, v) # es) env =
     bindE (y_as_string E k) (\<lambda>key. bindE (y_as_string E v) (\<lambda>val.
       add_env E es (um_assign key val env)))"

definition parseENV :: "'n parser" where
  "parseENV E obj config =
     (if \<not> y_is_defined E config then Inr (obj\<lparr>c_env := []\<rparr>)
      else bindE (add_env E (y_entries E config) (c_env obj)) (\<lambda>env. Inr (obj\<lparr>c_env := env\<rparr>)))"

text \<open>The table \<open>nodes\<close> of the constructor: each option's name and parser.\<close>

datatype config_option =
    OptCmd | OptNumprocs | OptUmask | OptWorkingdir | OptAutostart | OptAutorestart | OptExitcodes
  | OptStartretries | OptStarttime | OptStopsignal | OptStoptime | OptStdout | OptStderr | OptEnv

fun option_name :: "config_option \<Rightarrow> string" where
  "option_name OptCmd = ''cmd''"
| "option_name OptNumprocs = ''numprocs''"
| "option_name OptUmask = ''umask''"
| "option_name OptWorkingdir = ''workingdir''"
| "option_name OptAutostart = ''autostart''"
| "option_name OptAutorestart = ''autorestart''"
| "option_name OptExitcodes = ''exitcodes''"
| "option_name OptStartretries = ''startretries''"
| "option_name OptStarttime = ''starttime''"
| "option_name OptStopsignal = ''stopsignal''"
| "option_name OptStoptime = ''stoptime''"
| "option_name OptStdout = ''stdout''"
| "option_name OptStderr = ''stderr''"
| "option_name OptEnv = ''env''"

fun parser_of :: "config_option \<Rightarrow> 'n parser" where
  "parser_of OptCmd = parseCmd"
| "parser_of OptNumprocs = parseNumberProcesses"
| "parser_of OptUmask = parseUnMask"
| "parser_of OptWorkingdir = parseWorkingDir"
| "parser_of OptAutostart = parseAutoStart"
| "parser_of OptAutorestart = parseAutoRestart"
| "parser_of OptExitcodes = parseExitCodes"
| "parser_of OptStartretries = parseStartRetries"
| "parser_of OptStarttime = parseStartTime"
| "parser_of OptStopsignal = parseStopSignal"
| "parser_of OptStoptime = parseStopTime"
| "parser_of OptStdout = parseSTDOUT"
| "parser_of OptStderr = parseSTDERR"
| "parser_of OptEnv = parseENV"

definition nodes :: "config_option list" where
  "nodes = [OptCmd, OptNumprocs, OptUmask, OptWorkingdir, OptAutostart, OptAutorestart, OptExitcodes,
     OptStartretries, OptStarttime, OptStopsignal, OptStoptime, OptStdout, OptStderr, OptEnv]"

fun parse_options :: "'n config_env \<Rightarrow> 'n \<Rightarrow> config_option list \<Rightarrow> jobconfig \<Rightarrow> exn + jobconfig" where
  "parse_options E config [] obj = Inr obj"
| "parse_options E config (k # ks) obj =
     bindE (y_index E config (option_name k)) (\<lambda>n.
     bindE (parser_of k E obj n) (parse_options E config ks))"

text \<open>The first loop of the constructor: it only reads the option names, which may throw.\<close>

fun check_options :: "'n config_env \<Rightarrow> ('n \<times> 'n) list \<Rightarrow> exn + unit" where
  "check_options E [] = Inr ()"
| "check_options E ((k, v) # es) = bindE (y_as_string E k) (\<lambda>opt. check_options E es)"

text \<open>
  The constructor. Only \<open>name\<close> is initialised, and the members of class type are empty; \<open>raw\<close> is
  the indeterminate content of the rest. \<open>order\<close> is the iteration order of \<open>nodes\<close>.
\<close>

definition job_config_new ::
  "jobconfig \<Rightarrow> config_option list \<Rightarrow> 'n config_env \<Rightarrow> string \<Rightarrow> 'n \<Rightarrow> exn + jobconfig" where
  "job_config_new raw order E name config =
     bindE (check_options E (y_entries E config)) (\<lambda>_.
       parse_options E config order
         (raw\<lparr>c_name := name, c_cmd := [], c_working_dir := [], c_exit_codes := [], c_out := None,
            c_err := None, c_env := []\<rparr>))"

definition raw_config :: jobconfig where
  "raw_config = \<lparr>c_name = [], c_cmd = [], c_working_dir = [], c_numprocs = 0, c_umask = 0,
     c_autostart = False, c_restart_policy = NEVER, c_exit_codes = [], c_start_retries = 0,
     c_start_time = 0, c_stop_time = 0, c_stop_signal = S_INT, c_out = None, c_err = None, c_env = []\<rparr>"

fun load_jobs :: "'n config_env \<Rightarrow> 'n \<Rightarrow> ('n \<times> 'n) list \<Rightarrow> (string, jobconfig) umap
    \<Rightarrow> exn + (string, jobconfig) umap" where
  "load_jobs E config [] jobConfigs = Inr jobConfigs"
| "load_jobs E config ((k, v) # es) jobConfigs =
     bindE (y_as_string E k) (\<lambda>name.
     if y_is_null E k then load_jobs E config es jobConfigs
     else if um_find name jobConfigs \<noteq> None then load_jobs E config es jobConfigs
     else (case bindE (y_index E config name) (job_config_new raw_config nodes E name) of
             Inl e \<Rightarrow> (case e of StdExn w \<Rightarrow> load_jobs E config es jobConfigs | _ \<Rightarrow> Inl e)
           | Inr c \<Rightarrow> load_jobs E config es (um_emplace name c jobConfigs)))"

text \<open>\<open>loaded\<close> is what \<open>YAML::LoadFile(filename)\<close> gave.\<close>

definition getJobConfigs :: "'n config_env \<Rightarrow> exn + 'n \<Rightarrow> exn + (string, jobconfig) umap" where
  "getJobConfigs E loaded =
     bindE loaded (\<lambda>root. bindE (y_index E root ''jobs'') (\<lambda>config.
       if \<not> y_is_defined E config
       then Inl (StdExn ''ERROR: No 'jobs' node found in the configuration file.'')
       else load_jobs E config (y_entries E config) []))"

section \<open>What the loader logs\<close>

text \<open>
  The messages of the functions above, in the order in which they are logged up to the first
  exception that ends them.
\<close>

definition redirect_log :: "string \<Rightarrow> 'n config_env \<Rightarrow> 'n \<Rightarrow> messages" where
  "redirect_log stream E config =
     (if \<not> y_is_defined E config then []
      else case y_as_string E config of
        Inl e \<Rightarrow> []
      | Inr path \<Rightarrow> if fs_exists E (parent_path path) = Inr False
          then [(LT_Warning, ''Directory of Path: ['' @ path @ ''] doesn't exists! Redirect to '' @ stream)]
          else [])"

fun parser_log :: "config_option \<Rightarrow> 'n config_env \<Rightarrow> 'n \<Rightarrow> messages" where
  "parser_log OptStdout E config = redirect_log ''stdout'' E config"
| "parser_log OptStderr E config = redirect_log ''stderr'' E config"
| "parser_log k E config = []"

fun parse_options_log :: "'n config_env \<Rightarrow> 'n \<Rightarrow> config_option list \<Rightarrow> jobconfig \<Rightarrow> messages" where
  "parse_options_log E config [] obj = []"
| "parse_options_log E config (k # ks) obj =
     (LT_Debug, ''Parsing node: '' @ option_name k) #
     (case y_index E config (option_name k) of
        Inl e \<Rightarrow> []
      | Inr n \<Rightarrow> parser_log k E n @
          (case parser_of k E obj n of Inl e \<Rightarrow> [] | Inr obj' \<Rightarrow> parse_options_log E config ks obj'))"

fun check_options_log :: "'n config_env \<Rightarrow> ('n \<times> 'n) list \<Rightarrow> messages" where
  "check_options_log E [] = []"
| "check_options_log E ((k, v) # es) = (case y_as_string E k of
     Inl e \<Rightarrow> []
   | Inr opt \<Rightarrow> (if opt \<notin> option_name ` set nodes
         then [(LT_Warning, ''Unsupported Option ['' @ opt @ ''] skipping....'')] else []) @
       check_options_log E es)"

definition job_config_log ::
  "jobconfig \<Rightarrow> config_option list \<Rightarrow> 'n config_env \<Rightarrow> string \<Rightarrow> 'n \<Rightarrow> messages" where
  "job_config_log raw order E name config =
     check_options_log E (y_entries E config) @
     (case check_options E (y_entries E config) of
        Inl e \<Rightarrow> []
      | Inr _ \<Rightarrow> parse_options_log E config order
          (raw\<lparr>c_name := name, c_cmd := [], c_working_dir := [], c_exit_codes := [], c_out := None,
             c_err := None, c_env := []\<rparr>))"

fun load_jobs_log :: "'n config_env \<Rightarrow> 'n \<Rightarrow> ('n \<times> 'n) list \<Rightarrow> (string, jobconfig) umap \<Rightarrow> messages" where
  "load_jobs_log E config [] jobConfigs = []"
| "load_jobs_log E config ((k, v) # es) jobConfigs = (case y_as_string E k of
     Inl e \<Rightarrow> []
   | Inr name \<Rightarrow>
     if y_is_null E k
     then (LT_Error, ''ERROR: Invalid job name: ['' @ name @ ''] Skipping...'') # load_jobs_log E config es jobConfigs
     else if um_find name jobConfigs \<noteq> None
     then (LT_Warning, ''ERROR: Duplicate job name found: '' @ name @ ''Skipping...'') #
          load_jobs_log E config es jobConfigs
     else (case y_index E config name of Inl e \<Rightarrow> [] | Inr n \<Rightarrow> job_config_log raw_config nodes E name n) @
          (case bindE (y_index E config name) (job_config_new raw_config nodes E name) of
             Inl e \<Rightarrow> (case e of
                 StdExn w \<Rightarrow> (LT_Error, ''ERROR: Failed to parse job '' @ quoted name @ '': '' @ w @ '' Skipping...'') #
                   load_jobs_log E config es jobConfigs
               | _ \<Rightarrow> [])
           | Inr c \<Rightarrow> load_jobs_log E config es (um_emplace name c jobConfigs)))"

definition getJobConfigs_log :: "'n config_env \<Rightarrow> exn + 'n \<Rightarrow> messages" where
  "getJobConfigs_log E loaded = (case bindE loaded (\<lambda>root. y_index E root ''jobs'') of
     Inl e \<Rightarrow> []
   | Inr config \<Rightarrow>
     if \<not> y_is_defined E config
     then [(LT_Fatal, ''ERROR: No 'jobs' node found in the configuration file.'')]
     else load_jobs_log E config (y_entries E config) [])"

end
