(* ===== verification/Daemon_State.thy ===== *)
theory Daemon_State
  imports Proto_Wire Job_Config
begin

text \<open>
  The daemon's state. Jobs and clients live on a heap, because the code reaches them by
  reference from callbacks: \<open>h_jobs\<close> and \<open>h_clients\<close> map an object's identity to the object,
  \<open>None\<close> before its construction and after its destruction. A process is reached as a position
  in its job's vector of processes, which only grows. Reaching a destroyed object is undefined
  behaviour. Callbacks, closures in the code, are the values of \<open>callback\<close>.
\<close>

datatype callback =
    CbAccept
  | CbClientRead nat
  | CbClientWrite nat command
  | CbProcess nat nat
  | CbTimer nat nat nat

datatype timer_callback = TcStartTime nat nat | TcStopTime nat nat

datatype process_state =
  P_STOPPED | P_STARTING | P_RUNNING | P_BACKOFF | P_STOPPING | P_EXITED | P_FATAL | P_UNKNOWN

record process =
  p_name :: string
  p_pid :: int
  p_pgid :: int
  p_state :: process_state
  p_restarts :: int
  p_fd :: int
  p_timer :: "timer_callback timer option"

datatype job_state =
  J_EMPTY | J_STARTING | J_RUNNING | J_STOPPING | J_STOPPED | J_REPLACE | J_REMOVE

record job =
  j_config :: jobconfig
  j_argv :: "string list"
  j_env :: "string list"
  j_state :: job_state
  j_pgid :: int
  j_processes :: "process list"

record client =
  cl_fd :: int
  cl_reader :: reader
  cl_writer :: writer

text \<open>
  \<open>d_load n\<close> is what the \<open>n\<close>-th \<open>YAML::LoadFile\<close> gives and \<open>d_config_env n\<close> the YAML library and the
  file system while it is read; \<open>d_parse_command\<close>,
  \<open>d_serialize_response\<close> and \<open>d_debug_string\<close> are Protocol Buffers' functions for the messages.
\<close>

record 'n daemon = "callback globals" +
  h_jobs :: "nat \<Rightarrow> job option"
  m_jobs :: "(string, nat) umap"
  m_config :: "(string, jobconfig) umap"
  s_fd :: int
  h_clients :: "nat \<Rightarrow> client option"
  s_clients :: "nat list"
  d_config_env :: "nat \<Rightarrow> 'n config_env"
  d_load :: "nat \<Rightarrow> exn + 'n"
  d_loads :: nat
  d_parse_command :: "bytes \<Rightarrow> command option"
  d_serialize_response :: "response \<Rightarrow> bytes option"
  d_debug_string :: "command \<Rightarrow> string"

type_synonym ('n, 'a) dprog = "('n daemon, 'a) prog"

section \<open>The heap\<close>

definition get_job :: "nat \<Rightarrow> ('n, job) dprog" where
  "get_job jid = bindM (getsM h_jobs) (\<lambda>h. case h jid of
     None \<Rightarrow> throwM (Undefined ''job destroyed'') | Some j \<Rightarrow> returnM j)"

definition mod_job :: "nat \<Rightarrow> (job \<Rightarrow> job) \<Rightarrow> ('n, unit) dprog" where
  "mod_job jid f = modifyM (\<lambda>s. s\<lparr>h_jobs := (h_jobs s)(jid := map_option f (h_jobs s jid))\<rparr>)"

definition get_proc :: "nat \<Rightarrow> nat \<Rightarrow> ('n, process) dprog" where
  "get_proc jid i = bindM (get_job jid) (\<lambda>j.
     if i < length (j_processes j) then returnM (j_processes j ! i)
     else throwM (Undefined ''process destroyed''))"

definition upd_proc :: "nat \<Rightarrow> (process \<Rightarrow> process) \<Rightarrow> job \<Rightarrow> job" where
  "upd_proc i f j = j\<lparr>j_processes := (j_processes j)[i := f (j_processes j ! i)]\<rparr>"

definition mod_proc :: "nat \<Rightarrow> nat \<Rightarrow> (process \<Rightarrow> process) \<Rightarrow> ('n, unit) dprog" where
  "mod_proc jid i f = mod_job jid (upd_proc i f)"

definition get_client :: "nat \<Rightarrow> ('n, client) dprog" where
  "get_client cid = bindM (getsM h_clients) (\<lambda>h. case h cid of
     None \<Rightarrow> throwM (Undefined ''client destroyed'') | Some c \<Rightarrow> returnM c)"

definition mod_client :: "nat \<Rightarrow> (client \<Rightarrow> client) \<Rightarrow> ('n, unit) dprog" where
  "mod_client cid f =
     modifyM (\<lambda>s. s\<lparr>h_clients := (h_clients s)(cid := map_option f (h_clients s cid))\<rparr>)"

lemma get_job_run [run_simps]:
  "get_job jid s = (case h_jobs s jid of None \<Rightarrow> (Inl (Undefined ''job destroyed''), s)
     | Some j \<Rightarrow> (Inr j, s))"
  by (simp add: get_job_def run_simps split: option.splits)

lemma mod_job_run [run_simps]:
  "mod_job jid f s = (Inr (), s\<lparr>h_jobs := (h_jobs s)(jid := map_option f (h_jobs s jid))\<rparr>)"
  by (simp add: mod_job_def run_simps)

lemma get_proc_run [run_simps]:
  "get_proc jid i s = (case h_jobs s jid of None \<Rightarrow> (Inl (Undefined ''job destroyed''), s)
     | Some j \<Rightarrow> if i < length (j_processes j) then (Inr (j_processes j ! i), s)
                else (Inl (Undefined ''process destroyed''), s))"
  by (simp add: get_proc_def run_simps split: option.splits)

lemma mod_proc_run [run_simps]:
  "mod_proc jid i f s = (Inr (), s\<lparr>h_jobs := (h_jobs s)(jid := map_option (upd_proc i f) (h_jobs s jid))\<rparr>)"
  by (simp add: mod_proc_def run_simps)

lemma get_client_run [run_simps]:
  "get_client cid s = (case h_clients s cid of None \<Rightarrow> (Inl (Undefined ''client destroyed''), s)
     | Some c \<Rightarrow> (Inr c, s))"
  by (simp add: get_client_def run_simps split: option.splits)

lemma mod_client_run [run_simps]:
  "mod_client cid f s =
     (Inr (), s\<lparr>h_clients := (h_clients s)(cid := map_option f (h_clients s cid))\<rparr>)"
  by (simp add: mod_client_def run_simps)

lemma upd_proc_simps [simp]:
  "j_config (upd_proc i f j) = j_config j" "j_argv (upd_proc i f j) = j_argv j"
  "j_env (upd_proc i f j) = j_env j" "j_state (upd_proc i f j) = j_state j"
  "j_pgid (upd_proc i f j) = j_pgid j"
  "length (j_processes (upd_proc i f j)) = length (j_processes j)"
  by (simp_all add: upd_proc_def)

lemma upd_proc_nth:
  "k < length (j_processes j) \<Longrightarrow>
     j_processes (upd_proc i f j) ! k = (if k = i then f (j_processes j ! i) else j_processes j ! k)"
  by (simp add: upd_proc_def nth_list_update)

end
