(* ===== verification/Process.thy ===== *)
theory Process
  imports Daemon_State
begin

text \<open>
  One supervised process, \<^verbatim>\<open>taskmasterd/src/jobs/Process.cpp\<close>: what needs no access to its job.
  The handlers that call back into the job stand in theory \<^verbatim>\<open>Job\<close>. A process is named by its
  job's identity \<open>jid\<close> and its index \<open>i\<close> in the job's vector.
\<close>

section \<open>Construction and destruction\<close>

definition process_new :: "string \<Rightarrow> int \<Rightarrow> process" where
  "process_new name pgid = \<lparr>p_name = name, p_pid = -1, p_pgid = pgid, p_state = P_STOPPED,
     p_restarts = 0, p_fd = -1, p_timer = None\<rparr>"

text \<open>\<open>~unique_ptr<Timer>\<close> and \<open>unique_ptr<Timer>::reset\<close> on the pointer's old content.\<close>

definition timer_release :: "'tc timer option \<Rightarrow> (('cb, 'z) events_scheme, unit) prog" where
  "timer_release t = (case t of None \<Rightarrow> returnM () | Some t' \<Rightarrow> timer_destroy t')"

text \<open>The destructor: the members, then the descriptor of the base class.\<close>

definition proc_destroy :: "process \<Rightarrow> (('cb, 'z) events_scheme, unit) prog" where
  "proc_destroy p = seqM (timer_release (p_timer p)) (fd_destroy (p_fd p))"

text \<open>\<open>_timer.reset(new Timer(interval, callback))\<close> and \<open>_timer.reset()\<close>.\<close>

definition proc_reset_timer :: "nat \<Rightarrow> nat \<Rightarrow> int \<Rightarrow> timer_callback \<Rightarrow> ('n, unit) dprog" where
  "proc_reset_timer jid i interval callback =
     bindM (timer_new interval callback) (\<lambda>t.
     bindM (get_proc jid i) (\<lambda>p.
     seqM (mod_proc jid i (\<lambda>p. p\<lparr>p_timer := Some t\<rparr>)) (timer_release (p_timer p))))"

definition proc_clear_timer :: "nat \<Rightarrow> nat \<Rightarrow> ('n, unit) dprog" where
  "proc_clear_timer jid i =
     bindM (get_proc jid i) (\<lambda>p.
     seqM (mod_proc jid i (\<lambda>p. p\<lparr>p_timer := None\<rparr>)) (timer_release (p_timer p)))"

text \<open>\<open>_timer->start()\<close>.\<close>

definition proc_start_timer :: "nat \<Rightarrow> nat \<Rightarrow> ('n, unit) dprog" where
  "proc_start_timer jid i =
     bindM (get_proc jid i) (\<lambda>p. case p_timer p of
       None \<Rightarrow> throwM (Undefined ''no timer'')
     | Some t \<Rightarrow> bindM (timer_start (CbTimer jid i (t_id t)) t) (\<lambda>t'.
         mod_proc jid i (\<lambda>p. p\<lparr>p_timer := Some t'\<rparr>)))"

section \<open>The child\<close>

definition dupPath :: "int \<Rightarrow> string \<Rightarrow> ('z world_scheme, unit) prog" where
  "dupPath std_input path =
     bindM (sys (SysOpenWrite path)) (\<lambda>fd.
     if fd < 0 then throwM (StdExn (''Process: dupPath: failed to open file '' @ path))
     else bindM (sys (SysDup2 fd std_input)) (\<lambda>r.
       if r < 0
       then seqM (sys (SysClose fd)) (throwM (StdExn (''Process: dupPath: failed to dup path fd: ''
              @ to_string fd @ ''path: '' @ path)))
       else seqM (sys (SysClose fd)) (returnM ())))"

definition child_drop_privileges :: "('z world_scheme, unit) prog" where
  "child_drop_privileges =
     bindM (sys SysGetgid) (\<lambda>gid. bindM (sys (SysSetgid gid)) (\<lambda>r.
     if r = -1 then seqM (logM LT_Fatal ''Unable to drop privileges'') (throwM (Exits (-1)))
     else bindM (sys SysGetuid) (\<lambda>uid. bindM (sys (SysSetuid uid)) (\<lambda>r.
     if r = -1 then seqM (logM LT_Fatal ''Unable to drop privileges'') (throwM (Exits (-1)))
     else returnM ()))))"

definition child_redirect :: "jobconfig \<Rightarrow> ('z world_scheme, unit) prog" where
  "child_redirect config =
     seqM (case c_err config of None \<Rightarrow> returnM ()
           | Some path \<Rightarrow> seqM (logM LT_Debug (''Duping stderr to path: '' @ path)) (dupPath 2 path))
    (seqM (case c_out config of None \<Rightarrow> returnM ()
           | Some path \<Rightarrow> seqM (logM LT_Debug (''Duping stdout to path: '' @ path)) (dupPath 1 path))
    (bindM (sys (SysChdir (c_working_dir config))) (\<lambda>r.
       if r \<noteq> 0
       then bindM errno_text (\<lambda>err. throwM (StdExn (''Working Dir Error: '' @ err)))
       else returnM ())))"

definition process_child ::
  "int \<Rightarrow> string \<Rightarrow> string list \<Rightarrow> string list \<Rightarrow> jobconfig \<Rightarrow> ('z world_scheme, unit) prog" where
  "process_child pgid path argv env config =
     seqM child_drop_privileges
    (seqM (sys (SysSetpgid 0 pgid))
    (seqM (tryM (child_redirect config) (\<lambda>w.
             seqM (logM LT_Error (''Error executing process '' @ c_name config @ '' Issue: '' @ w))
               (throwM (Exits (-1)))))
    (seqM (sys (SysUmask (c_umask config)))
    (bindM (sys (SysExecve path argv env)) (\<lambda>r.
       if r = -1
       then bindM errno_text (\<lambda>err.
              seqM (logM LT_Error (''Error executing process '' @ c_name config @ '' Issue: '' @ err))
                (throwM (Exits 1)))
       else throwM Replaced)))))"

section \<open>Starting\<close>

text \<open>What the parent does with the child's process id.\<close>

definition process_parent :: "nat \<Rightarrow> nat \<Rightarrow> int \<Rightarrow> string \<Rightarrow> ('n, unit) dprog" where
  "process_parent jid i pid name =
     seqM (mod_proc jid i (\<lambda>p. p\<lparr>p_state := P_STARTING\<rparr>))
    (seqM (proc_start_timer jid i)
    (seqM (logM LT_Info (''Started process '' @ name @ '' with PID '' @ to_string pid))
    (bindM (pidfd_open pid 0) (\<lambda>fd.
     seqM (mod_proc jid i (\<lambda>p. p\<lparr>p_fd := fd\<rparr>))
    (if fd = -1
     then bindM errno_text (\<lambda>err.
            throwM (StdExn (''Failed to open pidfd for process '' @ quoted name @ '': '' @ err)))
     else registerEvent fd (Some (CbProcess jid i)) None)))))"

definition process_start ::
  "nat \<Rightarrow> nat \<Rightarrow> string \<Rightarrow> string list \<Rightarrow> string list \<Rightarrow> jobconfig \<Rightarrow> ('n, unit) dprog" where
  "process_start jid i path argv env config =
     seqM (proc_reset_timer jid i (c_start_time config) (TcStartTime jid i))
    (bindM (sys SysFork) (\<lambda>pid.
     seqM (mod_proc jid i (\<lambda>p. p\<lparr>p_pid := pid\<rparr>))
    (bindM (get_proc jid i) (\<lambda>p.
     if pid = -1
     then bindM errno_text (\<lambda>err.
            throwM (StdExn (''Fork failed for process '' @ quoted (p_name p) @ '': '' @ err)))
     else if pid = 0 then process_child (p_pgid p) path argv env config
     else process_parent jid i pid (p_name p)))))"

definition proc_reset_restarts :: "nat \<Rightarrow> nat \<Rightarrow> ('n, unit) dprog" where
  "proc_reset_restarts jid i = mod_proc jid i (\<lambda>p. p\<lparr>p_restarts := 0\<rparr>)"

text \<open>\<open>_restarts++\<close> on an \<open>i32\<close>.\<close>

definition proc_add_restart :: "nat \<Rightarrow> nat \<Rightarrow> ('n, unit) dprog" where
  "proc_add_restart jid i = bindM (get_proc jid i) (\<lambda>p.
     if p_restarts p = 2 ^ 31 - 1 then throwM (Undefined ''signed overflow'')
     else mod_proc jid i (\<lambda>p. p\<lparr>p_restarts := p_restarts p + 1\<rparr>))"

section \<open>Signals\<close>

definition process_kill :: "nat \<Rightarrow> nat \<Rightarrow> ('n, unit) dprog" where
  "process_kill jid i = bindM (get_proc jid i) (\<lambda>p.
     bindM (pidfd_send_signal (p_fd p) 9 0) (\<lambda>r.
     if r = -1 then throwM (StdExn (''Failed to send SIGKILL to process: '' @ p_name p))
     else seqM (logM LT_Debug (''Sent SIGKILL to process: '' @ p_name p))
            (mod_proc jid i (\<lambda>p. p\<lparr>p_state := P_STOPPING\<rparr>))))"

text \<open>The stop timer's closure.\<close>

definition process_on_stop_time :: "nat \<Rightarrow> nat \<Rightarrow> ('n, unit) dprog" where
  "process_on_stop_time jid i = bindM (get_proc jid i) (\<lambda>p.
     whenM (p_state p = P_STOPPING)
       (seqM (logM LT_Warning (''Process '' @ p_name p @ '' did not stop in time, sending SIGKILL''))
          (process_kill jid i)))"

text \<open>\<open>waitpid(pid, &status, 0)\<close>.\<close>

definition waitpid :: "int \<Rightarrow> ('z world_scheme, int \<times> 32 word) prog" where
  "waitpid pid = bindM (getsM (\<lambda>s. w_status s (w_clock s))) (\<lambda>status.
     bindM (sys (SysWaitpid pid)) (\<lambda>result. returnM (result, status)))"

fun process_state_number :: "process_state \<Rightarrow> int" where
  "process_state_number P_STOPPED = 0"
| "process_state_number P_STARTING = 1"
| "process_state_number P_RUNNING = 2"
| "process_state_number P_BACKOFF = 3"
| "process_state_number P_STOPPING = 4"
| "process_state_number P_EXITED = 5"
| "process_state_number P_FATAL = 6"
| "process_state_number P_UNKNOWN = 7"

end
