(* ===== verification/Job.thy ===== *)
theory Job
  imports Process
begin

text \<open>
  Jobs, \<^verbatim>\<open>taskmasterd/src/jobs/Job.cpp\<close>, with the handlers of \<^verbatim>\<open>Process.cpp\<close> that call back into
  the job, and \<^verbatim>\<open>JobManager::onStop\<close>, which the job calls. Statements about them are in the
  theories that follow.
\<close>

section \<open>Construction and destruction\<close>

definition job_new :: "(string \<Rightarrow> string list option) \<Rightarrow> jobconfig \<Rightarrow> job" where
  "job_new wordexp config = \<lparr>j_config = config, j_argv = split_shell wordexp (c_cmd config),
     j_env = map (\<lambda>(key, value). key @ ''='' @ value) (c_env config),
     j_state = J_EMPTY, j_pgid = 0, j_processes = []\<rparr>"

definition job_alloc :: "jobconfig \<Rightarrow> ('n, nat) dprog" where
  "job_alloc config = bindM fresh_id (\<lambda>jid.
     seqM (modifyM (\<lambda>s. s\<lparr>h_jobs := (h_jobs s)(jid \<mapsto> job_new (w_wordexp s) config)\<rparr>))
       (returnM jid))"

text \<open>An object's life ends when its destructor starts; the members follow.\<close>

definition job_destroy :: "nat \<Rightarrow> ('n, unit) dprog" where
  "job_destroy jid = bindM (get_job jid) (\<lambda>j.
     seqM (modifyM (\<lambda>s. s\<lparr>h_jobs := (h_jobs s)(jid := None)\<rparr>))
       (forM proc_destroy (j_processes j)))"

definition set_job_state :: "nat \<Rightarrow> job_state \<Rightarrow> ('n, unit) dprog" where
  "set_job_state jid st = mod_job jid (\<lambda>j. j\<lparr>j_state := st\<rparr>)"

fun job_state_number :: "job_state \<Rightarrow> int" where
  "job_state_number J_EMPTY = 0"
| "job_state_number J_STARTING = 1"
| "job_state_number J_RUNNING = 2"
| "job_state_number J_STOPPING = 3"
| "job_state_number J_STOPPED = 4"
| "job_state_number J_REPLACE = 5"
| "job_state_number J_REMOVE = 6"

fun jobStateEnumToString :: "job_state \<Rightarrow> string" where
  "jobStateEnumToString J_EMPTY = ''EMPTY''"
| "jobStateEnumToString J_STARTING = ''STARTING''"
| "jobStateEnumToString J_RUNNING = ''RUNNING''"
| "jobStateEnumToString J_STOPPING = ''STOPPING''"
| "jobStateEnumToString J_STOPPED = ''STOPPED''"
| "jobStateEnumToString _ = ''UNKNOWN''"

section \<open>Starting processes\<close>

text \<open>
  \<open>proc.start(_argv[0], ...)\<close>: with no argument \<open>_argv[0]\<close> is the null pointer, from which
  libstdc++ refuses to build the \<open>path\<close> string.
\<close>

definition job_proc_start :: "nat \<Rightarrow> nat \<Rightarrow> ('n, unit) dprog" where
  "job_proc_start jid i = bindM (get_job jid) (\<lambda>j. case j_argv j of
       [] \<Rightarrow> throwM (StdExn ''basic_string: construction from null is not valid'')
     | path # _ \<Rightarrow> process_start jid i path (j_argv j) (j_env j) (j_config j))"

text \<open>The body of the loop of \<open>startProcesses\<close>, and the loop.\<close>

definition job_create_process :: "nat \<Rightarrow> nat \<Rightarrow> ('n, unit) dprog" where
  "job_create_process jid n = bindM (get_job jid) (\<lambda>j.
     let proc = process_new (c_name (j_config j) @ ''_'' @ to_string (int n)) (j_pgid j);
         i = length (j_processes j)
     in seqM (mod_job jid (\<lambda>j. j\<lparr>j_processes := j_processes j @ [proc]\<rparr>))
       (seqM (job_proc_start jid i)
       (bindM (get_job jid) (\<lambda>j. whenM (j_pgid j = 0)
          (bindM (get_proc jid i) (\<lambda>p. mod_job jid (\<lambda>j. j\<lparr>j_pgid := p_pid p\<rparr>)))))))"

definition job_start_processes :: "nat \<Rightarrow> ('n, unit) dprog" where
  "job_start_processes jid = bindM (get_job jid) (\<lambda>j.
     if j_processes j = [] \<and> c_numprocs (j_config j) < 0 then throwM (StdExn ''vector::reserve'')
     else forM (job_create_process jid) [0..<nat (c_numprocs (j_config j))])"

definition job_restart_processes :: "nat \<Rightarrow> ('n, unit) dprog" where
  "job_restart_processes jid = bindM (get_job jid) (\<lambda>j.
     forM (\<lambda>i. seqM (proc_reset_restarts jid i)
       (bindM (get_proc jid i) (\<lambda>p.
          whenM (p_state p = P_STOPPED \<or> p_state p = P_EXITED \<or> p_state p = P_BACKOFF)
            (job_proc_start jid i))))
       [0..<length (j_processes j)])"

definition job_start :: "nat \<Rightarrow> ('n, unit) dprog" where
  "job_start jid = bindM (get_job jid) (\<lambda>j.
     seqM (logM LT_Debug (''Start called called for process'' @ to_string (job_state_number (j_state j))))
    (seqM (case j_state j of
         J_STOPPING \<Rightarrow> job_restart_processes jid
       | J_STOPPED \<Rightarrow> job_restart_processes jid
       | J_EMPTY \<Rightarrow> job_start_processes jid
       | _ \<Rightarrow> returnM ())
    (set_job_state jid J_STARTING)))"

section \<open>What a process tells its job\<close>

definition all_processes_in_states :: "process_state list \<Rightarrow> job \<Rightarrow> bool" where
  "all_processes_in_states states j = list_all (\<lambda>p. p_state p \<in> set states) (j_processes j)"

text \<open>\<open>_manager.onStop(name)\<close>, where \<open>_jobs.at\<close> throws for an unknown name.\<close>

definition manager_on_stop :: "string \<Rightarrow> ('n, unit) dprog" where
  "manager_on_stop job_name = bindM (getsM m_jobs) (\<lambda>jobs. bindM (getsM m_config) (\<lambda>configs.
     case um_find job_name jobs of
       None \<Rightarrow> throwM (StdExn ''unordered_map::at'')
     | Some jid \<Rightarrow> bindM (get_job jid) (\<lambda>j. case um_find job_name configs of
           None \<Rightarrow> set_job_state jid J_REMOVE
         | Some config \<Rightarrow>
             if \<not> config_eq config (j_config j) then set_job_state jid J_REPLACE else returnM ())))"

definition job_on_stop :: "nat \<Rightarrow> nat \<Rightarrow> ('n, unit) dprog" where
  "job_on_stop jid i = bindM (get_job jid) (\<lambda>j. case j_state j of
       J_STARTING \<Rightarrow> job_proc_start jid i
     | J_STOPPING \<Rightarrow>
         if \<not> all_processes_in_states [P_STOPPED] j then returnM ()
         else seqM (set_job_state jid J_STOPPED) (manager_on_stop (c_name (j_config j)))
     | _ \<Rightarrow> bindM (get_proc jid i) (\<lambda>p.
         logM LT_Debug (''Process stopped while job is in a weird state'' @ p_name p
           @ jobStateEnumToString (j_state j))))"

definition job_settle :: "nat \<Rightarrow> ('n, unit) dprog" where
  "job_settle jid = bindM (get_job jid) (\<lambda>j.
     whenM (all_processes_in_states [P_EXITED, P_BACKOFF, P_STOPPED] j) (set_job_state jid J_STOPPED))"

definition job_on_exit :: "nat \<Rightarrow> nat \<Rightarrow> int \<Rightarrow> ('n, unit) dprog" where
  "job_on_exit jid i status_code = bindM (get_job jid) (\<lambda>j. bindM (get_proc jid i) (\<lambda>p.
     let config = j_config j; expected = status_code \<in> set (c_exit_codes config);
         again = seqM (set_job_state jid J_STARTING) (job_proc_start jid i)
     in if p_restarts p = c_start_retries config
        then seqM (logM LT_Warning (''Process stopped max retries reached '' @ p_name p)) (job_settle jid)
        else seqM (whenM (\<not> expected)
                 (logM LT_Warning (''Process had an unexpected exit! code: '' @ to_string status_code)))
             (case c_restart_policy config of
                NEVER \<Rightarrow> job_settle jid
              | ALWAYS \<Rightarrow> seqM (proc_add_restart jid i) again
              | ON_FAILURE \<Rightarrow> seqM (proc_add_restart jid i) (if expected then job_settle jid else again))))"

definition job_on_process_surpassed_start_time :: "nat \<Rightarrow> ('n, unit) dprog" where
  "job_on_process_surpassed_start_time jid = bindM (get_job jid) (\<lambda>j.
     whenM (all_processes_in_states [P_RUNNING] j) (set_job_state jid J_RUNNING))"

section \<open>The processes' handlers\<close>

definition set_proc_state :: "nat \<Rightarrow> nat \<Rightarrow> process_state \<Rightarrow> ('n, unit) dprog" where
  "set_proc_state jid i st = mod_proc jid i (\<lambda>p. p\<lparr>p_state := st\<rparr>)"

text \<open>\<open>it->first\<close> of the entry of \<open>sig_map\<close> whose value is the signal.\<close>

definition signal_key :: "signals \<Rightarrow> string option" where
  "signal_key sig = map_option fst (find (\<lambda>e. snd e = sig) signal_names)"

definition process_stop :: "nat \<Rightarrow> nat \<Rightarrow> int \<Rightarrow> signals \<Rightarrow> ('n, unit) dprog" where
  "process_stop jid i timeout stop_signal = bindM (get_proc jid i) (\<lambda>p.
     if p_state p = P_BACKOFF \<or> p_state p = P_EXITED
     then seqM (set_proc_state jid i P_STOPPED) (job_on_stop jid i)
     else bindM (pidfd_send_signal (p_fd p) (signal_number stop_signal) 0) (\<lambda>r.
       case signal_key stop_signal of
         None \<Rightarrow> throwM (Undefined ''end iterator'')
       | Some key \<Rightarrow>
           if r = -1 then throwM (StdExn (''Failed to send '' @ key @ '' to process: '' @ p_name p))
           else seqM (logM LT_Info (''Sent '' @ key @ '' to process: '' @ p_name p))
               (seqM (set_proc_state jid i P_STOPPING)
               (seqM (proc_reset_timer jid i timeout (TcStopTime jid i))
                  (proc_start_timer jid i)))))"

definition process_on_exit :: "nat \<Rightarrow> nat \<Rightarrow> 32 word \<Rightarrow> ('n, unit) dprog" where
  "process_on_exit jid i status = bindM (get_proc jid i) (\<lambda>p. case p_state p of
       P_STOPPING \<Rightarrow>
         seqM (logM LT_Info (''Process '' @ p_name p @ '' was stopped with status ''
                 @ to_string (WEXITSTATUS status)))
         (seqM (set_proc_state jid i P_STOPPED) (job_on_stop jid i))
     | P_STARTING \<Rightarrow>
         seqM (logM LT_Warning (''Process '' @ p_name p @ '' did not reach the start time! exit code: ''
                 @ to_string (WEXITSTATUS status)))
         (seqM (set_proc_state jid i P_BACKOFF) (job_on_exit jid i (WEXITSTATUS status)))
     | P_RUNNING \<Rightarrow>
         seqM (logM LT_Info (''Process '' @ p_name p @ '' exited with status ''
                 @ to_string (WEXITSTATUS status)))
         (seqM (set_proc_state jid i P_EXITED) (job_on_exit jid i (WEXITSTATUS status)))
     | st \<Rightarrow> logM LT_Error (''Process '' @ p_name p @ '' stopped in a weird state ''
                 @ to_string (process_state_number st)))"

definition process_on_forced_exit :: "nat \<Rightarrow> nat \<Rightarrow> 32 word \<Rightarrow> ('n, unit) dprog" where
  "process_on_forced_exit jid i status = bindM (get_proc jid i) (\<lambda>p.
     seqM (logM LT_Debug (''Process '' @ p_name p @ '' terminated by signal ''
             @ to_string (uint (WTERMSIG status))))
    (seqM (set_proc_state jid i P_STOPPED) (job_on_stop jid i)))"

definition process_on_start_time :: "nat \<Rightarrow> nat \<Rightarrow> ('n, unit) dprog" where
  "process_on_start_time jid i = bindM (get_proc jid i) (\<lambda>p.
     seqM (logM LT_Info (''Process: '' @ p_name p @ '' successfully surpasses the start time''))
    (seqM (set_proc_state jid i P_RUNNING) (job_on_process_surpassed_start_time jid)))"

definition process_on_state_change :: "nat \<Rightarrow> nat \<Rightarrow> ('n, unit) dprog" where
  "process_on_state_change jid i = bindM (get_proc jid i) (\<lambda>p.
     bindM (waitpid (p_pid p)) (\<lambda>(result, status).
     if result = -1
     then bindM errno_text (\<lambda>err.
            throwM (StdExn (''waitpid failed for process '' @ quoted (p_name p) @ '': '' @ err)))
     else seqM (proc_clear_timer jid i)
         (seqM (unregisterEvent (p_fd p))
         (if WIFEXITED status then process_on_exit jid i status
          else if WIFSIGNALED status then process_on_forced_exit jid i status
          else set_proc_state jid i P_UNKNOWN))))"

text \<open>The callback registered for a timer: \<open>Timer::onExpire\<close> on the object it was bound to.\<close>

fun timer_callback_run :: "timer_callback \<Rightarrow> ('n, unit) dprog" where
  "timer_callback_run (TcStartTime jid i) = process_on_start_time jid i"
| "timer_callback_run (TcStopTime jid i) = process_on_stop_time jid i"

definition timer_expired :: "nat \<Rightarrow> nat \<Rightarrow> nat \<Rightarrow> ('n, unit) dprog" where
  "timer_expired jid i tid = bindM (get_proc jid i) (\<lambda>p. case p_timer p of
       None \<Rightarrow> throwM (Undefined ''timer destroyed'')
     | Some t \<Rightarrow>
         if t_id t \<noteq> tid then throwM (Undefined ''timer destroyed'')
         else timer_on_expire (\<lambda>u. mod_proc jid i (\<lambda>p. p\<lparr>p_timer := Some u\<rparr>)) timer_callback_run t)"

section \<open>Stopping\<close>

definition job_stop :: "nat \<Rightarrow> ('n, unit) dprog" where
  "job_stop jid = bindM (get_job jid) (\<lambda>j. case j_state j of
       J_STOPPING \<Rightarrow> returnM ()
     | J_EMPTY \<Rightarrow> manager_on_stop (c_name (j_config j))
     | J_STOPPED \<Rightarrow> manager_on_stop (c_name (j_config j))
     | _ \<Rightarrow> seqM (set_job_state jid J_STOPPING)
         (forM (\<lambda>i. process_stop jid i (c_stop_time (j_config j)) (c_stop_signal (j_config j)))
            [0..<length (j_processes j)]))"

end
