(* ===== verification/Job_Display.thy ===== *)
theory Job_Display
  imports Job
begin

text \<open>
  The table printed for a job, the static functions and \<open>operator<<\<close> of
  \<^verbatim>\<open>taskmasterd/src/jobs/Job.cpp\<close>. Text is a list of bytes: the box-drawing characters are their
  UTF-8 encodings.
\<close>

fun processStateEnumToString :: "process_state \<Rightarrow> string" where
  "processStateEnumToString P_BACKOFF = ''BACKOFF''"
| "processStateEnumToString P_EXITED = ''EXITED''"
| "processStateEnumToString P_FATAL = ''FATAL''"
| "processStateEnumToString P_RUNNING = ''RUNNING''"
| "processStateEnumToString P_STARTING = ''STARTING''"
| "processStateEnumToString P_STOPPED = ''STOPPED''"
| "processStateEnumToString P_STOPPING = ''STOPPING''"
| "processStateEnumToString _ = ''UNKNOWN''"

definition spaces :: "nat \<Rightarrow> string" where
  "spaces n = replicate n (CHR '' '')"

definition formatColumn :: "string \<Rightarrow> bool \<Rightarrow> nat \<Rightarrow> nat \<Rightarrow> string" where
  "formatColumn name should_concatenate left_width right_width =
     (let shown = (if should_concatenate then take 18 name @ ''..'' else name)
      in spaces left_width @ shown @ spaces right_width @ ''|'')"

text \<open>
  \<open>max_size - name.size()\<close> is computed in \<open>size_t\<close>: for a name of more than \<open>max_size\<close> characters
  it wraps to nearly \<open>2^64\<close>, and the conversion of the float to \<open>u32\<close> is undefined (\<open>None\<close>). Below
  that the floats are exact.
\<close>

definition max_size :: nat where "max_size = 20"

definition setFillerWidth :: "string \<Rightarrow> (nat \<times> nat) option" where
  "setFillerWidth name =
     (if length name > max_size then None
      else Some (max 1 ((max_size - length name) div 2 + 1),
                 max 1 ((max_size - length name + 1) div 2 + 1)))"

definition print_cell :: "string \<Rightarrow> exn + string" where
  "print_cell text = (case setFillerWidth text of
       None \<Rightarrow> Inl (Undefined ''float to u32 conversion out of range'')
     | Some (left_width, right_width) \<Rightarrow>
         Inr (formatColumn text (length text > max_size) left_width right_width))"

definition box :: "nat \<Rightarrow> string" where
  "box b = [CHR 0xE2, CHR 0x94, char_of b]"

definition newline :: string where "newline = [CHR 0x0A]"

definition table_line :: "nat \<Rightarrow> nat \<Rightarrow> nat \<Rightarrow> string" where
  "table_line l m r =
     (let dashes = concat (replicate 22 (box 0x80))
      in box l @ dashes @ box m @ dashes @ box m @ dashes @ box m @ dashes @ box r @ newline)"

definition empty_cells :: string where
  "empty_cells = spaces 22 @ ''|'' @ spaces 22 @ ''|''"

definition table_header :: string where
  "table_header =
     table_line 0x8C 0xAC 0x90
     @ box 0x82 @ ''       Job Name:      '' @ box 0x82 @ ''     Job Status:      '' @ box 0x82
     @ ''    Proccess Name:    '' @ box 0x82 @ ''   Process Status:    '' @ box 0x82 @ newline
     @ table_line 0x9C 0xBC 0xA4"

fun print_processes :: "process list \<Rightarrow> exn + string" where
  "print_processes [] = Inr []"
| "print_processes (p # ps) =
     bindE (print_cell (p_name p)) (\<lambda>name.
     bindE (print_cell (processStateEnumToString (p_state p))) (\<lambda>state.
     bindE (print_processes ps) (\<lambda>rest.
       Inr (''|'' @ empty_cells @ name @ state @ newline @ rest))))"

definition print_job :: "job \<Rightarrow> exn + string" where
  "print_job j =
     bindE (print_cell (c_name (j_config j))) (\<lambda>name.
     bindE (print_cell (jobStateEnumToString (j_state j))) (\<lambda>state.
     bindE (print_processes (j_processes j)) (\<lambda>rows.
       Inr (table_header @ ''|'' @ name @ state @ empty_cells @ newline @ table_line 0x9C 0xBC 0xA4
         @ rows @ table_line 0x94 0xB4 0x98))))"

end
