(* ===== verification/Job_Manager.thy ===== *)
theory Job_Manager
  imports Job_Display
begin

text \<open>
  The job manager, \<^verbatim>\<open>taskmasterd/src/jobs/JobManager.cpp\<close>: the map of jobs, the configuration in
  force, the operations behind the commands, and the destructor's wait for the jobs to stop.
\<close>

definition liftE :: "exn + 'a \<Rightarrow> ('s, 'a) prog" where
  "liftE r = (case r of Inl e \<Rightarrow> throwM e | Inr x \<Rightarrow> returnM x)"

lemma liftE_run [run_simps]: "liftE r s = (r, s)"
  by (cases r) (simp_all add: liftE_def run_simps)

definition log_all :: "messages \<Rightarrow> ('n, unit) dprog" where
  "log_all = forM (\<lambda>(t, msg). logM t msg)"

definition log_sinks :: "logger \<Rightarrow> messages \<Rightarrow> sinks \<Rightarrow> sinks" where
  "log_sinks lg ms k = fold (\<lambda>(t, msg). log_message lg msg t) ms k"

lemma log_all_run [run_simps]: "log_all ms s = (Inr (), s\<lparr>w_sinks := log_sinks (w_logger s) ms (w_sinks s)\<rparr>)"
  by (induction ms arbitrary: s) (auto simp: log_all_def log_sinks_def run_simps)

text \<open>
  \<open>JobConfig::getJobConfigs(_config_path)\<close>: the file is read anew each time, and what the loader logs
  is logged.
\<close>

definition load_configs :: "('n, (string, jobconfig) umap) dprog" where
  "load_configs = bindM (getsM d_loads) (\<lambda>n.
     seqM (modifyM (\<lambda>s. s\<lparr>d_loads := Suc n\<rparr>))
    (seqM (bindM (getsM (\<lambda>s. getJobConfigs_log (d_config_env s n) (d_load s n))) log_all)
       (bindM (getsM (\<lambda>s. getJobConfigs (d_config_env s n) (d_load s n))) liftE)))"

definition set_jobs :: "(string, nat) umap \<Rightarrow> ('n, unit) dprog" where
  "set_jobs jobs = modifyM (\<lambda>s. s\<lparr>m_jobs := jobs\<rparr>)"

text \<open>
  \<open>_jobs.emplace(piecewise_construct, ...)\<close>: the job is built first; when its name is taken, it
  is destroyed again and the result is false.
\<close>

definition emplace_job :: "string \<Rightarrow> jobconfig \<Rightarrow> ('n, bool \<times> nat) dprog" where
  "emplace_job name config = bindM (job_alloc config) (\<lambda>jid.
     bindM (getsM m_jobs) (\<lambda>jobs. case um_find name jobs of
         Some old \<Rightarrow> seqM (noexceptM (job_destroy jid)) (returnM (False, old))
       | None \<Rightarrow> seqM (set_jobs (um_emplace name jid jobs)) (returnM (True, jid))))"

definition manager_new :: "('n, unit) dprog" where
  "manager_new = bindM load_configs (\<lambda>configs.
     seqM (modifyM (\<lambda>s. s\<lparr>m_config := configs\<rparr>))
       (forM (\<lambda>(name, config). seqM (emplace_job name config) (returnM ())) configs))"

definition manager_start_all :: "('n, unit) dprog" where
  "manager_start_all = bindM (getsM m_jobs) (\<lambda>jobs.
     forM (\<lambda>(name, jid). bindM (get_job jid) (\<lambda>j.
         whenM (c_autostart (j_config j))
           (seqM (job_start jid) (logM LT_Info (''Starting job: '' @ name))))) jobs)"

text \<open>\<open>_config.at(name)\<close>.\<close>

definition config_at :: "string \<Rightarrow> ('n, jobconfig) dprog" where
  "config_at name = bindM (getsM m_config) (\<lambda>configs. case um_find name configs of
       None \<Rightarrow> throwM (StdExn ''unordered_map::at'') | Some c \<Rightarrow> returnM c)"

definition createJob :: "string \<Rightarrow> ('n, unit) dprog" where
  "createJob job_name = bindM (config_at job_name) (\<lambda>config.
     bindM (emplace_job job_name config) (\<lambda>(created, jid).
     if \<not> created then throwM (StdExn (''new Job :'' @ job_name @ '' Couldn't be created''))
     else bindM (config_at job_name) (\<lambda>config. whenM (c_autostart config) (job_start jid))))"

definition findJob :: "string \<Rightarrow> ('n, nat) dprog" where
  "findJob job_name = bindM (getsM m_jobs) (\<lambda>jobs. case um_find job_name jobs of
       None \<Rightarrow> throwM (StdExn (''JobManager: Cannot find job: '' @ job_name))
     | Some jid \<Rightarrow> returnM jid)"

section \<open>Commands\<close>

definition respond :: "command_status \<Rightarrow> string \<Rightarrow> ('n, response) dprog" where
  "respond st msg = returnM \<lparr>res_status = st, res_message = msg\<rparr>"

text \<open>The two nested \<open>try\<close> blocks of \<open>start\<close>, \<open>stop\<close> and \<open>restart\<close>.\<close>

definition job_command ::
  "string \<Rightarrow> (nat \<Rightarrow> ('n, unit) dprog) \<Rightarrow> string \<Rightarrow> ('n, response) dprog" where
  "job_command job_name act phase =
     tryM (bindM (findJob job_name) (\<lambda>jid.
         tryM (seqM (act jid)
             (respond OK (''Successfully put job '' @ job_name @ '' in '' @ phase @ '' state.'')))
           (\<lambda>w. respond ERROR (''Internal daemon error: '' @ w))))
       (\<lambda>w. respond ARGUMENT_ERROR (''Invalid argument: '' @ quoted job_name @ '' cannot find job''))"

definition manager_start :: "string \<Rightarrow> ('n, response) dprog" where
  "manager_start job_name = job_command job_name job_start ''starting''"

definition manager_stop :: "string \<Rightarrow> ('n, response) dprog" where
  "manager_stop job_name = job_command job_name job_stop ''stopping''"

definition manager_restart :: "string \<Rightarrow> ('n, response) dprog" where
  "manager_restart job_name =
     job_command job_name (\<lambda>jid. seqM (job_stop jid) (job_start jid)) ''restarting''"

fun print_jobs :: "job list \<Rightarrow> exn + string" where
  "print_jobs [] = Inr []"
| "print_jobs (j # js) = bindE (print_job j) (\<lambda>text. bindE (print_jobs js) (\<lambda>rest.
     Inr (text @ newline @ rest)))"

fun get_jobs :: "(string \<times> nat) list \<Rightarrow> ('n, job list) dprog" where
  "get_jobs [] = returnM []"
| "get_jobs ((name, jid) # es) = bindM (get_job jid) (\<lambda>j. bindM (get_jobs es) (\<lambda>js. returnM (j # js)))"

definition manager_status_all :: "('n, response) dprog" where
  "manager_status_all = bindM (getsM m_jobs) (\<lambda>jobs. bindM (get_jobs jobs) (\<lambda>js.
     bindM (liftE (print_jobs js)) (\<lambda>msg. respond OK msg)))"

definition manager_status :: "string \<Rightarrow> ('n, response) dprog" where
  "manager_status job_name =
     tryM (bindM (findJob job_name) (\<lambda>jid. bindM (get_job jid) (\<lambda>j.
         bindM (liftE (print_job j)) (\<lambda>msg. respond OK msg))))
       (\<lambda>w. respond ARGUMENT_ERROR (''Invalid argument: '' @ quoted job_name @ '' cannot find job''))"

section \<open>Reloading and stopping\<close>

text \<open>
  One visit of \<open>update\<close>'s loop. The loop walks the map while it erases the visited entry and puts
  a job of the same name back, which cannot rehash; a job it puts back is neither \<open>REMOVE\<close> nor
  \<open>REPLACE\<close>, so it does not matter whether the walk meets it.
\<close>

definition erase_job :: "string \<Rightarrow> nat \<Rightarrow> ('n, unit) dprog" where
  "erase_job name jid = seqM (modifyM (\<lambda>s. s\<lparr>m_jobs := um_erase name (m_jobs s)\<rparr>))
     (noexceptM (job_destroy jid))"

definition update_job :: "string \<Rightarrow> nat \<Rightarrow> ('n, unit) dprog" where
  "update_job name jid = bindM (get_job jid) (\<lambda>j.
     if j_state j = J_REMOVE then erase_job name jid
     else if j_state j = J_REPLACE then seqM (erase_job name jid) (createJob name)
     else returnM ())"

definition manager_update :: "('n, unit) dprog" where
  "manager_update = bindM (getsM m_jobs) (\<lambda>jobs. forM (\<lambda>(name, jid). update_job name jid) jobs)"

definition stop_changed :: "('n, unit) dprog" where
  "stop_changed = bindM (getsM m_jobs) (\<lambda>jobs. bindM (getsM m_config) (\<lambda>configs.
     forM (\<lambda>(name, jid). bindM (get_job jid) (\<lambda>j.
         whenM (case um_find name configs of None \<Rightarrow> True | Some c \<Rightarrow> \<not> config_eq c (j_config j))
           (job_stop jid))) jobs))"

definition create_missing :: "('n, unit) dprog" where
  "create_missing = bindM (getsM m_config) (\<lambda>configs.
     forM (\<lambda>(name, config). bindM (getsM m_jobs) (\<lambda>jobs.
         whenM (um_find name jobs = None) (createJob name))) configs)"

definition manager_reload :: "('n, response) dprog" where
  "manager_reload =
     bindM (tryM (bindM load_configs (\<lambda>configs.
              seqM (modifyM (\<lambda>s. s\<lparr>m_config := configs\<rparr>)) (returnM None)))
            (\<lambda>w. returnM (Some w))) (\<lambda>failed. case failed of
       Some w \<Rightarrow> respond ERROR (''Failed to reload new config: fallback to old config! Issue: '' @ w)
     | None \<Rightarrow>
         seqM stop_changed
        (seqM create_missing
        (seqM manager_update
        (seqM manager_start_all
        (respond OK ''Successfully started a reload of the config file'')))))"

definition manager_kill :: "('n, unit) dprog" where
  "manager_kill = bindM (getsM m_jobs) (\<lambda>jobs. forM (\<lambda>(name, jid). job_stop jid) jobs)"

end
