(* ===== verification/Ipc_Socket.thy ===== *)
theory Ipc_Socket
  imports Timer
begin

text \<open>
  \<^verbatim>\<open>libs/ipc\<close>: socket addresses (\<^verbatim>\<open>Address.cpp\<close>), sockets (\<^verbatim>\<open>Socket.cpp\<close>) and the ownership of
  descriptors (\<^verbatim>\<open>FileDescriptor.cpp\<close>).
\<close>

section \<open>Addresses\<close>

datatype address_type = IPv4 | IPv6 | UNIX | AddressOther int

text \<open>
  \<open>a_bytes\<close> is the part of the \<open>sockaddr_storage\<close> the constructor writes: the family is
  \<open>a_type\<close>, then for \<open>UNIX\<close> the 108 bytes of \<open>sun_path\<close>, for the internet families the address
  \<open>inet_pton\<close> stored, the port beside it.
\<close>

record address =
  a_type :: address_type
  a_text :: string
  a_bytes :: "8 word list"
  a_port :: "16 word"
  a_len :: int

definition SUN_PATH_SIZE :: nat where "SUN_PATH_SIZE = 108"

definition byte_of_char :: "char \<Rightarrow> 8 word" where
  "byte_of_char c = of_nat (of_char c)"

text \<open>\<open>inet_pton v4 text\<close> stands for \<open>inet_pton\<close>: \<open>None\<close> when its result is not 1.\<close>

fun address_new ::
  "(bool \<Rightarrow> string \<Rightarrow> 8 word list option) \<Rightarrow> address_type \<Rightarrow> string \<Rightarrow> 16 word \<Rightarrow> exn + address" where
  "address_new inet_pton IPv4 text port = (case inet_pton True text of
       None \<Rightarrow> Inl (StdExn (''Invalid IPv4 address: '' @ text))
     | Some bs \<Rightarrow> Inr \<lparr>a_type = IPv4, a_text = text, a_bytes = bs, a_port = port, a_len = 16\<rparr>)"
| "address_new inet_pton IPv6 text port = (case inet_pton False text of
       None \<Rightarrow> Inl (StdExn (''Invalid IPv6 address: '' @ text))
     | Some bs \<Rightarrow> Inr \<lparr>a_type = IPv6, a_text = text, a_bytes = bs, a_port = port, a_len = 28\<rparr>)"
| "address_new inet_pton UNIX text port =
     (if length text \<ge> SUN_PATH_SIZE then Inl (StdExn (''UNIX socket path too long: '' @ text))
      else Inr \<lparr>a_type = UNIX, a_text = text,
        a_bytes = map byte_of_char text @ replicate (SUN_PATH_SIZE - length text) 0,
        a_port = 0, a_len = 2 + int (length text) + 1\<rparr>)"
| "address_new inet_pton (AddressOther n) text port = Inl (StdExn ''Invalid address type'')"

text \<open>The static functions, and what is handed to the kernel; the families' numbers are Linux's.\<close>

definition Address_IPv4 :: "(bool \<Rightarrow> string \<Rightarrow> 8 word list option) \<Rightarrow> string \<Rightarrow> 16 word \<Rightarrow> exn + address" where
  "Address_IPv4 inet_pton ip port = address_new inet_pton IPv4 ip port"

definition Address_IPv6 :: "(bool \<Rightarrow> string \<Rightarrow> 8 word list option) \<Rightarrow> string \<Rightarrow> 16 word \<Rightarrow> exn + address" where
  "Address_IPv6 inet_pton ip port = address_new inet_pton IPv6 ip port"

definition Address_UNIX :: "(bool \<Rightarrow> string \<Rightarrow> 8 word list option) \<Rightarrow> string \<Rightarrow> exn + address" where
  "Address_UNIX inet_pton path = address_new inet_pton UNIX path 0"

fun address_family :: "address_type \<Rightarrow> int" where
  "address_family IPv4 = 2"
| "address_family IPv6 = 10"
| "address_family UNIX = 1"
| "address_family (AddressOther n) = n"

definition getSockAddr :: "address \<Rightarrow> sockaddr" where
  "getSockAddr a = (address_family (a_type a), a_port a, a_bytes a)"

text \<open>What the kernel reads of a \<open>sockaddr_un\<close> of a given length: a C string.\<close>

definition unix_path :: "address \<Rightarrow> 8 word list" where
  "unix_path a = takeWhile (\<lambda>b. b \<noteq> 0) (take (nat (a_len a - 2)) (a_bytes a))"

section \<open>Sockets\<close>

datatype socket_type = TCP | UDP | UNIX_SOCKET | SocketOther int

record socket =
  so_type :: socket_type
  so_fd :: int

text \<open>The numbers of \<open>AF_UNIX\<close>, \<open>AF_INET\<close>, \<open>SOCK_STREAM\<close> and \<open>SOCK_DGRAM\<close> are Linux's.\<close>

fun socket_params :: "socket_type \<Rightarrow> (int \<times> int) option" where
  "socket_params TCP = Some (2, 1)"
| "socket_params UDP = Some (2, 2)"
| "socket_params UNIX_SOCKET = Some (1, 1)"
| "socket_params (SocketOther n) = None"

definition socket_new :: "socket_type \<Rightarrow> ('z world_scheme, socket) prog" where
  "socket_new type = (case socket_params type of
       None \<Rightarrow> throwM (StdExn ''Invalid socket type'')
     | Some (domain, kind) \<Rightarrow> bindM (sys (SysSocket domain kind)) (\<lambda>fd.
         if fd = -1
         then bindM errno_text (\<lambda>err. throwM (StdExn (''Failed to create socket: '' @ err)))
         else returnM \<lparr>so_type = type, so_fd = fd\<rparr>))"

definition socket_bind :: "socket \<Rightarrow> address \<Rightarrow> ('z world_scheme, unit) prog" where
  "socket_bind s address =
     bindM (sys (SysReuseAddr (so_fd s))) (\<lambda>r.
     if r \<noteq> 0
     then bindM errno_text (\<lambda>err. throwM (StdExn (''Failed to set SO_REUSEADDR option: '' @ err)))
     else
       seqM (whenM (so_type s = UNIX_SOCKET) (seqM (sys (SysUnlink (a_text address))) (returnM ())))
      (bindM (sys (SysBind (so_fd s) (getSockAddr address) (a_len address))) (\<lambda>r.
       if r = -1
       then bindM errno_text (\<lambda>err. throwM (StdExn (''Failed to bind socket: '' @ err)))
       else returnM ())))"

definition socket_listen :: "socket \<Rightarrow> int \<Rightarrow> ('z world_scheme, unit) prog" where
  "socket_listen s backlog =
     bindM (sys (SysListen (so_fd s) backlog)) (\<lambda>r.
     if r = -1
     then bindM errno_text (\<lambda>err. throwM (StdExn (''Failed to listen on socket: '' @ err)))
     else returnM ())"

definition socket_connect :: "socket \<Rightarrow> address \<Rightarrow> ('z world_scheme, unit) prog" where
  "socket_connect s address =
     bindM (sys (SysConnect (so_fd s) (getSockAddr address) (a_len address))) (\<lambda>r.
     if r = -1 then throwM (StdExn ''Failed to connect to the server'') else returnM ())"

definition socket_accept :: "int \<Rightarrow> ('z world_scheme, int) prog" where
  "socket_accept listening =
     bindM (sys (SysAccept listening)) (\<lambda>fd.
     if fd = -1
     then bindM errno_text (\<lambda>err. throwM (StdExn (''Failed to accept connection: '' @ err)))
     else returnM fd)"

section \<open>Ownership of descriptors\<close>












section \<open>Correctness\<close>

lemma byte_zero: "byte_of_char c = 0 \<longleftrightarrow> c = CHR 0x00"
proof -
  have "unat (of_nat (of_char c) :: 8 word) = of_char c" 
    using nat_of_char_less_256[of c] by (simp add: unat_of_nat take_bit_nat_eq_self)
  moreover have "of_char c = (0::nat) \<longleftrightarrow> of_char c = (of_char (CHR 0x00) :: nat)" 
    by simp
  ultimately show ?thesis unfolding byte_of_char_def by (metis of_char_eq_iff unat_eq_zero)
qed

lemma path_read: "takeWhile (\<lambda>b. b \<noteq> 0) (map byte_of_char text @ 0 # ys) = map byte_of_char text \<longleftrightarrow> CHR 0x00 \<notin> set text"
proof
  assume l: "takeWhile (\<lambda>b. b \<noteq> 0) (map byte_of_char text @ 0 # ys) = map byte_of_char text"
  then have "\<forall>b \<in> set (map byte_of_char text). b \<noteq> 0" by (metis set_takeWhileD)
  then show "CHR 0x00 \<notin> set text" by (auto simp: byte_zero)
next
  assume "CHR 0x00 \<notin> set text"
  then have "\<forall>b \<in> set (map byte_of_char text). b \<noteq> 0" by (auto simp: byte_zero)
  then show "takeWhile (\<lambda>b. b \<noteq> 0) (map byte_of_char text @ 0 # ys) = map byte_of_char text" by (subst takeWhile_append2) auto
qed
text \<open>
  C40. A UNIX address is accepted exactly when the path leaves room for the terminating zero; then
  the structure holds the path and nothing but zeros after it, the length handed to the kernel
  stays inside the structure, and for a path without zero bytes the kernel reads back the path.
\<close>

theorem unix_address_roundtrip:
  "case address_new inet_pton UNIX text port of
     Inl e \<Rightarrow> length text \<ge> SUN_PATH_SIZE
   | Inr a \<Rightarrow> length text < SUN_PATH_SIZE \<and> a_len a \<le> 2 + int SUN_PATH_SIZE \<and>
       length (a_bytes a) = SUN_PATH_SIZE \<and> drop (length text) (a_bytes a) = replicate (SUN_PATH_SIZE - length text) 0 \<and>
       (unix_path a = map byte_of_char text \<longleftrightarrow> CHR 0x00 \<notin> set text)"
proof (cases "length text \<ge> SUN_PATH_SIZE")
  case False
  then obtain n where n: "SUN_PATH_SIZE - length text = Suc n" by (cases "SUN_PATH_SIZE - length text") auto
  have "take (length text + 1) (map byte_of_char text @ 0 # replicate n 0) = map byte_of_char text @ 0 # []" by simp
  with False n show ?thesis by (simp add: unix_path_def path_read nat_add_distrib)
qed simp









end
