(* ===== verification/Server.thy ===== *)
theory Server
  imports Job_Manager Ipc_Socket
begin

text \<open>
  The daemon's side of the socket: \<^verbatim>\<open>taskmasterd/src/ipc/Server.cpp\<close> and
  \<^verbatim>\<open>taskmasterd/src/ipc/Client.cpp\<close>. A client is named by its identity \<open>cid\<close>.
\<close>

section \<open>The server's commands\<close>

definition PROVIDE_JOB :: string where "PROVIDE_JOB = ''Please provide a job to ''"

definition PROVIDE_SINGLE_JOB :: string where "PROVIDE_SINGLE_JOB = ''Please provide one job to ''"

definition PROVIDE_STATUS :: string where
  "PROVIDE_STATUS = ''Please provide one job to get the status from at a time.'' @ newline
     @ ''If you wish to see all jobs, request '' @ quoted ''status'' @ '' with no arguments.''"

definition PROVIDED_WHILST_TERMINATE :: string where
  "PROVIDED_WHILST_TERMINATE = ''You have given arguments for the '' @ quoted ''terminate''
     @ '' command, did you mean to '' @ quoted ''stop'' @ ''?''"

definition PROVIDED_WHILST_RELOAD :: string where
  "PROVIDED_WHILST_RELOAD = ''You have given arguments for the '' @ quoted ''reload'' @ '' command''
     @ newline @ ''This command does not take a file path but instead reloads the default config ''
     @ ''file. Please run the '' @ quoted ''reload'' @ '' command without arguments.''"

fun commandTypeEnumToString :: "command_type \<Rightarrow> string" where
  "commandTypeEnumToString START = ''start''"
| "commandTypeEnumToString STOP = ''stop''"
| "commandTypeEnumToString RESTART = ''restart''"
| "commandTypeEnumToString STATUS = ''status''"
| "commandTypeEnumToString RELOAD = ''reload''"
| "commandTypeEnumToString TERMINATE = ''terminate''"
| "commandTypeEnumToString _ = ''invalid''"

definition parseCommand :: "command \<Rightarrow> ('z world_scheme, response option) prog" where
  "parseCommand cmd =
     (let type = cmd_type cmd; cmd_str = commandTypeEnumToString type; arg_size = length (cmd_args cmd);
          refuse = (\<lambda>st msg. returnM (Some \<lparr>res_status = st, res_message = msg\<rparr>))
      in if type = START \<or> type = STOP \<or> type = RESTART then
           (if arg_size = 0 then refuse ARGUMENT_ERROR (PROVIDE_JOB @ cmd_str @ ''.'')
            else if arg_size > 1
            then refuse TOO_MANY_ARGUMENTS (PROVIDE_SINGLE_JOB @ cmd_str @ '' at a time.'')
            else returnM None)
         else if type = STATUS then
           (if arg_size \<noteq> 0 \<and> arg_size \<noteq> 1 then refuse TOO_MANY_ARGUMENTS PROVIDE_STATUS
            else returnM None)
         else if type = TERMINATE \<or> type = RELOAD then
           (if arg_size \<ge> 1
            then refuse TOO_MANY_ARGUMENTS
              (if type = TERMINATE then PROVIDED_WHILST_TERMINATE else PROVIDED_WHILST_RELOAD)
            else returnM None)
         else
           (let err_msg = ''Command type '' @ to_string (command_type_number type) @ '' Not supported ''
            in seqM (logM LT_Warning err_msg) (refuse TYPE_ERROR err_msg)))"

text \<open>\<open>onCommand\<close> takes the command by reference and may change its type.\<close>

definition onCommand :: "command \<Rightarrow> ('n, response \<times> command) dprog" where
  "onCommand cmd = bindM (parseCommand cmd) (\<lambda>res. case res of
       Some response \<Rightarrow> returnM (response, cmd\<lparr>cmd_type := COMMAND_ERROR\<rparr>)
     | None \<Rightarrow> bindM (case cmd_type cmd of
           START \<Rightarrow> manager_start (cmd_args cmd ! 0)
         | STOP \<Rightarrow> manager_stop (cmd_args cmd ! 0)
         | RESTART \<Rightarrow> manager_restart (cmd_args cmd ! 0)
         | STATUS \<Rightarrow> (if cmd_args cmd \<noteq> [] then manager_status (cmd_args cmd ! 0) else manager_status_all)
         | RELOAD \<Rightarrow> manager_reload
         | TERMINATE \<Rightarrow> respond OK ''Successfully started the termination sequence''
         | _ \<Rightarrow> throwM (Undefined ''unreachable'')) (\<lambda>response. returnM (response, cmd)))"

section \<open>Clients\<close>

definition client_registers :: "nat \<Rightarrow> int \<Rightarrow> ('n, unit) dprog" where
  "client_registers cid fd = registerEvent fd (Some (CbClientRead cid)) None"

text \<open>The constructor takes over the socket; when it throws, the socket is closed again.\<close>

definition client_new :: "int \<Rightarrow> ('n, nat) dprog" where
  "client_new fd = bindM fresh_id (\<lambda>cid.
     seqM (unwindM (client_registers cid fd) (fd_destroy fd))
    (seqM (logM LT_Info (''New client connected with fd: '' @ to_string fd))
    (seqM (modifyM (\<lambda>s. s\<lparr>h_clients := (h_clients s)(cid \<mapsto>
             \<lparr>cl_fd = fd, cl_reader = reader_new, cl_writer = writer_new\<rparr>)\<rparr>))
    (returnM cid))))"

definition is_connected :: "client \<Rightarrow> bool" where
  "is_connected c \<longleftrightarrow> cl_fd c \<noteq> -1"

definition client_destroy :: "nat \<Rightarrow> ('n, unit) dprog" where
  "client_destroy cid = noexceptM (bindM (get_client cid) (\<lambda>c.
     seqM (whenM (is_connected c) (unregisterEvent (cl_fd c)))
    (seqM (fd_destroy (cl_fd c))
          (modifyM (\<lambda>s. s\<lparr>h_clients := (h_clients s)(cid := None)\<rparr>)))))"

text \<open>\<open>FileDescriptor::close\<close>.\<close>

definition client_close :: "nat \<Rightarrow> ('n, unit) dprog" where
  "client_close cid = bindM (get_client cid) (\<lambda>c.
     seqM (fd_destroy (cl_fd c)) (mod_client cid (\<lambda>c. c\<lparr>cl_fd := -1\<rparr>)))"

definition set_writer :: "nat \<Rightarrow> writer \<Rightarrow> ('n, unit) dprog" where
  "set_writer cid w = mod_client cid (\<lambda>c. c\<lparr>cl_writer := w\<rparr>)"

definition writer_init_response :: "nat \<Rightarrow> response \<Rightarrow> ('n, unit) dprog" where
  "writer_init_response cid response = bindM (get_client cid) (\<lambda>c.
     bindM (getsM d_serialize_response) (\<lambda>serialize.
     bindM (liftE (writer_init serialize response (cl_writer c))) (set_writer cid)))"

definition client_handle_message :: "nat \<Rightarrow> command \<Rightarrow> ('n, unit) dprog" where
  "client_handle_message cid command = bindM (get_client cid) (\<lambda>c.
     bindM (getsM d_debug_string) (\<lambda>debug.
     seqM (logM LT_Info (''Received command from client fd '' @ to_string (cl_fd c) @ '': ''
             @ debug command))
    (seqM (unregisterEvent (cl_fd c))
    (bindM (tryM (bindM (onCommand command) (\<lambda>(response, command').
               tryM (seqM (writer_init_response cid response) (returnM (None, command')))
                 (\<lambda>w. returnM (Some w, command'))))
              (\<lambda>w. returnM (Some w, command))) (\<lambda>(failed, command').
     seqM (case failed of
             None \<Rightarrow> returnM ()
           | Some w \<Rightarrow>
               seqM (mod_client cid (\<lambda>c. c\<lparr>cl_writer := writer_clear (cl_writer c)\<rparr>))
                 (writer_init_response cid
                    \<lparr>res_status = ERROR, res_message = ''Internal daemon error: '' @ w\<rparr>))
       (registerEvent (cl_fd c) None (Some (CbClientWrite cid command'))))))))"

definition client_drop :: "nat \<Rightarrow> int \<Rightarrow> ('n, unit) dprog" where
  "client_drop cid fd = seqM (unregisterEvent fd) (client_close cid)"

definition client_handle_read :: "nat \<Rightarrow> ('n, unit) dprog" where
  "client_handle_read cid = bindM (get_client cid) (\<lambda>c.
     tryM
      (bindM (getsM d_parse_command) (\<lambda>parse.
       bindM (reader_read parse (cl_fd c) (cl_reader c)) (\<lambda>(result, r').
       seqM (mod_client cid (\<lambda>c. c\<lparr>cl_reader := r'\<rparr>))
      (bindM (liftE result) (\<lambda>(bytes_read, message).
       if bytes_read = 0
       then seqM (logM LT_Info (''Client disconnected with fd: '' @ to_string (cl_fd c)))
              (client_drop cid (cl_fd c))
       else (case message of None \<Rightarrow> returnM () | Some command \<Rightarrow> client_handle_message cid command))))))
      (\<lambda>w. bindM (get_client cid) (\<lambda>c.
         seqM (logM LT_Error (''Error reading from client fd '' @ to_string (cl_fd c) @ '': '' @ w))
           (client_drop cid (cl_fd c)))))"

definition client_handle_write :: "nat \<Rightarrow> command \<Rightarrow> ('n, unit) dprog" where
  "client_handle_write cid command = bindM (get_client cid) (\<lambda>c.
     tryM
      (bindM (writer_write (cl_fd c) (cl_writer c)) (\<lambda>(doneWriting, w').
       seqM (set_writer cid w')
         (whenM doneWriting
           (seqM (unregisterEvent (cl_fd c))
           (seqM (client_registers cid (cl_fd c))
           (seqM (set_writer cid (writer_clear w'))
             (whenM (cmd_type command = TERMINATE) (modifyM (\<lambda>s. s\<lparr>g_state := G_TERMINATED\<rparr>)))))))))
      (\<lambda>w. bindM (get_client cid) (\<lambda>c.
         seqM (logM LT_Error (''Error writing to client fd: '' @ to_string (cl_fd c) @ '': '' @ w))
           (client_drop cid (cl_fd c)))))"

section \<open>Accepting\<close>

fun connected_of :: "nat list \<Rightarrow> ('n, (nat list \<times> nat list)) dprog" where
  "connected_of [] = returnM ([], [])"
| "connected_of (cid # cids) = bindM (get_client cid) (\<lambda>c.
     bindM (connected_of cids) (\<lambda>(keep, drop).
       returnM (if is_connected c then (cid # keep, drop) else (keep, cid # drop))))"

definition onAccept :: "('n, unit) dprog" where
  "onAccept = bindM (getsM s_fd) (\<lambda>listening.
     bindM (socket_accept listening) (\<lambda>fd.
     bindM (client_new fd) (\<lambda>cid.
     seqM (modifyM (\<lambda>s. s\<lparr>s_clients := s_clients s @ [cid]\<rparr>))
    (bindM (getsM s_clients) (\<lambda>cids.
     bindM (connected_of cids) (\<lambda>(keep, drop).
     seqM (modifyM (\<lambda>s. s\<lparr>s_clients := keep\<rparr>)) (forM client_destroy drop)))))))"

text \<open>The constructor, on a socket; the daemon passes no backlog, so it is 5. It is the first to ask for the
  event manager, which is made then.\<close>

definition server_new :: "socket_type \<Rightarrow> address \<Rightarrow> int \<Rightarrow> ('n, unit) dprog" where
  "server_new type address backlog = bindM (socket_new type) (\<lambda>so.
     unwindM
       (seqM (modifyM (\<lambda>s. s\<lparr>s_fd := so_fd so, s_clients := []\<rparr>))
       (seqM (socket_bind so address)
       (seqM (socket_listen so backlog)
       (seqM (bindM (getInstance None) (\<lambda>_. registerEvent (so_fd so) (Some CbAccept) None))
       (seqM (logM LT_Info (''Server listening on fd: '' @ to_string (so_fd so)))
             manager_start_all)))))
       (fd_destroy (so_fd so)))"

text \<open>The destructor, then those of the members: the vector with the clients it owns, the descriptor.\<close>

definition server_destroy :: "('n, unit) dprog" where
  "server_destroy = noexceptM (bindM (getsM s_fd) (\<lambda>fd.
     seqM (unregisterEvent fd)
    (bindM (getsM s_clients) (\<lambda>cids.
     seqM (modifyM (\<lambda>s. s\<lparr>s_clients := []\<rparr>))
    (seqM (forM client_destroy cids)
          (fd_destroy fd))))))"

end
