(* ===== verification/Daemon.thy ===== *)
theory Daemon
  imports Server
begin

text \<open>
  The daemon as a whole: the dispatch of callbacks, \<^verbatim>\<open>taskmasterd/src/main.cpp\<close> and the
  destructor of the job manager, as a machine that takes one action at a time. The actions are
  the results of \<open>epoll_wait\<close>, signals, which may arrive at any point of the main loop, and the
  program's own progress.
\<close>

fun dispatch :: "callback \<Rightarrow> ('n, unit) dprog" where
  "dispatch CbAccept = onAccept"
| "dispatch (CbClientRead cid) = client_handle_read cid"
| "dispatch (CbClientWrite cid command) = client_handle_write cid command"
| "dispatch (CbProcess jid i) = process_on_state_change jid i"
| "dispatch (CbTimer jid i tid) = timer_expired jid i tid"

section \<open>The machine\<close>

text \<open>
  Where \<open>main\<close> is: before the \<open>switch\<close>, inside \<open>epoll_wait\<close>, before \<open>update\<close>, after
  \<open>reload\<close> and before the assignment to \<open>g_state\<close>, leaving the \<open>try\<close> block (with the exception's
  text, if one is on its way), in the wait of \<open>~JobManager\<close> at the given entries, returned with an
  exit status, or ended by anything else.
\<close>

datatype pc =
    PcSwitch
  | PcPoll
  | PcUpdate
  | PcReloaded
  | PcLeave "string option"
  | PcDrain "string option" "(string \<times> nat) list"
  | PcReturned int
  | PcEnded exn

datatype action = AcStep | AcWait epoll_result | AcSignal int

text \<open>A part of the body of the \<open>try\<close> block: a \<open>std::exception\<close> leaves the block.\<close>

definition in_try :: "('n, 'a) dprog \<Rightarrow> pc \<Rightarrow> 'n daemon \<Rightarrow> pc \<times> 'n daemon" where
  "in_try m next s = (case m s of (r, s') \<Rightarrow>
     (case r of Inr _ \<Rightarrow> (next, s') | Inl (StdExn w) \<Rightarrow> (PcLeave (Some w), s') | Inl e \<Rightarrow> (PcEnded e, s')))"

definition in_destructor :: "('n, 'a) dprog \<Rightarrow> pc \<Rightarrow> 'n daemon \<Rightarrow> pc \<times> 'n daemon" where
  "in_destructor m next s = (case noexceptM m s of (r, s') \<Rightarrow>
     (case r of Inr _ \<Rightarrow> (next, s') | Inl e \<Rightarrow> (PcEnded e, s')))"

text \<open>The end of \<open>~JobManager\<close>: the members are destroyed, then the \<open>catch\<close> block or \<open>return 0\<close>.\<close>

definition manager_members_destroy :: "('n, unit) dprog" where
  "manager_members_destroy = bindM (getsM m_jobs) (\<lambda>jobs. forM (\<lambda>(name, jid). job_destroy jid) jobs)"

definition finish :: "string option \<Rightarrow> 'n daemon \<Rightarrow> pc \<times> 'n daemon" where
  "finish failed = in_destructor
     (seqM manager_members_destroy
        (case failed of None \<Rightarrow> returnM () | Some w \<Rightarrow> logM LT_Fatal (''Exception: '' @ w)))
     (PcReturned (if failed = None then 0 else 1))"

definition job_at_rest :: "nat \<Rightarrow> 'n daemon \<Rightarrow> bool" where
  "job_at_rest jid s = (case h_jobs s jid of
     None \<Rightarrow> False | Some j \<Rightarrow> j_state j = J_STOPPED \<or> j_state j = J_EMPTY)"

text \<open>The signals \<open>main\<close> installs the handler for.\<close>

definition handled_signals :: "int list" where
  "handled_signals = map signal_number [S_INT, S_QUIT, S_HUP]"

fun daemon_next :: "action \<Rightarrow> pc \<Rightarrow> 'n daemon \<Rightarrow> (pc \<times> 'n daemon) option" where
  "daemon_next AcStep PcSwitch s = (case g_state s of
       G_RUNNING \<Rightarrow> Some (PcPoll, s)
     | G_RELOAD \<Rightarrow> Some (in_try manager_reload PcReloaded s)
     | G_TERMINATED \<Rightarrow> Some (in_try (logM LT_Info ''Shutting down taskmasterd'') (PcLeave None) s))"
| "daemon_next (AcWait wait) PcPoll s = Some (in_try (handleEvents dispatch wait) PcUpdate s)"
| "daemon_next AcStep PcUpdate s = Some (in_try manager_update PcSwitch s)"
| "daemon_next AcStep PcReloaded s = Some (PcSwitch, s\<lparr>g_state := G_RUNNING\<rparr>)"
| "daemon_next AcStep (PcLeave failed) s =
     Some (in_destructor (seqM server_destroy manager_kill) (PcDrain failed (m_jobs s)) s)"
| "daemon_next AcStep (PcDrain failed []) s = Some (finish failed s)"
| "daemon_next AcStep (PcDrain failed ((name, jid) # es)) s =
     (if job_at_rest jid s then Some (PcDrain failed es, s) else None)"
| "daemon_next (AcWait wait) (PcDrain failed ((name, jid) # es)) s =
     (if job_at_rest jid s then None
      else Some (in_destructor (handleEvents dispatch wait) (PcDrain failed ((name, jid) # es)) s))"
| "daemon_next (AcSignal signum) (PcReturned n) s = None"
| "daemon_next (AcSignal signum) (PcEnded e) s = None"
| "daemon_next (AcSignal signum) at s =
     (if signum \<in> set handled_signals then Some (at, snd (signalHandler signum s)) else None)"
| "daemon_next _ _ _ = None"

lemma handled_signals_set [simp]: "set handled_signals = {2, 3, 1}"
  by (simp add: handled_signals_def)

text \<open>\<open>main\<close> up to the loop: the manager and the server are built.\<close>

definition daemon_address :: "exn + address" where
  "daemon_address = Address_UNIX (\<lambda>_ _. None) ''/tmp/taskmasterd.sock''"

definition daemon_start :: "'n daemon \<Rightarrow> pc \<times> 'n daemon" where
  "daemon_start s0 = (case seqM (logM LT_Info ''Starting taskmasterd'') manager_new s0 of
       (Inl (StdExn w), s) \<Rightarrow> (PcReturned 1, snd (logM LT_Fatal (''Exception: '' @ w) s))
     | (Inl e, s) \<Rightarrow> (PcEnded e, s)
     | (Inr _, s) \<Rightarrow>
         (case bindM (liftE daemon_address) (\<lambda>a. server_new UNIX_SOCKET a 5) s of
            (Inr _, s) \<Rightarrow> (PcSwitch, s)
          | (Inl (StdExn w), s) \<Rightarrow>
              in_destructor manager_kill (PcDrain (Some w) (m_jobs s)) s
          | (Inl e, s) \<Rightarrow> (PcEnded e, s)))"

text \<open>A run: a list of actions, none refused.\<close>

fun daemon_run :: "action list \<Rightarrow> pc \<times> 'n daemon \<Rightarrow> (pc \<times> 'n daemon) option" where
  "daemon_run [] c = Some c"
| "daemon_run (a # as) (at, s) = (case daemon_next a at s of None \<Rightarrow> None | Some c \<Rightarrow> daemon_run as c)"

inductive daemon_reaches :: "pc \<times> 'n daemon \<Rightarrow> pc \<times> 'n daemon \<Rightarrow> bool" where
  reach_refl: "daemon_reaches c c"
| reach_step: "daemon_reaches c (at, s) \<Longrightarrow> daemon_next a at s = Some c' \<Longrightarrow> daemon_reaches c c'"

end
