(* ===== verification/Daemon_Effects.thy ===== *)
theory Daemon_Effects
  imports Daemon
begin

text \<open>
  Standing relations of the whole daemon. A chain of locales is the interface between the primitive
  updates and everything built from them: a preorder kept by the primitives of a layer is kept by
  every operation that uses that layer and those below only. \<open>world_effect\<close> is for the surroundings;
  \<open>client_effect\<close> adds the connections, \<open>job_effect\<close> the jobs and \<open>manager_effect\<close> the maps of jobs and
  configurations. \<open>command_effect\<close> and \<open>machine_effect\<close> are for relations the handlers of jobs are
  known to keep, and give them for every command and every action. \<open>daemon_effect\<close> is for relations
  that any update keeps, and includes all others. It is interpreted here for the
  consistency of the event registry and for the growth of the history.
\<close>

section \<open>Operations on the surroundings only\<close>

locale world_effect = effect_order R for R :: "'n daemon \<Rightarrow> 'n daemon \<Rightarrow> bool" +
  assumes sys_R: "keeps R (sys c)"
    and fresh_R: "keeps R fresh_id"
    and log_R: "keeps R (logM t msg)"
    and register_R: "keeps R (registerEvent fd r w)"
    and unregister_R: "keeps R (unregisterEvent fd)"
    and d_loads_R: "R s (d_loads_update fl s)"
begin

lemmas base_keeps =
  combinator_keeps sys_R fresh_R log_R register_R unregister_R

lemma errno_text_R: "keeps R errno_text"
  unfolding errno_text_def by (rule gets_keeps)

lemma liftE_R: "keeps R (liftE r)"
  by (cases r) (simp_all add: liftE_def base_keeps)

lemma get_R:
  "keeps R (get_job jid)" "keeps R (get_proc jid i)" "keeps R (get_client cid)"
  unfolding get_job_def get_proc_def get_client_def
  by (auto intro!: base_keeps split: option.split)

lemmas world_keeps = base_keeps errno_text_R liftE_R get_R

lemma timer_R:
  "keeps R (fd_destroy fd)" "keeps R (timer_new interval cb)" "keeps R (timer_destroy t)"
  "keeps R (timer_release u)" "keeps R (timer_start cb' t)" "keeps R (proc_destroy p)"
  unfolding proc_destroy_def timer_release_def timer_destroy_def timer_new_def timer_start_def
    fd_destroy_def
  by (auto intro!: world_keeps split: option.split)

lemma waitpid_R: "keeps R (waitpid pid)"
  unfolding waitpid_def by (auto intro!: world_keeps)

lemma child_R: "keeps R (process_child pgid path argv env config)"
  unfolding process_child_def child_drop_privileges_def child_redirect_def dupPath_def
  by (auto intro!: world_keeps split: option.split)

lemma parseCommand_R: "keeps R (parseCommand cmd)"
  unfolding parseCommand_def Let_def by (auto intro!: world_keeps)

lemma reader_writer_R: "keeps R (reader_read parse fd r)" "keeps R (writer_write fd w)"
  unfolding reader_read_def writer_write_def Let_def
  by (auto intro!: world_keeps split: prod.split sum.split)

lemma small_R: "keeps R (findJob name)" "keeps R (respond st msg)" "keeps R (config_at name)"
  unfolding findJob_def respond_def config_at_def by (auto intro!: world_keeps split: option.split)

lemma get_jobs_R: "keeps R (get_jobs es)"
  by (induction es rule: get_jobs.induct) (auto intro!: world_keeps)

lemma status_R: "keeps R (manager_status name)" "keeps R manager_status_all"
  unfolding manager_status_def manager_status_all_def
  by (auto intro!: world_keeps small_R get_jobs_R)

lemmas surroundings_keeps = world_keeps timer_R waitpid_R child_R parseCommand_R reader_writer_R
  small_R status_R

end

section \<open>Operations that also change the connections\<close>

locale client_effect = world_effect R for R :: "'n daemon \<Rightarrow> 'n daemon \<Rightarrow> bool" +
  assumes h_clients_R: "R s (h_clients_update fk s)"
    and s_clients_R: "R s (s_clients_update fs s)"
    and s_fd_R: "R s (s_fd_update ff s)"
    and g_state_R: "R s (g_state_update fg s)"
begin

lemma mod_client_R: "keeps R (mod_client cid fc)"
  unfolding mod_client_def by (intro modify_keeps h_clients_R)

lemma client_parts_R:
  "keeps R (client_registers cid fd)" "keeps R (client_new fd)" "keeps R (client_destroy cid)"
  "keeps R (client_close cid)" "keeps R (set_writer cid w)" "keeps R (writer_init_response cid res)"
  "keeps R (client_drop cid fd)"
  unfolding client_drop_def client_registers_def client_new_def client_destroy_def client_close_def
    set_writer_def writer_init_response_def
  by (auto intro!: surroundings_keeps mod_client_R modify_keeps h_clients_R)

lemma connected_of_R: "keeps R (connected_of cids)"
  by (induction cids) (auto intro!: surroundings_keeps)

lemma onAccept_R: "keeps R onAccept"
  unfolding onAccept_def socket_accept_def
  by (auto intro!: surroundings_keeps modify_keeps s_clients_R client_parts_R connected_of_R)

lemma client_handle_write_R: "keeps R (client_handle_write cid command)"
  unfolding client_handle_write_def
  by (auto intro!: surroundings_keeps modify_keeps g_state_R client_parts_R split: option.split)

lemma server_destroy_R: "keeps R server_destroy"
  unfolding server_destroy_def by (auto intro!: surroundings_keeps client_parts_R modify_keeps s_clients_R)

lemma signal_R: "keeps R (signalHandler signum)"
  unfolding signalHandler_def by (intro seq_keeps log_R modify_keeps g_state_R)

lemma in_block_R:
  assumes "keeps R m"
  shows "R s (snd (in_try m next s))" and "R s (snd (in_destructor m next s))"
  using keepsD [OF assms] keepsD [OF noexcept_keeps [OF assms]]
  by (auto simp: in_try_def in_destructor_def split: prod.splits sum.splits exn.splits)

lemmas connection_keeps = surroundings_keeps mod_client_R client_parts_R

end

section \<open>Everything built from the handlers of jobs\<close>

locale command_effect = world_effect R for R :: "'n daemon \<Rightarrow> 'n daemon \<Rightarrow> bool" +
  assumes job_start_R: "keeps R (job_start jid)"
    and job_stop_R: "keeps R (job_stop jid)"
    and manager_reload_R: "keeps R manager_reload"
begin

lemmas command_keeps = surroundings_keeps job_start_R job_stop_R manager_reload_R

lemma job_command_R: "(\<And>jid. keeps R (act jid)) \<Longrightarrow> keeps R (job_command name act phase)"
  unfolding job_command_def by (auto intro!: command_keeps)

lemma manager_commands_R:
  "keeps R (manager_start name)" "keeps R (manager_stop name)" "keeps R (manager_restart name)"
  "keeps R manager_start_all" "keeps R manager_kill"
  unfolding manager_start_def manager_stop_def manager_restart_def manager_start_all_def
    manager_kill_def
  by (auto intro!: job_command_R command_keeps)

lemma onCommand_R: "keeps R (onCommand cmd)"
  unfolding onCommand_def
  by (auto intro!: command_keeps manager_commands_R split: option.split command_type.split)

end

locale machine_effect = client_effect R + command_effect R for R :: "'n daemon \<Rightarrow> 'n daemon \<Rightarrow> bool" +
  assumes process_on_state_change_R: "keeps R (process_on_state_change jid i)"
    and timer_expired_R: "keeps R (timer_expired jid i tid)"
    and manager_new_R: "keeps R manager_new"
    and manager_update_R: "keeps R manager_update"
begin

lemmas handler_keeps = connection_keeps command_keeps process_on_state_change_R
  timer_expired_R manager_new_R manager_update_R

lemmas manager_keeps = handler_keeps manager_commands_R

lemma client_handle_message_R: "keeps R (client_handle_message cid command)"
  unfolding client_handle_message_def
  by (auto intro!: manager_keeps onCommand_R split: option.split)

lemma client_handle_read_R: "keeps R (client_handle_read cid)"
  unfolding client_handle_read_def
  by (auto intro!: manager_keeps client_handle_message_R split: option.split)

lemma server_new_R: "keeps R (server_new type address backlog)"
proof -
  have "R s (s\<lparr>s_fd := fd, s_clients := cs\<rparr>)" for s fd cs
    by (rule eff_trans [OF s_fd_R s_clients_R])
  then show ?thesis
    unfolding server_new_def socket_new_def socket_bind_def socket_listen_def getInstance_def event_manager_new_def
    by (auto intro!: manager_keeps modify_keeps split: option.split)
qed

lemma dispatch_R: "keeps R (dispatch cb)"
  by (cases cb) (auto intro!: onAccept_R client_handle_read_R client_handle_write_R handler_keeps)

lemma handleEvents_R: "keeps R (handleEvents dispatch wait)"
proof (cases wait)
  case (Events evs)
  have "keeps R (call_at dispatch m fd)" for m fd
    by (auto simp: call_at_def intro!: base_keeps dispatch_R split: option.split)
  then have "keeps R (handleEvent dispatch ev)" for ev
    unfolding handleEvent_def by (auto intro!: base_keeps)
  with Events show ?thesis by (simp add: for_keeps)
qed (auto intro!: connection_keeps)

text \<open>Every action but the last, in which \<open>~JobManager\<close> destroys its members.\<close>

lemma daemon_next_R:
  "daemon_next a at s = Some (at', t) \<Longrightarrow> (\<And>failed. at \<noteq> PcDrain failed []) \<Longrightarrow> R s t"
proof (induction a at s rule: daemon_next.induct)
qed (use in_block_R(1) [OF manager_reload_R] in_block_R(1) [OF log_R]
    in_block_R(1) [OF handleEvents_R] in_block_R(1) [OF manager_update_R]
    in_block_R(2) [OF handleEvents_R]
    in_block_R(2) [OF seq_keeps [OF server_destroy_R manager_commands_R(5)]]
    signal_R g_state_R eff_refl in
    \<open>auto simp: keeps_def dest: sndI split: daemon_state.splits if_splits\<close>)

lemma daemon_start_R: "R s0 (snd (daemon_start s0))"
proof -
  obtain r s where m: "seqM (logM LT_Info ''Starting taskmasterd'') manager_new s0 = (r, s)"
    by fastforce
  have s: "R s0 s"
    by (rule keepsD [OF seq_keeps [OF log_R manager_new_R] m])
  have fatal: "R t (snd (logM LT_Fatal msg t))" for msg t
    using log_R by (simp add: keeps_def)
  obtain r' s' where sv: "bindM (liftE daemon_address) (\<lambda>a. server_new UNIX_SOCKET a 5) s = (r', s')"
    by fastforce
  have s': "R s s'"
    by (rule keepsD [OF bind_keeps [OF liftE_R server_new_R] sv])
  have kill: "R s' (snd (in_destructor manager_kill after s'))" for after
    by (rule in_block_R [OF manager_commands_R(5)])
  show ?thesis
    using eff_trans [OF s fatal] eff_trans [OF s s'] eff_trans [OF eff_trans [OF s s'] kill] s
    by (simp add: daemon_start_def m sv split: sum.split exn.split)
qed

end

section \<open>Every operation\<close>

locale job_effect = world_effect R for R :: "'n daemon \<Rightarrow> 'n daemon \<Rightarrow> bool" +
  assumes h_jobs_R: "R s (h_jobs_update f s)"
begin

lemma mod_R: "keeps R (mod_job jid fj)" "keeps R (mod_proc jid i fp)"
  unfolding mod_job_def mod_proc_def by (auto intro!: modify_keeps h_jobs_R)

lemma set_state_R: "keeps R (set_job_state jid st)" "keeps R (set_proc_state jid i pst)"
  unfolding set_job_state_def set_proc_state_def by (rule mod_R)+

lemmas state_keeps = surroundings_keeps mod_R set_state_R

lemma proc_timer_R:
  "keeps R (proc_reset_timer jid i interval cb)"
  "keeps R (proc_clear_timer jid i)" "keeps R (proc_start_timer jid i)"
  unfolding proc_reset_timer_def proc_clear_timer_def proc_start_timer_def
  by (auto intro!: state_keeps split: option.split)

lemma process_start_R: "keeps R (process_start jid i path argv env config)"
  unfolding process_start_def process_parent_def pidfd_open_def
  by (auto intro!: state_keeps proc_timer_R)

lemma process_small_R:
  "keeps R (proc_reset_restarts jid i)" "keeps R (proc_add_restart jid i)"
  "keeps R (process_kill jid i)" "keeps R (process_on_stop_time jid i)"
  unfolding proc_reset_restarts_def proc_add_restart_def process_on_stop_time_def process_kill_def
    pidfd_send_signal_def
  by (auto intro!: state_keeps)

lemmas process_keeps = state_keeps proc_timer_R process_start_R process_small_R

section \<open>Jobs\<close>

lemma job_heap_R: "keeps R (job_alloc config)" "keeps R (job_destroy jid)"
  unfolding job_alloc_def job_destroy_def
  by (auto intro!: process_keeps modify_keeps h_jobs_R)

lemma job_proc_start_R: "keeps R (job_proc_start jid i)"
  unfolding job_proc_start_def by (auto intro!: process_keeps split: list.split)

lemma job_start_processes_R: "keeps R (job_start_processes jid)"
  unfolding job_start_processes_def job_create_process_def Let_def
  by (auto intro!: process_keeps job_proc_start_R)

lemma job_restart_processes_R: "keeps R (job_restart_processes jid)"
  unfolding job_restart_processes_def by (auto intro!: process_keeps job_proc_start_R)

lemma job_start_R: "keeps R (job_start jid)"
  unfolding job_start_def
  by (auto intro!: process_keeps job_start_processes_R job_restart_processes_R split: job_state.split)

lemma manager_on_stop_R: "keeps R (manager_on_stop name)"
  unfolding manager_on_stop_def by (auto intro!: process_keeps split: option.split)

lemma job_on_stop_R: "keeps R (job_on_stop jid i)"
  unfolding job_on_stop_def
  by (auto intro!: process_keeps job_proc_start_R manager_on_stop_R split: job_state.split)

lemma job_on_exit_R: "keeps R (job_on_exit jid i code)"
  unfolding job_on_exit_def job_settle_def Let_def
  by (auto intro!: process_keeps job_proc_start_R split: restart_policy.split)

lemma process_stop_R: "keeps R (process_stop jid i timeout sig)"
  unfolding process_stop_def pidfd_send_signal_def
  by (auto intro!: process_keeps job_on_stop_R split: option.split)

lemma process_handlers_R:
  "keeps R (process_on_exit jid i st)" "keeps R (process_on_forced_exit jid i st)"
  "keeps R (process_on_start_time jid i)"
  unfolding process_on_exit_def process_on_forced_exit_def process_on_start_time_def
    job_on_process_surpassed_start_time_def
  by (auto intro!: process_keeps job_on_stop_R job_on_exit_R split: process_state.split)

lemma process_on_state_change_R: "keeps R (process_on_state_change jid i)"
  unfolding process_on_state_change_def
  by (auto intro!: process_keeps process_handlers_R)

lemma timer_expired_R: "keeps R (timer_expired jid i tid)"
proof -
  have "keeps R (timer_callback_run c)" for c
    by (cases c) (auto intro!: process_keeps process_handlers_R)
  then show ?thesis
    unfolding timer_expired_def timer_on_expire_def
    by (auto intro!: process_keeps split: option.split)
qed

lemma job_stop_R: "keeps R (job_stop jid)"
  unfolding job_stop_def
  by (auto intro!: process_keeps manager_on_stop_R process_stop_R split: job_state.split)

lemmas job_keeps = process_keeps job_heap_R job_start_R job_stop_R process_on_state_change_R
  timer_expired_R

end

locale manager_effect = job_effect R for R :: "'n daemon \<Rightarrow> 'n daemon \<Rightarrow> bool" +
  assumes m_jobs_R: "R s (m_jobs_update fj s)"
    and m_config_R: "R s (m_config_update fc s)"
begin

lemma manager_parts_R:
  "keeps R load_configs" "keeps R (set_jobs jobs)" "keeps R (emplace_job name config)"
  "keeps R manager_new" "keeps R manager_start_all" "keeps R (createJob name)"
  unfolding load_configs_def log_all_def set_jobs_def emplace_job_def manager_new_def manager_start_all_def
    createJob_def
  by (auto intro!: job_keeps modify_keeps d_loads_R m_jobs_R m_config_R split: option.split)

lemma update_job_R: "keeps R (update_job name jid)"
  unfolding update_job_def erase_job_def
  by (auto intro!: job_keeps manager_parts_R modify_keeps m_jobs_R)

lemma manager_update_R: "keeps R manager_update"
  unfolding manager_update_def by (auto intro!: job_keeps update_job_R)

lemma manager_reload_R: "keeps R manager_reload"
  unfolding manager_reload_def stop_changed_def create_missing_def
  by (auto intro!: job_keeps manager_parts_R manager_update_R modify_keeps m_config_R
      split: option.split)

end

sublocale manager_effect \<subseteq> cmds: command_effect
  by unfold_locales (auto intro: job_keeps manager_reload_R)

text \<open>For relations that every update keeps.\<close>

locale daemon_effect = client_effect R + manager_effect R for R :: "'n daemon \<Rightarrow> 'n daemon \<Rightarrow> bool"

sublocale daemon_effect \<subseteq> mach: machine_effect
  by unfold_locales (auto intro: job_keeps manager_parts_R manager_update_R manager_reload_R)

context daemon_effect
begin

lemma finish_R: "R s (snd (finish failed s))"
  unfolding finish_def manager_members_destroy_def
  by (rule in_block_R) (auto intro!: job_keeps split: option.split)

lemma daemon_step_R:
  assumes "daemon_next a at s = Some c"
  shows "R s (snd c)"
proof (cases "\<exists>failed. at = PcDrain failed []")
  case True
  have "R s (snd (signalHandler signum s))" for signum
    using signal_R by (simp add: keeps_def)
  with True finish_R assms show ?thesis
    by (cases a) (auto split: if_splits)
next
  case False
  with assms mach.daemon_next_R [of a at s "fst c" "snd c"] show ?thesis by simp
qed

lemma daemon_reaches_R: "daemon_reaches c d \<Longrightarrow> R (snd c) (snd d)"
proof (induction rule: daemon_reaches.induct)
  case (reach_refl c)
  show ?case by (rule eff_refl)
next
  case (reach_step c at s a c')
  then show ?case
    using daemon_step_R [of a at s c'] eff_trans by auto
qed

end

section \<open>Interpretations\<close>

lemma em_ok_fields [simp]:
  "em_ok (g_state_update f s) = em_ok s" for s :: "('cb, 'z) globals_scheme"
  by (simp add: em_ok_def)

lemma em_ok_daemon [simp]:
  "em_ok (h_jobs_update f1 s) = em_ok s" "em_ok (m_jobs_update f2 s) = em_ok s"
  "em_ok (m_config_update f3 s) = em_ok s" "em_ok (h_clients_update f4 s) = em_ok s"
  "em_ok (s_clients_update f5 s) = em_ok s" "em_ok (s_fd_update f6 s) = em_ok s"
  "em_ok (d_loads_update f7 s) = em_ok s"
  by (simp_all add: em_ok_def)

interpretation de: daemon_effect "em_keeps :: 'n daemon \<Rightarrow> 'n daemon \<Rightarrow> bool"
  by unfold_locales (auto intro: sys_em fresh_em log_em registerEvent_em unregisterEvent_em)

text \<open>
  The history: calls are only added, the clock counts them, and the kernel, the logger and the
  libraries stay what they are.
\<close>

definition history_grows :: "'z world_scheme \<Rightarrow> 'z world_scheme \<Rightarrow> bool" where
  "history_grows s t \<longleftrightarrow> (\<exists>calls. w_trace t = calls @ w_trace s \<and> w_clock t = w_clock s + length calls) \<and>
     w_next s \<le> w_next t \<and> w_ans t = w_ans s \<and> w_strerror t = w_strerror s \<and> w_status t = w_status s \<and>
     w_again t = w_again s \<and> w_data t = w_data s \<and> w_wordexp t = w_wordexp s \<and> w_logger t = w_logger s"

lemma history_refl: "w_trace t = w_trace s \<Longrightarrow> w_clock t = w_clock s \<Longrightarrow> w_next s \<le> w_next t \<Longrightarrow>
    w_ans t = w_ans s \<Longrightarrow> w_strerror t = w_strerror s \<Longrightarrow> w_status t = w_status s \<Longrightarrow>
    w_again t = w_again s \<Longrightarrow> w_data t = w_data s \<Longrightarrow> w_wordexp t = w_wordexp s \<Longrightarrow>
    w_logger t = w_logger s \<Longrightarrow> history_grows s t"
  by (simp add: history_grows_def)

lemma history_trans: "history_grows s t \<Longrightarrow> history_grows t u \<Longrightarrow> history_grows s u"
  unfolding history_grows_def by (elim conjE exE) (intro conjI exI, auto)

interpretation hi: effect_order history_grows
  by unfold_locales (auto intro: history_refl history_trans)

lemma sys_hi: "keeps history_grows (sys c)"
  by (rule keepsI) (simp add: run_simps history_grows_def)

lemma event_hi: "keeps history_grows (registerEvent fd r w)" "keeps history_grows (unregisterEvent fd)"
  unfolding registerEvent_def updateEventInternal_def unregisterEvent_def Let_def errno_text_def
  by (auto intro!: hi.combinator_keeps sys_hi hi.modify_keeps history_refl)

lemma world_hi: "keeps history_grows (logM t msg)" "keeps history_grows fresh_id"
  by (auto simp: keeps_def run_simps history_refl)

interpretation dh: daemon_effect "history_grows :: 'n daemon \<Rightarrow> 'n daemon \<Rightarrow> bool"
  by unfold_locales (auto intro: sys_hi event_hi world_hi simp: history_refl)

end
