(* ===== verification/Job_Machine.thy ===== *)
theory Job_Machine
  imports Daemon_Effects
begin

text \<open>
  The abstract job machine: what a job promises, without system calls, timers and callbacks. A
  job is its configuration, its state and, for each process, the state, the number of automatic
  restarts and whether its start timer is set. \<open>spec_step\<close> lists the atomic changes a job may
  make; theory \<^verbatim>\<open>Job_Refinement\<close> shows that the daemon makes no others.
\<close>

record spec_proc =
  sp_name :: string
  sp_state :: process_state
  sp_restarts :: int
  sp_armed :: bool

record spec_job =
  sj_config :: jobconfig
  sj_state :: job_state
  sj_procs :: "spec_proc list"

definition startable :: "process_state set" where
  "startable = {P_STOPPED, P_EXITED, P_BACKOFF}"

inductive proc_step :: "jobconfig \<Rightarrow> spec_proc \<Rightarrow> spec_proc \<Rightarrow> bool" where
  ps_arm: "proc_step c p (p\<lparr>sp_armed := True\<rparr>)"
| ps_disarm: "proc_step c p (p\<lparr>sp_armed := False\<rparr>)"
| ps_launch: "sp_state p \<in> startable \<Longrightarrow> sp_armed p \<Longrightarrow> proc_step c p (p\<lparr>sp_state := P_STARTING\<rparr>)"
| ps_alive: "sp_armed p \<Longrightarrow> proc_step c p (p\<lparr>sp_state := P_RUNNING\<rparr>)"
| ps_backoff: "sp_state p = P_STARTING \<Longrightarrow> \<not> sp_armed p \<Longrightarrow> proc_step c p (p\<lparr>sp_state := P_BACKOFF\<rparr>)"
| ps_exited: "sp_state p = P_RUNNING \<Longrightarrow> \<not> sp_armed p \<Longrightarrow> proc_step c p (p\<lparr>sp_state := P_EXITED\<rparr>)"
| ps_stopped: "\<not> sp_armed p \<or> sp_state p \<in> startable \<Longrightarrow> proc_step c p (p\<lparr>sp_state := P_STOPPED\<rparr>)"
| ps_signalled: "sp_state p \<notin> {P_BACKOFF, P_EXITED} \<Longrightarrow> proc_step c p (p\<lparr>sp_state := P_STOPPING\<rparr>)"
| ps_unknown: "\<not> sp_armed p \<Longrightarrow> proc_step c p (p\<lparr>sp_state := P_UNKNOWN\<rparr>)"
| ps_count: "sp_restarts p \<noteq> c_start_retries c \<Longrightarrow> sp_restarts p \<noteq> 2 ^ 31 - 1 \<Longrightarrow>
    proc_step c p (p\<lparr>sp_restarts := sp_restarts p + 1\<rparr>)"
| ps_reset: "proc_step c p (p\<lparr>sp_restarts := 0\<rparr>)"

inductive spec_step :: "spec_job \<Rightarrow> spec_job \<Rightarrow> bool" where
  ss_proc: "i < length (sj_procs J) \<Longrightarrow> proc_step (sj_config J) (sj_procs J ! i) p \<Longrightarrow>
    spec_step J (J\<lparr>sj_procs := (sj_procs J)[i := p]\<rparr>)"
| ss_create: "sj_state J = J_EMPTY \<Longrightarrow>
    spec_step J (J\<lparr>sj_procs := sj_procs J @
      [\<lparr>sp_name = c_name (sj_config J) @ ''_'' @ to_string (int n), sp_state = P_STOPPED,
        sp_restarts = 0, sp_armed = False\<rparr>]\<rparr>)"
| ss_starting: "spec_step J (J\<lparr>sj_state := J_STARTING\<rparr>)"
| ss_running: "\<forall>p \<in> set (sj_procs J). sp_state p = P_RUNNING \<Longrightarrow>
    spec_step J (J\<lparr>sj_state := J_RUNNING\<rparr>)"
| ss_stopping: "sj_state J \<notin> {J_EMPTY, J_STOPPED, J_STOPPING} \<Longrightarrow>
    spec_step J (J\<lparr>sj_state := J_STOPPING\<rparr>)"
| ss_stopped: "\<forall>p \<in> set (sj_procs J). sp_state p \<in> startable \<Longrightarrow>
    spec_step J (J\<lparr>sj_state := J_STOPPED\<rparr>)"
| ss_marked: "sj_state J \<in> {J_EMPTY, J_STOPPED} \<Longrightarrow> st \<in> {J_REPLACE, J_REMOVE} \<Longrightarrow>
    spec_step J (J\<lparr>sj_state := st\<rparr>)"

definition spec_new :: "jobconfig \<Rightarrow> spec_job" where
  "spec_new c = \<lparr>sj_config = c, sj_state = J_EMPTY, sj_procs = []\<rparr>"

text \<open>The abstraction.\<close>

fun is_start_time :: "timer_callback \<Rightarrow> bool" where
  "is_start_time (TcStartTime jid i) = True"
| "is_start_time (TcStopTime jid i) = False"

definition view_proc :: "process \<Rightarrow> spec_proc" where
  "view_proc p = \<lparr>sp_name = p_name p, sp_state = p_state p, sp_restarts = p_restarts p,
     sp_armed = (case p_timer p of None \<Rightarrow> False | Some t \<Rightarrow> is_start_time (t_callback t))\<rparr>"

definition view_job :: "job \<Rightarrow> spec_job" where
  "view_job j = \<lparr>sj_config = j_config j, sj_state = j_state j, sj_procs = map view_proc (j_processes j)\<rparr>"

section \<open>What follows from the abstract machine\<close>

abbreviation spec_steps :: "spec_job \<Rightarrow> spec_job \<Rightarrow> bool" where
  "spec_steps \<equiv> spec_step\<^sup>*\<^sup>*"

lemma spec_step_config: "spec_step J J' \<Longrightarrow> sj_config J' = sj_config J"
  by (induction rule: spec_step.induct) simp_all

lemma spec_steps_config: "spec_steps J J' \<Longrightarrow> sj_config J' = sj_config J"
  by (induction rule: rtranclp_induct) (auto dest: spec_step_config)

text \<open>
  The process invariant: \<open>FATAL\<close> is never assigned, the restart counter stays within the budget,
  and a process whose exit has been seen and that was not started again has no start timer unless
  a start failed half way.
\<close>

definition proc_inv :: "jobconfig \<Rightarrow> spec_proc \<Rightarrow> bool" where
  "proc_inv c p \<longleftrightarrow> sp_state p \<noteq> P_FATAL \<and> 0 \<le> sp_restarts p \<and> sp_restarts p < 2 ^ 31 \<and>
     (0 \<le> c_start_retries c \<longrightarrow> sp_restarts p \<le> c_start_retries c)"

lemma proc_step_inv: "proc_step c p p' \<Longrightarrow> proc_inv c p \<Longrightarrow> proc_inv c p'"
  by (induction rule: proc_step.induct) (auto simp: proc_inv_def)

lemma spec_step_inv:
  "spec_step J J' \<Longrightarrow> \<forall>p \<in> set (sj_procs J). proc_inv (sj_config J) p \<Longrightarrow>
     \<forall>p \<in> set (sj_procs J'). proc_inv (sj_config J') p"
proof (induction rule: spec_step.induct)
  case (ss_proc i J p)
  then show ?case
    using proc_step_inv by (fastforce dest: set_update_subset_insert [THEN subsetD])
qed (auto simp: proc_inv_def)

lemma spec_steps_inv:
  assumes "spec_steps (spec_new c) J"
  shows "\<forall>p \<in> set (sj_procs J). proc_inv c p"
proof -
  from assms have "sj_config J = c \<and> (\<forall>p \<in> set (sj_procs J). proc_inv (sj_config J) p)"
    by (induction rule: rtranclp_induct)
      (auto simp: spec_new_def dest: spec_step_inv spec_step_config)
  then show ?thesis by auto
qed

text \<open>Processes are only added, and keep their names.\<close>

lemma spec_step_names: "spec_step J J' \<Longrightarrow> \<exists>ns. map sp_name (sj_procs J') = map sp_name (sj_procs J) @ ns"
proof (induction rule: spec_step.induct)
  case (ss_proc i J p)
  then have "sp_name p = sp_name (sj_procs J ! i)"
    by (auto elim: proc_step.cases)
  with ss_proc have "map sp_name ((sj_procs J)[i := p]) = map sp_name (sj_procs J)"
    by (simp add: map_update list_update_same_conv)
  then show ?case by simp
qed simp_all

end
