(* ===== verification/Job_Refinement.thy ===== *)
theory Job_Refinement
  imports Job_Machine
begin

text \<open>
  The daemon implements the abstract job machine: every handler, command and action takes each
  job through steps of \<^verbatim>\<open>Job_Machine\<close>, and every job comes into being as an empty one.
\<close>

section \<open>The well-formed heap\<close>

definition timers_own :: "nat \<Rightarrow> job \<Rightarrow> bool" where
  "timers_own jid j \<longleftrightarrow> (\<forall>i < length (j_processes j). \<forall>t. p_timer (j_processes j ! i) = Some t \<longrightarrow>
     t_callback t \<in> {TcStartTime jid i, TcStopTime jid i})"

text \<open>
  Live objects are below the counter, the map of jobs and the live jobs are in one-to-one
  correspondence by name, and a timer belongs to the process that holds it.
\<close>

definition heap_ok :: "'n daemon \<Rightarrow> bool" where
  "heap_ok s \<longleftrightarrow>
     (\<forall>jid j. h_jobs s jid = Some j \<longrightarrow> jid < w_next s \<and> timers_own jid j \<and>
        um_find (c_name (j_config j)) (m_jobs s) = Some jid) \<and>
     (\<forall>n jid. um_find n (m_jobs s) = Some jid \<longrightarrow> (\<exists>j. h_jobs s jid = Some j \<and> c_name (j_config j) = n)) \<and>
     um_ok (m_jobs s) \<and> (\<forall>n c. um_find n (m_config s) = Some c \<longrightarrow> c_name c = n)"

lemma heap_entries:
  assumes ok: "heap_ok s"
  shows "distinct (map fst (m_jobs s))" and "distinct (map snd (m_jobs s))"
    and "(name, jid) \<in> set (m_jobs s) \<longleftrightarrow> um_find name (m_jobs s) = Some jid"
proof -
  from ok have um: "um_ok (m_jobs s)" by (simp add: heap_ok_def)
  then show "distinct (map fst (m_jobs s))" by (simp add: um_ok_def)
  have mem: "(name, jid) \<in> set (m_jobs s) \<longleftrightarrow> um_find name (m_jobs s) = Some jid" for name jid
    by (rule um_mem_find [OF um])
  then show "(name, jid) \<in> set (m_jobs s) \<longleftrightarrow> um_find name (m_jobs s) = Some jid" .
  have "c_name (j_config j) = n" if "um_find n (m_jobs s) = Some k" "h_jobs s k = Some j" for n k j
    using ok that unfolding heap_ok_def by fastforce
  moreover have "\<exists>j. h_jobs s k = Some j" if "um_find n (m_jobs s) = Some k" for n k
    using ok that unfolding heap_ok_def by blast
  ultimately have "n = n'" if "um_find n (m_jobs s) = Some k" "um_find n' (m_jobs s) = Some k" for n n' k
    using that by metis
  then have "inj_on snd (set (m_jobs s))"
    by (auto simp: inj_on_def mem)
  moreover have "distinct (m_jobs s)" using um distinct_map [of fst "m_jobs s"] by (simp add: um_ok_def)
  ultimately show "distinct (map snd (m_jobs s))" by (simp add: distinct_map)
qed

definition job_evolves :: "job option \<Rightarrow> job \<Rightarrow> bool" where
  "job_evolves old j' \<longleftrightarrow> (case old of
     Some j \<Rightarrow> spec_steps (view_job j) (view_job j')
   | None \<Rightarrow> \<exists>c. spec_steps (spec_new c) (view_job j'))"

definition evolves :: "'n daemon \<Rightarrow> 'n daemon \<Rightarrow> bool" where
  "evolves s t \<longleftrightarrow> (heap_ok s \<longrightarrow> heap_ok t \<and> w_next s \<le> w_next t \<and>
     (\<forall>jid j'. h_jobs t jid = Some j' \<longrightarrow> (h_jobs s jid = None \<longrightarrow> w_next s \<le> jid) \<and>
        job_evolves (h_jobs s jid) j'))"

lemma job_evolves_trans:
  "job_evolves old j \<Longrightarrow> spec_steps (view_job j) (view_job j') \<Longrightarrow> job_evolves old j'"
  by (auto simp: job_evolves_def split: option.splits) (meson rtranclp_trans)

lemma evolves_refl: "evolves s s"
  by (auto simp: evolves_def heap_ok_def job_evolves_def)

lemma evolves_trans:
  assumes "evolves s t" and "evolves t u"
  shows "evolves s u"
  unfolding evolves_def
proof (intro impI conjI allI)
  assume ok: "heap_ok s"
  with assms show "heap_ok u" "w_next s \<le> w_next u"
    by (auto simp: evolves_def)
  fix jid j'
  assume u: "h_jobs u jid = Some j'"
  have old: "h_jobs s jid = None" if "w_next s \<le> jid"
    using ok that unfolding heap_ok_def by (meson leD not_None_eq)
  show "job_evolves (h_jobs s jid) j'"
  proof (cases "h_jobs t jid")
    case (Some j)
    with assms ok u show ?thesis
      by (fastforce simp: evolves_def job_evolves_def [of "Some j"] intro: job_evolves_trans)
  next
    case None
    with assms ok u have "w_next t \<le> jid" "w_next s \<le> w_next t" "job_evolves None j'"
      by (auto simp: evolves_def; metis)+
    with old show ?thesis by simp
  qed
  assume "h_jobs s jid = None"
  with assms ok u show "w_next s \<le> jid"
    by (cases "h_jobs t jid") (fastforce simp: evolves_def)+
qed

interpretation ev: effect_order evolves
  by unfold_locales (auto intro: evolves_refl evolves_trans)

text \<open>What does not touch the jobs.\<close>

definition quiet :: "'n daemon \<Rightarrow> 'n daemon \<Rightarrow> bool" where
  "quiet s t \<longleftrightarrow> h_jobs t = h_jobs s \<and> m_jobs t = m_jobs s \<and> m_config t = m_config s \<and>
     w_next s \<le> w_next t"

lemma event_quiet:
  "h_jobs (snd (registerEvent fd r w s)) = h_jobs s \<and> m_jobs (snd (registerEvent fd r w s)) = m_jobs s \<and>
     m_config (snd (registerEvent fd r w s)) = m_config s \<and>
     w_next (snd (registerEvent fd r w s)) = w_next s"
  "h_jobs (snd (unregisterEvent fd s)) = h_jobs s \<and> m_jobs (snd (unregisterEvent fd s)) = m_jobs s \<and>
     m_config (snd (unregisterEvent fd s)) = m_config s \<and> w_next (snd (unregisterEvent fd s)) = w_next s"
  by (simp_all add: registerEvent_def updateEventInternal_def unregisterEvent_def Let_def run_simps)

interpretation qu: client_effect "quiet :: 'n daemon \<Rightarrow> 'n daemon \<Rightarrow> bool"
  by unfold_locales (auto simp: quiet_def keeps_def run_simps event_quiet)

lemma quiet_evolves: "quiet s t \<Longrightarrow> evolves s t"
  by (fastforce simp: quiet_def evolves_def heap_ok_def job_evolves_def)

lemma quiet_keeps: "keeps quiet m \<Longrightarrow> keeps evolves m"
  by (auto simp: keeps_def quiet_evolves)

interpretation ec: client_effect "evolves :: 'n daemon \<Rightarrow> 'n daemon \<Rightarrow> bool"
  by unfold_locales
    (auto intro: quiet_keeps qu.sys_R qu.fresh_R qu.log_R qu.register_R qu.unregister_R
      quiet_evolves qu.h_clients_R qu.s_clients_R qu.s_fd_R qu.d_loads_R qu.g_state_R)

section \<open>Running from a known job\<close>

text \<open>
  \<open>evolves_from jid j m\<close>: started where the job \<open>jid\<close> is exactly \<open>j\<close>, \<open>m\<close> evolves. The rules
  below run a program symbolically: what does not touch jobs is skipped, a read gives the known
  job, an update changes it and has to be a step of the abstract machine.
\<close>

definition evolves_from :: "nat \<Rightarrow> job \<Rightarrow> ('n, 'a) dprog \<Rightarrow> bool" where
  "evolves_from jid j m \<longleftrightarrow> (\<forall>s. h_jobs s jid = Some j \<longrightarrow> evolves s (snd (m s)))"

lemma evolves_fromI: "keeps evolves m \<Longrightarrow> evolves_from jid j m"
  by (simp add: evolves_from_def keeps_def)

lemma evolves_fromD: "evolves_from jid j m \<Longrightarrow> h_jobs s jid = Some j \<Longrightarrow> evolves s (snd (m s))"
  by (simp add: evolves_from_def)

lemma read_job_keeps:
  assumes "\<And>j. evolves_from jid j (f j)"
  shows "keeps evolves (bindM (get_job jid) f)"
proof (rule keepsI)
  fix s :: "'a daemon"
  show "evolves s (snd (bindM (get_job jid) f s))"
    using assms by (auto simp: run_simps evolves_from_def evolves_refl split: option.split)
qed

lemma read_proc_keeps:
  assumes "\<And>j. i < length (j_processes j) \<Longrightarrow> evolves_from jid j (f (j_processes j ! i))"
  shows "keeps evolves (bindM (get_proc jid i) f)"
proof (rule keepsI)
  fix s :: "'a daemon"
  show "evolves s (snd (bindM (get_proc jid i) f s))"
    using assms by (auto simp: run_simps evolves_from_def evolves_refl split: option.split)
qed

lemma ef_read_job: "evolves_from jid j (f j) \<Longrightarrow> evolves_from jid j (bindM (get_job jid) f)"
  by (auto simp: evolves_from_def run_simps)

lemma ef_read_proc:
  "(i < length (j_processes j) \<Longrightarrow> evolves_from jid j (f (j_processes j ! i))) \<Longrightarrow>
     evolves_from jid j (bindM (get_proc jid i) f)"
  by (auto simp: evolves_from_def run_simps evolves_refl)

lemma ef_bind_quiet:
  fixes m :: "('n, 'a) dprog"
  assumes "keeps quiet m" and "\<And>x. evolves_from jid j (f x)"
  shows "evolves_from jid j (bindM m f)"
  unfolding evolves_from_def
proof (intro allI impI)
  fix s :: "'n daemon"
  assume s: "h_jobs s jid = Some j"
  obtain r t where m: "m s = (r, t)" by fastforce
  have q: "quiet s t" by (rule keepsD [OF assms(1) m])
  with s assms(2) have "evolves t (snd (f x t))" for x
    by (simp add: evolves_from_def quiet_def)
  then show "evolves s (snd (bindM m f s))"
    using quiet_evolves [OF q] evolves_trans by (auto simp: bindM_run m split: sum.split)
qed

lemma ef_seq_quiet:
  "keeps quiet m \<Longrightarrow> evolves_from jid j n \<Longrightarrow> evolves_from jid j (seqM m n)"
  unfolding seqM_def by (rule ef_bind_quiet)

lemma ef_when: "(b \<Longrightarrow> evolves_from jid j m) \<Longrightarrow> evolves_from jid j (whenM b m)"
  by (simp add: whenM_def evolves_fromI ev.return_keeps)

lemma ef_seq: "evolves_from jid j m \<Longrightarrow> keeps evolves n \<Longrightarrow> evolves_from jid j (seqM m n)"
  unfolding evolves_from_def keeps_def seqM_run
  by (auto split: prod.split sum.split) (metis evolves_trans snd_conv)+

text \<open>An update that is a step of the abstract machine.\<close>

definition job_update :: "nat \<Rightarrow> job \<Rightarrow> job \<Rightarrow> bool" where
  "job_update jid j j' \<longleftrightarrow> spec_steps (view_job j) (view_job j') \<and> (timers_own jid j \<longrightarrow> timers_own jid j')"

lemma evolves_update:
  assumes "h_jobs s jid = Some j" and "job_update jid j j'"
  shows "evolves s (s\<lparr>h_jobs := (h_jobs s)(jid \<mapsto> j')\<rparr>)"
proof -
  have "j_config j' = j_config j"
    using assms(2) spec_steps_config by (fastforce simp: job_update_def view_job_def)
  with assms show ?thesis
    unfolding evolves_def heap_ok_def
    by (auto simp: job_update_def job_evolves_def) (metis option.inject)
qed

lemma ef_mod_job:
  assumes "job_update jid j (g j)"
  shows "evolves_from jid j (mod_job jid g)"
  using assms by (auto simp: evolves_from_def mod_job_run intro: evolves_update)

lemma ef_seq_mod_job:
  fixes n :: "('n, 'a) dprog"
  assumes "job_update jid j (g j)" and "evolves_from jid (g j) n"
  shows "evolves_from jid j (seqM (mod_job jid g) n)"
  unfolding evolves_from_def
proof (intro allI impI)
  fix s :: "'n daemon"
  assume s: "h_jobs s jid = Some j"
  let ?t = "s\<lparr>h_jobs := (h_jobs s)(jid \<mapsto> g j)\<rparr>"
  have "evolves s ?t" by (rule evolves_update [OF s assms(1)])
  moreover have "evolves ?t (snd (n ?t))" using assms(2) by (simp add: evolves_from_def)
  ultimately show "evolves s (snd (seqM (mod_job jid g) n s))"
    using s by (simp add: seqM_run mod_job_run evolves_trans)
qed

text \<open>An update of one process.\<close>

definition proc_update :: "nat \<Rightarrow> nat \<Rightarrow> jobconfig \<Rightarrow> process \<Rightarrow> process \<Rightarrow> bool" where
  "proc_update jid i c p p' \<longleftrightarrow> (view_proc p' = view_proc p \<or> proc_step c (view_proc p) (view_proc p')) \<and>
     (p_timer p' = p_timer p \<or>
      (\<forall>t. p_timer p' = Some t \<longrightarrow> t_callback t \<in> {TcStartTime jid i, TcStopTime jid i}))"

lemma proc_update_job:
  assumes "i < length (j_processes j)"
    and "proc_update jid i (j_config j) (j_processes j ! i) (f (j_processes j ! i))"
  shows "job_update jid j (upd_proc i f j)"
proof -
  let ?p = "j_processes j ! i"
  have "view_job (upd_proc i f j) = (view_job j)\<lparr>sj_procs := (sj_procs (view_job j))[i := view_proc (f ?p)]\<rparr>"
    by (simp add: view_job_def upd_proc_def map_update)
  moreover have "view_job j = (view_job j)\<lparr>sj_procs := (sj_procs (view_job j))[i := view_proc ?p]\<rparr>"
    using assms(1) by (simp add: view_job_def map_update [symmetric])
  moreover have "spec_step (view_job j) ((view_job j)\<lparr>sj_procs := (sj_procs (view_job j))[i := q]\<rparr>)"
    if "proc_step (j_config j) (view_proc ?p) q" for q
    using assms(1) that by (intro ss_proc) (simp_all add: view_job_def)
  ultimately have "spec_steps (view_job j) (view_job (upd_proc i f j))"
    using assms(2) unfolding proc_update_def by (metis r_into_rtranclp rtranclp.rtrancl_refl)
  moreover have "timers_own jid j \<Longrightarrow> timers_own jid (upd_proc i f j)"
    using assms by (auto simp: timers_own_def upd_proc_def proc_update_def nth_list_update)
  ultimately show ?thesis by (simp add: job_update_def)
qed

lemma ef_mod_proc:
  "i < length (j_processes j) \<Longrightarrow>
     proc_update jid i (j_config j) (j_processes j ! i) (f (j_processes j ! i)) \<Longrightarrow>
     evolves_from jid j (mod_proc jid i f)"
  unfolding mod_proc_def by (intro ef_mod_job proc_update_job)

lemma ef_seq_mod_proc:
  "i < length (j_processes j) \<Longrightarrow>
     proc_update jid i (j_config j) (j_processes j ! i) (f (j_processes j ! i)) \<Longrightarrow>
     evolves_from jid (upd_proc i f j) n \<Longrightarrow> evolves_from jid j (seqM (mod_proc jid i f) n)"
  unfolding mod_proc_def by (intro ef_seq_mod_job proc_update_job)

lemma upd_proc_twice: "upd_proc i f (upd_proc i g j) = upd_proc i (\<lambda>p. f (g p)) j"
  by (cases "i < length (j_processes j)") (simp_all add: upd_proc_def list_update_beyond)

lemma upd_proc_const: "upd_proc i f j = upd_proc i (\<lambda>_. f (j_processes j ! i)) j"
  by (simp add: upd_proc_def)

lemma ef_bind_quiet_post:
  fixes m :: "('n, 'a) dprog"
  assumes "keeps quiet m" and "\<And>s x t. m s = (Inr x, t) \<Longrightarrow> Q x"
    and "\<And>x. Q x \<Longrightarrow> evolves_from jid j (f x)"
  shows "evolves_from jid j (bindM m f)"
proof -
  have "bindM m f = bindM m (\<lambda>x. if Q x then f x else returnM undefined)"
    using assms(2) by (auto simp: fun_eq_iff bindM_run split: prod.split sum.split)
  moreover have "evolves_from jid j (if Q x then f x else returnM undefined)" for x
    using assms(3) by (auto intro: evolves_fromI ev.return_keeps)
  ultimately show ?thesis
    by (simp only:) (rule ef_bind_quiet [OF assms(1)])
qed

lemma timer_new_callback: "timer_new interval cb s = (Inr t, s') \<Longrightarrow> t_callback t = cb"
  by (auto simp: timer_new_def run_simps split: if_splits)

lemma timer_start_callback: "timer_start cb t s = (Inr t', s') \<Longrightarrow> t_callback t' = t_callback t"
  by (auto dest: timer_start_ok(1))

section \<open>Processes\<close>

lemma ef_seq_reset_timer:
  assumes i: "i < length (j_processes j)" and cb: "cb \<in> {TcStartTime jid i, TcStopTime jid i}"
    and n: "\<And>t. t_callback t = cb \<Longrightarrow> evolves_from jid (upd_proc i (\<lambda>p. p\<lparr>p_timer := Some t\<rparr>) j) n"
  shows "evolves_from jid j (seqM (proc_reset_timer jid i interval cb) n)"
  unfolding proc_reset_timer_def seq_assoc
proof (rule ef_bind_quiet_post [OF qu.timer_R(2) timer_new_callback], assumption)
  fix t :: "timer_callback timer"
  assume t: "t_callback t = cb"
  have "proc_update jid i (j_config j) p (p\<lparr>p_timer := Some t\<rparr>)" for p
  proof -
    have "proc_step (j_config j) (view_proc p) (view_proc (p\<lparr>p_timer := Some t\<rparr>))"
    proof (cases "is_start_time cb")
      case True
      then show ?thesis using t ps_arm [of "j_config j" "view_proc p"] by (simp add: view_proc_def)
    next
      case False
      then show ?thesis using t ps_disarm [of "j_config j" "view_proc p"] by (simp add: view_proc_def)
    qed
    then show ?thesis using t cb by (simp add: proc_update_def)
  qed
  with i t show "evolves_from jid j (bindM (get_proc jid i) (\<lambda>p.
      seqM (mod_proc jid i (\<lambda>p. p\<lparr>p_timer := Some t\<rparr>)) (seqM (timer_release (p_timer p)) n)))"
    by (intro ef_read_proc ef_seq_mod_proc ef_seq_quiet qu.timer_R n)
qed

lemma view_timer_same:
  "p_timer p = Some t \<Longrightarrow> t_callback t' = t_callback t \<Longrightarrow>
     view_proc (p\<lparr>p_timer := Some t'\<rparr>) = view_proc p" for t' :: "timer_callback timer"
  by (simp add: view_proc_def)

lemma ef_seq_start_timer:
  assumes i: "i < length (j_processes j)" and t: "p_timer (j_processes j ! i) = Some t"
    and cb: "t_callback t \<in> {TcStartTime jid i, TcStopTime jid i}"
    and n: "\<And>t'. t_callback t' = t_callback t \<Longrightarrow>
      evolves_from jid (upd_proc i (\<lambda>p. p\<lparr>p_timer := Some t'\<rparr>) j) n"
  shows "evolves_from jid j (seqM (proc_start_timer jid i) n)"
proof -
  have "evolves_from jid j (bindM (timer_start (CbTimer jid i (t_id t)) t)
      (\<lambda>t'. seqM (mod_proc jid i (\<lambda>p. p\<lparr>p_timer := Some t'\<rparr>)) n))"
  proof (rule ef_bind_quiet_post [OF qu.timer_R(5) timer_start_callback], assumption)
    fix t' :: "timer_callback timer"
    assume t': "t_callback t' = t_callback t"
    with i t cb n show "evolves_from jid j (seqM (mod_proc jid i (\<lambda>p. p\<lparr>p_timer := Some t'\<rparr>)) n)"
      by (intro ef_seq_mod_proc) (auto simp: proc_update_def view_timer_same)
  qed
  then show ?thesis
    unfolding proc_start_timer_def seq_assoc using t by (intro ef_read_proc) (simp add: seq_assoc)
qed

lemma proc_update_detail:
  "proc_update jid i c p (p\<lparr>p_pid := x\<rparr>)" "proc_update jid i c p (p\<lparr>p_fd := y\<rparr>)"
  by (simp_all add: proc_update_def view_proc_def)

lemma ef_trivial: "evolves_from jid j (returnM x)" "evolves_from jid j (throwM e)"
  by (auto intro: evolves_fromI ev.return_keeps ev.throw_keeps)

lemma ef_seq_log: "evolves_from jid j n \<Longrightarrow> evolves_from jid j (seqM (logM t msg) n)"
  by (rule ef_seq_quiet [OF qu.log_R])

lemma ef_if:
  "(b \<Longrightarrow> evolves_from jid j m) \<Longrightarrow> (\<not> b \<Longrightarrow> evolves_from jid j n) \<Longrightarrow>
     evolves_from jid j (if b then m else n)"
  by simp

lemma ef_throw: "evolves_from jid j (bindM errno_text (\<lambda>err. throwM (e err)))"
  by (intro evolves_fromI ec.surroundings_keeps)

text \<open>A start leaves the job as it is but for the started process.\<close>

lemma ef_seq_process_parent:
  assumes i: "i < length (j_processes j)" and st: "p_state (j_processes j ! i) \<in> startable"
    and t: "p_timer (j_processes j ! i) = Some t" "t_callback t = TcStartTime jid i"
    and n: "\<And>f. p_name (f (j_processes j ! i)) = p_name (j_processes j ! i) \<Longrightarrow>
      evolves_from jid (upd_proc i f j) n"
  shows "evolves_from jid j (seqM (process_parent jid i pid name) n)"
proof -
  have launch: "proc_update jid i c (j_processes j ! i) ((j_processes j ! i)\<lparr>p_state := P_STARTING\<rparr>)" for c
    using st t ps_launch [of "view_proc (j_processes j ! i)" c] by (simp add: proc_update_def view_proc_def)
  show ?thesis
    unfolding process_parent_def seq_assoc pidfd_open_def using i t launch
    by (intro ef_seq_mod_proc ef_seq_start_timer ef_seq_quiet ef_bind_quiet)
      (auto simp: upd_proc_nth upd_proc_twice seq_simps seq_assoc proc_update_detail
        intro!: qu.surroundings_keeps ef_throw ef_seq_quiet n)
qed

lemma ef_seq_process_start:
  assumes i: "i < length (j_processes j)" and st: "p_state (j_processes j ! i) \<in> startable"
    and n: "\<And>f. p_name (f (j_processes j ! i)) = p_name (j_processes j ! i) \<Longrightarrow>
      evolves_from jid (upd_proc i f j) n"
  shows "evolves_from jid j (seqM (process_start jid i path argv env config) n)"
  unfolding process_start_def seq_assoc
proof (intro ef_seq_reset_timer i ef_bind_quiet qu.sys_R)
  fix t :: "timer_callback timer" and pid
  assume t: "t_callback t = TcStartTime jid i"
  show "evolves_from jid (upd_proc i (\<lambda>p. p\<lparr>p_timer := Some t\<rparr>) j)
     (seqM (mod_proc jid i (\<lambda>p. p\<lparr>p_pid := pid\<rparr>)) (bindM (get_proc jid i) (\<lambda>p. seqM
        (if pid = -1 then bindM errno_text (\<lambda>err. throwM (StdExn
            (''Fork failed for process '' @ quoted (p_name p) @ '': '' @ err)))
         else if pid = 0 then process_child (p_pgid p) path argv env config
         else process_parent jid i pid (p_name p)) n)))"
    using i st t
    by (intro ef_seq_mod_proc ef_read_proc)
      (auto simp: upd_proc_nth upd_proc_twice seq_simps seq_assoc proc_update_detail
        intro!: ef_throw ef_seq_quiet [OF qu.child_R] ef_seq_process_parent n)
qed simp

lemma ef_seq_job_proc_start:
  assumes "i < length (j_processes j)" and "p_state (j_processes j ! i) \<in> startable"
    and "\<And>f. p_name (f (j_processes j ! i)) = p_name (j_processes j ! i) \<Longrightarrow>
      evolves_from jid (upd_proc i f j) n"
  shows "evolves_from jid j (seqM (job_proc_start jid i) n)"
  unfolding job_proc_start_def seq_assoc
proof (rule ef_read_job)
  show "evolves_from jid j (seqM (case j_argv j of
        [] \<Rightarrow> throwM (StdExn ''basic_string: construction from null is not valid'')
      | path # _ \<Rightarrow> process_start jid i path (j_argv j) (j_env j) (j_config j)) n)"
    using assms
    by (cases "j_argv j") (auto simp: seq_simps intro: evolves_fromI ev.throw_keeps ef_seq_process_start)
qed

lemma seq_return_right: "seqM m (returnM ()) = m"
  by (auto simp: fun_eq_iff run_simps split: prod.split sum.split)

lemma ef_job_proc_start:
  assumes "i < length (j_processes j)" and "p_state (j_processes j ! i) \<in> startable"
  shows "evolves_from jid j (job_proc_start jid i)"
proof -
  have "evolves_from jid j (seqM (job_proc_start jid i) (returnM ()))"
    using assms by (intro ef_seq_job_proc_start evolves_fromI ev.return_keeps)
  then show ?thesis by (simp add: seq_return_right)
qed

lemma mod_proc_keeps:
  assumes "\<And>c p. proc_update jid i c p (f p)"
  shows "keeps evolves (mod_proc jid i f)"
proof (rule keepsI)
  fix s :: "'a daemon"
  show "evolves s (snd (mod_proc jid i f s))"
  proof (cases "h_jobs s jid")
    case None
    then show ?thesis by (simp add: mod_proc_run fun_upd_idem evolves_refl)
  next
    case (Some j)
    show ?thesis
    proof (cases "i < length (j_processes j)")
      case True
      then show ?thesis using Some assms ef_mod_proc evolves_fromD by blast
    next
      case False
      then have "upd_proc i f j = j" by (simp add: upd_proc_def list_update_beyond)
      with Some show ?thesis by (simp add: mod_proc_run fun_upd_idem evolves_refl)
    qed
  qed
qed

lemma proc_reset_restarts_ev: "keeps evolves (proc_reset_restarts jid i)"
  unfolding proc_reset_restarts_def
proof (rule mod_proc_keeps)
  fix c and p :: process
  show "proc_update jid i c p (p\<lparr>p_restarts := 0\<rparr>)"
    using ps_reset [of c "view_proc p"] by (simp add: proc_update_def view_proc_def)
qed

section \<open>Jobs\<close>

lemma job_restart_processes_ev: "keeps evolves (job_restart_processes jid)"
  unfolding job_restart_processes_def
  by (intro ev.bind_keeps ec.get_R ev.for_keeps ev.seq_keeps proc_reset_restarts_ev read_proc_keeps
      ef_when ef_job_proc_start) (auto simp: startable_def)

lemma job_state_update:
  assumes "spec_step (view_job j) ((view_job j)\<lparr>sj_state := st\<rparr>)"
  shows "job_update jid j (j\<lparr>j_state := st\<rparr>)"
  using assms by (auto simp: job_update_def view_job_def timers_own_def)

lemma ef_set_job_state:
  "spec_step (view_job j) ((view_job j)\<lparr>sj_state := st\<rparr>) \<Longrightarrow> evolves_from jid j (set_job_state jid st)"
  unfolding set_job_state_def by (intro ef_mod_job job_state_update)

lemma mod_job_keeps:
  assumes "\<And>j. job_update jid j (g j)"
  shows "keeps evolves (mod_job jid g)"
proof (rule keepsI)
  fix s :: "'a daemon"
  show "evolves s (snd (mod_job jid g s))"
  proof (cases "h_jobs s jid")
    case None
    then show ?thesis by (simp add: mod_job_run fun_upd_idem evolves_refl)
  next
    case (Some j)
    then show ?thesis using assms ef_mod_job evolves_fromD by blast
  qed
qed

lemma set_starting_ev: "keeps evolves (set_job_state jid J_STARTING)"
  unfolding set_job_state_def by (intro mod_job_keeps job_state_update ss_starting)

lemma pgid_update: "job_update jid j (j\<lparr>j_pgid := g\<rparr>)"
  by (simp add: job_update_def view_job_def timers_own_def)

lemma create_update:
  assumes "j_state j = J_EMPTY"
  shows "job_update jid j
    (j\<lparr>j_processes := j_processes j @ [process_new (c_name (j_config j) @ ''_'' @ to_string (int n)) pg]\<rparr>)"
  using ss_create [of "view_job j" n] assms
  by (auto simp: job_update_def view_job_def view_proc_def process_new_def timers_own_def nth_append
      less_Suc_eq)

lemma process_new_simps [simp]:
  "p_state (process_new name pg) = P_STOPPED" "p_name (process_new name pg) = name"
  by (simp_all add: process_new_def)

text \<open>The loop of \<open>startProcesses\<close> keeps the job's state \<open>EMPTY\<close>.\<close>

lemma ef_seq_create_process:
  assumes "j_state j = J_EMPTY" and n: "\<And>j'. j_state j' = J_EMPTY \<Longrightarrow> evolves_from jid j' n"
  shows "evolves_from jid j (seqM (job_create_process jid k) n)"
  unfolding job_create_process_def seq_assoc Let_def using assms(1)
  by (intro ef_read_job ef_seq_mod_job create_update ef_seq_job_proc_start)
    (auto simp: startable_def seq_simps seq_assoc
      intro!: ef_read_job ef_read_proc ef_seq_mod_job pgid_update n)

lemma ef_create_loop:
  assumes "j_state j = J_EMPTY"
  shows "evolves_from jid j (forM (job_create_process jid) ns)"
  using assms
proof (induction ns arbitrary: j)
  case Nil
  show ?case by (simp add: evolves_fromI ev.return_keeps)
next
  case (Cons n ns)
  then show ?case by (auto intro!: ef_seq_create_process)
qed

lemma ef_job_start_processes: "j_state j = J_EMPTY \<Longrightarrow> evolves_from jid j (job_start_processes jid)"
  unfolding job_start_processes_def
  by (intro ef_read_job) (auto intro!: ef_create_loop ef_trivial)

lemma job_start_ev: "keeps evolves (job_start jid)"
  unfolding job_start_def
proof (rule read_job_keeps, rule ef_seq_log, rule ef_seq [OF _ set_starting_ev])
  fix j
  show "evolves_from jid j (case j_state j of
         J_STOPPING \<Rightarrow> job_restart_processes jid | J_STOPPED \<Rightarrow> job_restart_processes jid
       | J_EMPTY \<Rightarrow> job_start_processes jid | _ \<Rightarrow> returnM ())"
    by (auto intro!: ef_job_start_processes evolves_fromI [OF job_restart_processes_ev] ef_trivial
        split: job_state.split)
qed

text \<open>
  \<open>onStop\<close> of the manager, called for a job that is \<open>EMPTY\<close> or \<open>STOPPED\<close>: in a well-formed heap
  the name leads back to the caller.
\<close>

lemma ef_manager_on_stop:
  assumes st: "j_state j \<in> {J_EMPTY, J_STOPPED}"
  shows "evolves_from jid j (manager_on_stop (c_name (j_config j)) :: ('n, unit) dprog)"
  unfolding evolves_from_def
proof (intro allI impI)
  fix s :: "'n daemon"
  assume s: "h_jobs s jid = Some j"
  show "evolves s (snd (manager_on_stop (c_name (j_config j)) s))"
  proof (cases "heap_ok s")
    case False
    then show ?thesis by (simp add: evolves_def)
  next
    case True
    with s have "um_find (c_name (j_config j)) (m_jobs s) = Some jid"
      by (auto simp: heap_ok_def)
    moreover have "evolves s (snd (set_job_state jid J_REMOVE s))"
      and "evolves s (snd (set_job_state jid J_REPLACE s))"
      using st s by (auto intro!: evolves_fromD [OF ef_set_job_state] ss_marked simp: view_job_def)
    ultimately show ?thesis
      using s by (auto simp: manager_on_stop_def run_simps evolves_refl split: option.split)
  qed
qed

lemma ef_seq_set_job_state:
  "spec_step (view_job j) ((view_job j)\<lparr>sj_state := st\<rparr>) \<Longrightarrow>
     evolves_from jid (j\<lparr>j_state := st\<rparr>) n \<Longrightarrow> evolves_from jid j (seqM (set_job_state jid st) n)"
  unfolding set_job_state_def by (intro ef_seq_mod_job job_state_update)

lemma all_in_states_view:
  "all_processes_in_states states j \<Longrightarrow> p \<in> set (sj_procs (view_job j)) \<Longrightarrow> sp_state p \<in> set states"
  by (auto simp: all_processes_in_states_def view_job_def view_proc_def list_all_iff)

lemma ef_job_on_stop:
  assumes "i < length (j_processes j)" and "p_state (j_processes j ! i) = P_STOPPED"
  shows "evolves_from jid j (job_on_stop jid i)"
  unfolding job_on_stop_def
proof (rule ef_read_job)
  have stopped: "evolves_from jid j (seqM (set_job_state jid J_STOPPED) (manager_on_stop (c_name (j_config j))))"
    if "all_processes_in_states [P_STOPPED] j"
  proof (rule ef_seq_set_job_state)
    show "spec_step (view_job j) ((view_job j)\<lparr>sj_state := J_STOPPED\<rparr>)"
      using all_in_states_view [OF that] by (intro ss_stopped) (fastforce simp: startable_def)
    show "evolves_from jid (j\<lparr>j_state := J_STOPPED\<rparr>) (manager_on_stop (c_name (j_config j)))"
      using ef_manager_on_stop [of "j\<lparr>j_state := J_STOPPED\<rparr>"] by simp
  qed
  show "evolves_from jid j (case j_state j of
       J_STARTING \<Rightarrow> job_proc_start jid i
     | J_STOPPING \<Rightarrow> if \<not> all_processes_in_states [P_STOPPED] j then returnM ()
         else seqM (set_job_state jid J_STOPPED) (manager_on_stop (c_name (j_config j)))
     | _ \<Rightarrow> bindM (get_proc jid i) (\<lambda>p. logM LT_Debug
           (''Process stopped while job is in a weird state'' @ p_name p @ jobStateEnumToString (j_state j))))"
    using assms stopped
    by (cases "j_state j")
      (auto simp: startable_def intro!: ef_job_proc_start ef_trivial ef_read_proc
        evolves_fromI [OF ec.log_R])
qed

lemma ef_job_settle: "evolves_from jid j (job_settle jid)"
  unfolding job_settle_def
  by (intro ef_read_job ef_when ef_set_job_state ss_stopped)
    (fastforce simp: startable_def dest: all_in_states_view)

lemma ef_add_restart:
  assumes i: "i < length (j_processes j)"
    and p: "p_restarts (j_processes j ! i) \<noteq> c_start_retries (j_config j)"
    and n: "evolves_from jid (upd_proc i (\<lambda>p. p\<lparr>p_restarts := p_restarts p + 1\<rparr>) j) n"
  shows "evolves_from jid j (seqM (proc_add_restart jid i) n)"
  unfolding proc_add_restart_def seq_assoc
proof (rule ef_read_proc)
  let ?p = "j_processes j ! i"
  have "proc_update jid i (j_config j) ?p (?p\<lparr>p_restarts := p_restarts ?p + 1\<rparr>)"
    if "p_restarts ?p \<noteq> 2 ^ 31 - 1"
    using that p ps_count [of "view_proc ?p" "j_config j"] by (simp add: proc_update_def view_proc_def)
  then have "evolves_from jid j (seqM (mod_proc jid i (\<lambda>p. p\<lparr>p_restarts := p_restarts p + 1\<rparr>)) n)"
    if "p_restarts ?p \<noteq> 2 ^ 31 - 1"
    using i n that by (intro ef_seq_mod_proc) auto
  then show "evolves_from jid j (seqM (if p_restarts ?p = 2 ^ 31 - 1
        then throwM (Undefined ''signed overflow'')
        else mod_proc jid i (\<lambda>p. p\<lparr>p_restarts := p_restarts p + 1\<rparr>)) n)"
    by (simp add: seq_simps ef_trivial)
qed

lemma ef_job_on_exit:
  assumes i: "i < length (j_processes j)" and st: "p_state (j_processes j ! i) \<in> {P_EXITED, P_BACKOFF}"
  shows "evolves_from jid j (job_on_exit jid i code)"
proof -
  let ?j = "upd_proc i (\<lambda>p. p\<lparr>p_restarts := p_restarts p + 1\<rparr>) j"
  have again: "evolves_from jid ?j (seqM (set_job_state jid J_STARTING) (job_proc_start jid i))"
    using i st
    by (intro ef_seq_set_job_state ss_starting ef_job_proc_start) (auto simp: upd_proc_nth startable_def)
  show ?thesis
    unfolding job_on_exit_def Let_def
    using i again
    by (intro ef_read_job ef_read_proc)
      (auto simp: seq_simps intro!: ef_seq_log ef_job_settle ef_add_restart
        split: restart_policy.split)
qed

lemma job_on_surpassed_ev: "keeps evolves (job_on_process_surpassed_start_time jid)"
  unfolding job_on_process_surpassed_start_time_def
  by (intro read_job_keeps ef_when ef_set_job_state ss_running) (fastforce dest: all_in_states_view)

section \<open>The processes' handlers\<close>

lemma ef_seq_set_proc_state:
  assumes "i < length (j_processes j)"
    and "proc_step (j_config j) (view_proc (j_processes j ! i)) ((view_proc (j_processes j ! i))\<lparr>sp_state := st\<rparr>)"
    and "evolves_from jid (upd_proc i (\<lambda>p. p\<lparr>p_state := st\<rparr>) j) n"
  shows "evolves_from jid j (seqM (set_proc_state jid i st) n)"
  unfolding set_proc_state_def using assms
  by (intro ef_seq_mod_proc) (auto simp: proc_update_def view_proc_def)

lemma ef_set_proc_state:
  "i < length (j_processes j) \<Longrightarrow>
    proc_step (j_config j) (view_proc (j_processes j ! i)) ((view_proc (j_processes j ! i))\<lparr>sp_state := st\<rparr>) \<Longrightarrow>
    evolves_from jid j (set_proc_state jid i st)"
  unfolding set_proc_state_def by (intro ef_mod_proc) (auto simp: proc_update_def view_proc_def)

lemma view_proc_simps [simp]:
  "sp_state (view_proc p) = p_state p" "sp_restarts (view_proc p) = p_restarts p"
  "sp_name (view_proc p) = p_name p"
  by (simp_all add: view_proc_def)

lemma disarmed_view: "p_timer p = None \<Longrightarrow> \<not> sp_armed (view_proc p)"
  by (simp add: view_proc_def)

lemma ef_seq_clear_timer:
  assumes i: "i < length (j_processes j)"
    and n: "evolves_from jid (upd_proc i (\<lambda>p. p\<lparr>p_timer := None\<rparr>) j) n"
  shows "evolves_from jid j (seqM (proc_clear_timer jid i) n)"
  unfolding proc_clear_timer_def seq_assoc
proof (intro ef_read_proc ef_seq_mod_proc ef_seq_quiet qu.timer_R i n)
  show "proc_update jid i (j_config j) (j_processes j ! i) ((j_processes j ! i)\<lparr>p_timer := None\<rparr>)"
    using ps_disarm [of "j_config j" "view_proc (j_processes j ! i)"]
    by (simp add: proc_update_def view_proc_def)
qed

lemma process_kill_ev:
  assumes "i < length (j_processes j)" and "p_state (j_processes j ! i) \<notin> {P_BACKOFF, P_EXITED}"
  shows "evolves_from jid j (process_kill jid i)"
proof -
  have "proc_update jid i (j_config j) (j_processes j ! i) ((j_processes j ! i)\<lparr>p_state := P_STOPPING\<rparr>)"
    using assms(2) ps_signalled [of "view_proc (j_processes j ! i)" "j_config j"]
    by (simp add: proc_update_def view_proc_def)
  with assms(1) show ?thesis
    unfolding process_kill_def pidfd_send_signal_def
    by (intro ef_read_proc ef_bind_quiet qu.sys_R) (auto intro!: ef_trivial ef_seq_log ef_mod_proc)
qed

lemma process_on_stop_time_ev: "keeps evolves (process_on_stop_time jid i)"
  unfolding process_on_stop_time_def
  by (intro read_proc_keeps ef_when ef_seq_log process_kill_ev) auto

lemma process_stop_ev: "keeps evolves (process_stop jid i timeout sig)"
  unfolding process_stop_def
proof (rule read_proc_keeps)
  fix j :: job
  assume i: "i < length (j_processes j)"
  let ?p = "j_processes j ! i"
  have idle: "evolves_from jid j (seqM (set_proc_state jid i P_STOPPED) (job_on_stop jid i))"
    if "p_state ?p = P_BACKOFF \<or> p_state ?p = P_EXITED"
    using i that
    by (intro ef_seq_set_proc_state ps_stopped ef_job_on_stop) (auto simp: startable_def upd_proc_nth)
  have live: "evolves_from jid j (seqM (logM LT_Info msg) (seqM (set_proc_state jid i P_STOPPING)
      (seqM (proc_reset_timer jid i timeout (TcStopTime jid i)) (proc_start_timer jid i))))"
    if "\<not> (p_state ?p = P_BACKOFF \<or> p_state ?p = P_EXITED)" for msg
  proof (intro ef_seq_log ef_seq_set_proc_state ps_signalled i)
    have start: "evolves_from jid (upd_proc i f j) (proc_start_timer jid i)"
      if "p_timer (f ?p) = Some t" "t_callback t = TcStopTime jid i" for f t
      using ef_seq_start_timer [of i "upd_proc i f j" t jid "returnM ()"] i that
      by (simp add: upd_proc_nth seq_return_right ef_trivial)
    show "evolves_from jid (upd_proc i (\<lambda>p. p\<lparr>p_state := P_STOPPING\<rparr>) j)
        (seqM (proc_reset_timer jid i timeout (TcStopTime jid i)) (proc_start_timer jid i))"
      using i by (intro ef_seq_reset_timer) (auto simp: upd_proc_twice intro: start)
  qed (use that in auto)
  show "evolves_from jid j
     (if p_state ?p = P_BACKOFF \<or> p_state ?p = P_EXITED
      then seqM (set_proc_state jid i P_STOPPED) (job_on_stop jid i)
      else bindM (pidfd_send_signal (p_fd ?p) (signal_number sig) 0) (\<lambda>r.
        case signal_key sig of
          None \<Rightarrow> throwM (Undefined ''end iterator'')
        | Some key \<Rightarrow>
            if r = -1 then throwM (StdExn (''Failed to send '' @ key @ '' to process: '' @ p_name ?p))
            else seqM (logM LT_Info (''Sent '' @ key @ '' to process: '' @ p_name ?p))
                (seqM (set_proc_state jid i P_STOPPING)
                (seqM (proc_reset_timer jid i timeout (TcStopTime jid i)) (proc_start_timer jid i)))))"
    using idle live
    by (auto simp: pidfd_send_signal_def intro!: ef_bind_quiet qu.sys_R ef_trivial split: option.split)
qed

lemma process_on_exit_from:
  assumes i: "i < length (j_processes j)" and t: "p_timer (j_processes j ! i) = None"
  shows "evolves_from jid j (process_on_exit jid i status)"
proof -
  note disarmed = disarmed_view [OF t]
  have 1: "evolves_from jid j (seqM (set_proc_state jid i P_STOPPED) (job_on_stop jid i))"
    using i disarmed
    by (intro ef_seq_set_proc_state ps_stopped ef_job_on_stop) (auto simp: upd_proc_nth)
  have 2: "evolves_from jid j (seqM (set_proc_state jid i P_BACKOFF) (job_on_exit jid i code))"
    if "p_state (j_processes j ! i) = P_STARTING" for code
    using i disarmed that
    by (intro ef_seq_set_proc_state ps_backoff ef_job_on_exit) (auto simp: upd_proc_nth)
  have 3: "evolves_from jid j (seqM (set_proc_state jid i P_EXITED) (job_on_exit jid i code))"
    if "p_state (j_processes j ! i) = P_RUNNING" for code
    using i disarmed that
    by (intro ef_seq_set_proc_state ps_exited ef_job_on_exit) (auto simp: upd_proc_nth)
  show ?thesis
    unfolding process_on_exit_def
    by (intro ef_read_proc)
      (cases "p_state (j_processes j ! i)"; simp add: ef_seq_log evolves_fromI [OF ec.log_R] 1 2 3)
qed

lemma process_on_forced_exit_from:
  assumes i: "i < length (j_processes j)" and t: "p_timer (j_processes j ! i) = None"
  shows "evolves_from jid j (process_on_forced_exit jid i status)"
  unfolding process_on_forced_exit_def using i disarmed_view [OF t]
  by (intro ef_read_proc ef_seq_log ef_seq_set_proc_state ps_stopped ef_job_on_stop)
    (auto simp: upd_proc_nth)

lemma process_on_state_change_ev: "keeps evolves (process_on_state_change jid i)"
  unfolding process_on_state_change_def
proof (rule read_proc_keeps)
  fix j :: job
  assume i: "i < length (j_processes j)"
  let ?j = "upd_proc i (\<lambda>p. p\<lparr>p_timer := None\<rparr>) j"
  have t: "i < length (j_processes ?j)" "p_timer (j_processes ?j ! i) = None"
    using i by (simp_all add: upd_proc_nth)
  show "evolves_from jid j (bindM (waitpid (p_pid (j_processes j ! i))) (\<lambda>(result, status).
     if result = -1
     then bindM errno_text (\<lambda>err. throwM (StdExn (''waitpid failed for process ''
            @ quoted (p_name (j_processes j ! i)) @ '': '' @ err)))
     else seqM (proc_clear_timer jid i)
         (seqM (unregisterEvent (p_fd (j_processes j ! i)))
         (if WIFEXITED status then process_on_exit jid i status
          else if WIFSIGNALED status then process_on_forced_exit jid i status
          else set_proc_state jid i P_UNKNOWN))))"
    using i
    by (intro ef_bind_quiet qu.waitpid_R)
      (auto split del: if_split intro!: ef_if ef_throw ef_seq_clear_timer
        ef_seq_quiet [OF qu.unregister_R] process_on_exit_from [OF t] process_on_forced_exit_from [OF t]
        ef_set_proc_state [OF t(1) ps_unknown [OF disarmed_view [OF t(2)]]])
qed

text \<open>
  The start timer's callback runs with the timer still in place, so the process is armed; that
  the timer names its own process is part of the well-formed heap.
\<close>

lemma process_on_start_time_from:
  assumes i: "i < length (j_processes j)" and armed: "sp_armed (view_proc (j_processes j ! i))"
  shows "evolves_from jid j (process_on_start_time jid i)"
  unfolding process_on_start_time_def using assms
  by (intro ef_read_proc ef_seq_log ef_seq_set_proc_state ps_alive
      evolves_fromI [OF job_on_surpassed_ev]) auto

lemma ef_if_timers_own:
  fixes m :: "('n, 'a) dprog"
  assumes "timers_own jid j \<Longrightarrow> evolves_from jid j m"
  shows "evolves_from jid j m"
  unfolding evolves_from_def
proof (intro allI impI)
  fix s :: "'n daemon"
  assume s: "h_jobs s jid = Some j"
  show "evolves s (snd (m s))"
  proof (cases "heap_ok s")
    case True
    then have "timers_own jid j" using s by (simp add: heap_ok_def)
    with assms s show ?thesis by (simp add: evolves_from_def)
  qed (simp add: evolves_def)
qed

lemma timer_expired_ev: "keeps evolves (timer_expired jid i tid :: ('n, unit) dprog)"
  unfolding timer_expired_def
proof (rule read_proc_keeps, rule ef_if_timers_own)
  fix j :: job
  assume i: "i < length (j_processes j)" and own: "timers_own jid j"
  show "evolves_from jid j ((case p_timer (j_processes j ! i) of
       None \<Rightarrow> throwM (Undefined ''timer destroyed'')
     | Some t \<Rightarrow> if t_id t \<noteq> tid then throwM (Undefined ''timer destroyed'')
         else timer_on_expire (\<lambda>u. mod_proc jid i (\<lambda>p. p\<lparr>p_timer := Some u\<rparr>)) timer_callback_run t)
       :: ('n, unit) dprog)"
  proof (cases "p_timer (j_processes j ! i)")
    case (Some t)
    let ?j = "upd_proc i (\<lambda>p. p\<lparr>p_timer := Some (t\<lparr>t_state := T_STOPPED\<rparr>)\<rparr>) j"
    have cb: "t_callback t \<in> {TcStartTime jid i, TcStopTime jid i}"
      using own i Some by (simp add: timers_own_def)
    then have run: "evolves_from jid ?j (timer_callback_run (t_callback t) :: ('n, unit) dprog)"
      using i evolves_fromI [OF process_on_stop_time_ev]
      by (auto simp: upd_proc_nth view_proc_def intro!: process_on_start_time_from)
    have "evolves_from jid j
        (timer_on_expire (\<lambda>u. mod_proc jid i (\<lambda>p. p\<lparr>p_timer := Some u\<rparr>)) timer_callback_run t
          :: ('n, unit) dprog)"
      unfolding timer_on_expire_def using i Some run cb
      by (intro ef_seq_mod_proc ef_bind_quiet qu.sys_R)
        (auto simp: proc_update_def view_timer_same intro!: ef_trivial ef_seq_quiet [OF qu.unregister_R])
    with Some show ?thesis by (simp add: ef_trivial)
  qed (simp add: ef_trivial)
qed

lemma job_stop_ev: "keeps evolves (job_stop jid :: ('n, unit) dprog)"
  unfolding job_stop_def
proof (rule read_job_keeps)
  fix j :: job
  have loop: "keeps evolves (forM (\<lambda>i. process_stop jid i (c_stop_time (j_config j))
      (c_stop_signal (j_config j))) is :: ('n, unit) dprog)" for "is"
    by (intro ev.for_keeps process_stop_ev)
  have "evolves_from jid j (seqM (set_job_state jid J_STOPPING) m)"
    if "j_state j \<notin> {J_EMPTY, J_STOPPED, J_STOPPING}" "keeps evolves m" for m :: "('n, unit) dprog"
    using that by (intro ef_seq_set_job_state ss_stopping evolves_fromI) (auto simp: view_job_def)
  then show "evolves_from jid j ((case j_state j of
       J_STOPPING \<Rightarrow> returnM ()
     | J_EMPTY \<Rightarrow> manager_on_stop (c_name (j_config j))
     | J_STOPPED \<Rightarrow> manager_on_stop (c_name (j_config j))
     | _ \<Rightarrow> seqM (set_job_state jid J_STOPPING)
         (forM (\<lambda>i. process_stop jid i (c_stop_time (j_config j)) (c_stop_signal (j_config j)))
            [0..<length (j_processes j)])) :: ('n, unit) dprog)"
    using loop by (cases "j_state j") (auto intro: ef_trivial ef_manager_on_stop)
qed

end
