(* ===== verification/Job_Config_Props.thy ===== *)
theory Job_Config_Props
  imports Job_Config
begin

text \<open>
  What the configuration loader guarantees: the parsers write disjoint members and read none, so
  the result depends neither on the unordered iteration over \<open>nodes\<close> nor on the indeterminate
  members; values are in range; the loader keeps the good jobs and skips the bad ones.
\<close>

section \<open>Each parser's effect\<close>

text \<open>The updates an option may make: functions of one member.\<close>

fun option_updates :: "config_option \<Rightarrow> (jobconfig \<Rightarrow> jobconfig) set" where
  "option_updates OptCmd = range c_cmd_update"
| "option_updates OptNumprocs = range c_numprocs_update"
| "option_updates OptUmask = range c_umask_update"
| "option_updates OptWorkingdir = range c_working_dir_update"
| "option_updates OptAutostart = range c_autostart_update"
| "option_updates OptAutorestart = range c_restart_policy_update"
| "option_updates OptExitcodes = range c_exit_codes_update"
| "option_updates OptStartretries = range c_start_retries_update"
| "option_updates OptStarttime = range c_start_time_update"
| "option_updates OptStopsignal = range c_stop_signal_update"
| "option_updates OptStoptime = range c_stop_time_update"
| "option_updates OptStdout = range c_out_update"
| "option_updates OptStderr = range c_err_update"
| "option_updates OptEnv = range c_env_update"

lemma option_updates_name: "u \<in> option_updates k \<Longrightarrow> c_name (u obj) = c_name obj"
  by (cases k) auto

lemma option_updates_commute:
  "u \<in> option_updates k \<Longrightarrow> v \<in> option_updates l \<Longrightarrow> k \<noteq> l \<Longrightarrow> u (v obj) = v (u obj)"
  by (cases k; cases l) auto

text \<open>
  The common shape: a parser's outcome is decided by the node (and the job's name, for messages)
  and is an exception or an update of its own member, the exit codes and the environment being
  read only in their initial, empty state.
\<close>

definition fresh_obj :: "jobconfig \<Rightarrow> bool" where
  "fresh_obj obj \<longleftrightarrow> c_exit_codes obj = [] \<and> c_env obj = []"

fun copy_member :: "config_option \<Rightarrow> jobconfig \<Rightarrow> jobconfig \<Rightarrow> jobconfig" where
  "copy_member OptCmd o' = c_cmd_update (\<lambda>_. c_cmd o')"
| "copy_member OptNumprocs o' = c_numprocs_update (\<lambda>_. c_numprocs o')"
| "copy_member OptUmask o' = c_umask_update (\<lambda>_. c_umask o')"
| "copy_member OptWorkingdir o' = c_working_dir_update (\<lambda>_. c_working_dir o')"
| "copy_member OptAutostart o' = c_autostart_update (\<lambda>_. c_autostart o')"
| "copy_member OptAutorestart o' = c_restart_policy_update (\<lambda>_. c_restart_policy o')"
| "copy_member OptExitcodes o' = c_exit_codes_update (\<lambda>_. c_exit_codes o')"
| "copy_member OptStartretries o' = c_start_retries_update (\<lambda>_. c_start_retries o')"
| "copy_member OptStarttime o' = c_start_time_update (\<lambda>_. c_start_time o')"
| "copy_member OptStopsignal o' = c_stop_signal_update (\<lambda>_. c_stop_signal o')"
| "copy_member OptStoptime o' = c_stop_time_update (\<lambda>_. c_stop_time o')"
| "copy_member OptStdout o' = c_out_update (\<lambda>_. c_out o')"
| "copy_member OptStderr o' = c_err_update (\<lambda>_. c_err o')"
| "copy_member OptEnv o' = c_env_update (\<lambda>_. c_env o')"

definition effect_of ::
  "config_option \<Rightarrow> 'n config_env \<Rightarrow> string \<Rightarrow> 'n \<Rightarrow> exn + (jobconfig \<Rightarrow> jobconfig)" where
  "effect_of k E name n =
     bindE (parser_of k E (raw_config\<lparr>c_name := name\<rparr>) n) (\<lambda>o'. Inr (copy_member k o'))"

lemmas parser_defs = parseCmd_def parseNumberProcesses_def parseUnMask_def parseWorkingDir_def
  parseAutoStart_def parseAutoRestart_def parseExitCodes_def parseStartRetries_def
  parseStartTime_def parseStopSignal_def parseStopTime_def parseSTDOUT_def parseSTDERR_def
  parseENV_def

lemma effect_of_updates: "effect_of k E name n = Inr u \<Longrightarrow> u \<in> option_updates k"
  by (cases k) (auto simp: effect_of_def bindE_Inr)

lemma parser_effect:
  assumes "(k = OptExitcodes \<longrightarrow> c_exit_codes obj = []) \<and> (k = OptEnv \<longrightarrow> c_env obj = [])"
  shows "parser_of k E obj n = bindE (effect_of k E (c_name obj) n) (\<lambda>u. Inr (u obj))"
  using assms
  by (cases k)
    (auto simp: effect_of_def parser_defs bindE_def raw_config_def
      split: sum.splits option.splits if_splits)

section \<open>Order and initial content do not matter\<close>

definition option_effect :: "'n config_env \<Rightarrow> 'n \<Rightarrow> string \<Rightarrow> config_option \<Rightarrow> exn + (jobconfig \<Rightarrow> jobconfig)" where
  "option_effect E config name k = bindE (y_index E config (option_name k)) (effect_of k E name)"

lemma option_effect_updates: "option_effect E config name k = Inr u \<Longrightarrow> u \<in> option_updates k"
  by (auto simp: option_effect_def bindE_Inr dest: effect_of_updates)

definition effect_fun :: "'n config_env \<Rightarrow> 'n \<Rightarrow> string \<Rightarrow> config_option \<Rightarrow> jobconfig \<Rightarrow> jobconfig" where
  "effect_fun E config name k = (case option_effect E config name k of Inr u \<Rightarrow> u | Inl _ \<Rightarrow> id)"

definition effect_ok :: "'n config_env \<Rightarrow> 'n \<Rightarrow> string \<Rightarrow> config_option \<Rightarrow> bool" where
  "effect_ok E config name k = (case option_effect E config name k of Inr _ \<Rightarrow> True | Inl _ \<Rightarrow> False)"

lemma updates_keep_fresh:
  "u \<in> option_updates k \<Longrightarrow> k \<noteq> OptExitcodes \<Longrightarrow> c_exit_codes (u obj) = c_exit_codes obj"
  "u \<in> option_updates k \<Longrightarrow> k \<noteq> OptEnv \<Longrightarrow> c_env (u obj) = c_env obj"
  by (cases k; auto)+

text \<open>No option twice, and the two members that are read still empty.\<close>

definition ready :: "config_option list \<Rightarrow> jobconfig \<Rightarrow> bool" where
  "ready ks obj \<longleftrightarrow> distinct ks \<and> (OptExitcodes \<in> set ks \<longrightarrow> c_exit_codes obj = []) \<and>
     (OptEnv \<in> set ks \<longrightarrow> c_env obj = [])"

lemma ready_step:
  assumes "ready (k # ks) obj" and "u \<in> option_updates k"
  shows "ready ks (u obj)"
proof -
  have "OptExitcodes \<in> set ks \<longrightarrow> k \<noteq> OptExitcodes" "OptEnv \<in> set ks \<longrightarrow> k \<noteq> OptEnv"
    using assms(1) by (auto simp: ready_def)
  with assms updates_keep_fresh [OF assms(2), of obj] show ?thesis
    by (metis distinct.simps(2) list.set_intros(2) ready_def)
qed

lemma parse_options_step:
  assumes "ready (k # ks) obj"
  shows "parse_options E config (k # ks) obj =
      bindE (option_effect E config (c_name obj) k) (\<lambda>u. parse_options E config ks (u obj))"
proof -
  have "parser_of k E obj n = bindE (effect_of k E (c_name obj) n) (\<lambda>u. Inr (u obj))" for n
    using assms by (intro parser_effect) (auto simp: ready_def)
  then show ?thesis
    by (simp add: option_effect_def bindE_assoc)
qed

lemma parse_options_effects:
  assumes "ready ks obj"
  shows "if list_all (effect_ok E config (c_name obj)) ks
         then parse_options E config ks obj = Inr (fold (effect_fun E config (c_name obj)) ks obj)
         else \<exists>e. parse_options E config ks obj = Inl e"
  using assms
proof (induction ks arbitrary: obj)
  case Nil
  then show ?case by simp
next
  case (Cons k ks)
  show ?case
  proof (cases "option_effect E config (c_name obj) k")
    case (Inl e)
    with parse_options_step [OF Cons.prems, of E config] show ?thesis
      by (simp add: effect_ok_def del: parse_options.simps)
  next
    case (Inr u)
    note up = option_effect_updates [OF Inr]
    from Cons.IH [OF ready_step [OF Cons.prems up]] parse_options_step [OF Cons.prems, of E config] Inr
    show ?thesis
      by (simp add: option_updates_name [OF up] effect_ok_def effect_fun_def del: parse_options.simps)
  qed
qed

lemma effect_fun_commute:
  "k \<noteq> l \<Longrightarrow> effect_fun E config name k \<circ> effect_fun E config name l
      = effect_fun E config name l \<circ> effect_fun E config name k"
  by (auto simp: effect_fun_def fun_eq_iff split: sum.splits
      dest!: option_effect_updates intro: option_updates_commute)

definition same_outcome :: "exn + 'a \<Rightarrow> exn + 'a \<Rightarrow> bool" where
  "same_outcome a b \<longleftrightarrow> (case a of
     Inl _ \<Rightarrow> (case b of Inl _ \<Rightarrow> True | Inr _ \<Rightarrow> False)
   | Inr x \<Rightarrow> (case b of Inl _ \<Rightarrow> False | Inr y \<Rightarrow> x = y))"

lemma parse_options_order:
  assumes "mset ks = mset ks'" and "distinct ks" and "fresh_obj obj"
  shows "same_outcome (parse_options E config ks obj) (parse_options E config ks' obj)"
proof -
  have d': "distinct ks'"
    using assms(1,2) by (metis distinct_count_atmost_1 set_mset_mset)
  have all: "list_all P ks \<longleftrightarrow> list_all P ks'" for P
    using assms(1) by (metis list_all_iff set_mset_mset)
  have folds: "fold (effect_fun E config name) ks = fold (effect_fun E config name) ks'" for name
  proof (rule fold_multiset_equiv [OF _ assms(1)])
    fix k l
    show "effect_fun E config name k \<circ> effect_fun E config name l
        = effect_fun E config name l \<circ> effect_fun E config name k"
      using effect_fun_commute by (cases "k = l") auto
  qed
  have "ready ks obj" "ready ks' obj"
    using assms d' by (auto simp: ready_def fresh_obj_def)
  from this [THEN parse_options_effects, of E config] folds [of "c_name obj"]
    all [of "effect_ok E config (c_name obj)"]
  show ?thesis
    by (auto simp: same_outcome_def split: if_splits)
qed

section \<open>Properties of the loader\<close>

lemma effect_fun_copy:
  "effect_ok E config name k \<Longrightarrow> \<exists>o'. effect_fun E config name k = copy_member k o'"
  by (auto simp: effect_ok_def effect_fun_def option_effect_def effect_of_def bindE_Inr
      split: sum.splits)

lemma fold_nodes_total:
  assumes "list_all (effect_ok E config name) nodes" and "c_name a = c_name b"
  shows "fold (effect_fun E config name) nodes a = fold (effect_fun E config name) nodes b"
proof -
  have "\<forall>k \<in> set nodes. \<exists>o'. effect_fun E config name k = copy_member k o'"
    using assms(1) effect_fun_copy by (fastforce simp: list_all_iff)
  then obtain m where m: "\<forall>k \<in> set nodes. effect_fun E config name k = copy_member k (m k)"
    by metis
  then show ?thesis
    using assms(2) by (simp add: nodes_def)
qed

lemma same_outcome_sym: "same_outcome a b \<Longrightarrow> same_outcome b a"
  by (auto simp: same_outcome_def split: sum.splits)

lemma same_outcome_trans: "same_outcome a b \<Longrightarrow> same_outcome b c \<Longrightarrow> same_outcome a c"
  by (auto simp: same_outcome_def split: sum.splits)

lemma same_outcome_bind: "(\<And>x. same_outcome (f x) (g x)) \<Longrightarrow> same_outcome (bindE r f) (bindE r g)"
  by (cases r) (auto simp: same_outcome_def)

lemma distinct_nodes: "distinct nodes"
  by (simp add: nodes_def)

text \<open>
  C32. A job's configuration is well defined although the constructor walks an unordered map of
  parsers and starts from uninitialised members: every order of the parsers and every initial
  content give the same configuration, or all fail.
\<close>

theorem config_order_independent:
  assumes "mset order = mset nodes"
  shows "same_outcome (job_config_new raw order E name config) (job_config_new raw' nodes E name config)"
proof -
  have "same_outcome (parse_options E config order a) (parse_options E config nodes b)"
    if f: "fresh_obj a" "fresh_obj b" and n: "c_name a = name" "c_name b = name" for a b
  proof (rule same_outcome_trans [OF same_outcome_sym [OF parse_options_order]])
    show "mset nodes = mset order" "distinct nodes" "fresh_obj a"
      using assms f distinct_nodes by simp_all
    have "ready nodes a" "ready nodes b"
      using f distinct_nodes by (simp_all add: ready_def fresh_obj_def)
    from this [THEN parse_options_effects, of E config]
    show "same_outcome (parse_options E config nodes a) (parse_options E config nodes b)"
      using fold_nodes_total [of E config name a b] n
      by (auto simp: same_outcome_def split: if_splits)
  qed
  then show ?thesis
    unfolding job_config_new_def by (intro same_outcome_bind) (simp add: fresh_obj_def)
qed

text \<open>An example document model, for the witnesses: undefined, text, number, map.\<close>

datatype doc = DUndef | DText string | DNum int | DMap "(string \<times> doc) list"

fun doc_entries :: "doc \<Rightarrow> (doc \<times> doc) list" where
  "doc_entries (DMap es) = map (\<lambda>(k, v). (DText k, v)) es"
| "doc_entries _ = []"

fun doc_index :: "doc \<Rightarrow> string \<Rightarrow> exn + doc" where
  "doc_index (DMap es) k = Inr (case map_of es k of None \<Rightarrow> DUndef | Some v \<Rightarrow> v)"
| "doc_index _ k = Inl (StdExn ''bad subscript'')"

definition example_config_env :: "doc config_env" where
  "example_config_env = \<lparr>y_is_defined = (\<lambda>n. n \<noteq> DUndef),
     y_is_scalar = (\<lambda>n. case n of DText _ \<Rightarrow> True | DNum _ \<Rightarrow> True | _ \<Rightarrow> False),
     y_is_null = (\<lambda>n. False),
     y_as_string = (\<lambda>n. case n of DText s \<Rightarrow> Inr s | _ \<Rightarrow> Inl (StdExn ''bad conversion'')),
     y_as_i32 = (\<lambda>n. case n of DNum i \<Rightarrow> Inr i | _ \<Rightarrow> Inl (StdExn ''bad conversion'')),
     y_as_bool = (\<lambda>n. case n of DText s \<Rightarrow> if s = ''true'' then Inr True else if s = ''false''
        then Inr False else Inl (StdExn ''bad conversion'') | _ \<Rightarrow> Inl (StdExn ''bad conversion'')),
     y_as_i32s = (\<lambda>n. Inl (StdExn ''bad conversion'')),
     y_entries = doc_entries, y_index = doc_index, fs_exists = (\<lambda>p. Inr (p \<noteq> []))\<rparr>"

theorem config_order_independent_witness:
  "same_outcome
     (job_config_new raw_config (rev nodes) example_config_env ''ls'' (DMap [(''cmd'', DText ''/bin/ls'')]))
     (job_config_new (raw_config\<lparr>c_start_retries := 99\<rparr>) nodes example_config_env ''ls''
        (DMap [(''cmd'', DText ''/bin/ls'')]))"
  by (rule config_order_independent) simp

section \<open>Values in range\<close>

fun same_member :: "config_option \<Rightarrow> jobconfig \<Rightarrow> jobconfig \<Rightarrow> bool" where
  "same_member OptUmask a b \<longleftrightarrow> c_umask a = c_umask b"
| "same_member OptExitcodes a b \<longleftrightarrow> c_exit_codes a = c_exit_codes b"
| "same_member OptStdout a b \<longleftrightarrow> c_out a = c_out b"
| "same_member OptStderr a b \<longleftrightarrow> c_err a = c_err b"
| "same_member OptEnv a b \<longleftrightarrow> c_env a = c_env b"
| "same_member _ a b \<longleftrightarrow> True"

lemma parser_update: "parser_of l E obj n = Inr obj' \<Longrightarrow> \<exists>u \<in> option_updates l. obj' = u obj"
  by (cases l) (auto simp: parser_defs bindE_Inr split: if_splits option.splits)

lemma update_frame: "u \<in> option_updates l \<Longrightarrow> l \<noteq> k \<Longrightarrow> same_member k (u obj) obj"
  by (cases k; cases l) auto

lemma parser_frame:
  assumes "parser_of l E obj n = Inr obj'"
  shows "l \<noteq> k \<Longrightarrow> same_member k obj' obj" and "c_name obj' = c_name obj"
  using parser_update [OF assms] by (auto simp: update_frame option_updates_name)

lemma same_member_trans: "same_member k a b \<Longrightarrow> same_member k b c \<Longrightarrow> same_member k a c"
  by (cases k) auto

lemma same_member_refl: "same_member k a a"
  by (cases k) auto

lemma parse_options_frame:
  "parse_options E config ks obj = Inr c \<Longrightarrow> k \<notin> set ks \<Longrightarrow> same_member k c obj"
  "parse_options E config ks obj = Inr c \<Longrightarrow> c_name c = c_name obj"
  by (induction ks arbitrary: obj)
    (auto simp: bindE_Inr same_member_refl dest: parser_frame(2)
      intro: same_member_trans [OF _ parser_frame(1)])

lemma parse_options_member:
  assumes "parse_options E config ks obj = Inr c" and "distinct ks" and "k \<in> set ks"
  shows "\<exists>a n a'. same_member k a obj \<and> parser_of k E a n = Inr a' \<and> same_member k c a'"
  using assms
proof (induction ks arbitrary: obj)
  case Nil
  then show ?case by simp
next
  case (Cons l ks)
  then obtain n obj' where *: "parser_of l E obj n = Inr obj'" "parse_options E config ks obj' = Inr c"
    by (auto simp: bindE_Inr)
  show ?case
  proof (cases "l = k")
    case True
    with *(1) parse_options_frame(1) [OF *(2)] Cons.prems(2) same_member_refl show ?thesis by auto
  next
    case False
    with Cons.IH [OF *(2)] Cons.prems obtain a n a' where
      "same_member k a obj'" "parser_of k E a n = Inr a'" "same_member k c a'" by auto
    with parser_frame(1) [OF *(1) False] show ?thesis
      by (blast intro: same_member_trans)
  qed
qed

lemma octal_digit: "c \<in> set octal_digits \<Longrightarrow> 48 \<le> (of_char c :: int) \<and> (of_char c :: int) \<le> 55"
  by (auto simp: octal_digits_def)

lemma stoi_octal_range:
  assumes "length ds = 3" and "list_all (\<lambda>c. c \<in> set octal_digits) ds"
  shows "0 \<le> stoi_octal ds \<and> stoi_octal ds < 512"
proof -
  from assms obtain a b c where ds: "ds = [a, b, c]" and
    in_set: "a \<in> set octal_digits" "b \<in> set octal_digits" "c \<in> set octal_digits"
    by (auto simp: length_Suc_conv numeral_3_eq_3)
  from in_set [THEN octal_digit] show ?thesis
    unfolding ds stoi_octal_def by simp
qed

lemma parseUnMask_range: "parseUnMask E obj n = Inr obj' \<Longrightarrow> unat (c_umask obj') < 512"
proof -
  assume "parseUnMask E obj n = Inr obj'"
  then consider "c_umask obj' = 18"
    | ds where "length ds = 3" "list_all (\<lambda>c. c \<in> set octal_digits) ds" "c_umask obj' = of_int (stoi_octal ds)"
    by (auto simp: parseUnMask_def bindE_Inr split: if_splits)
  then show ?thesis
  proof cases
    case 2
    from stoi_octal_range [OF 2(1,2)]
    have "uint (of_int (stoi_octal ds) :: 32 word) = stoi_octal ds"
      by (simp add: uint_word_of_int)
    with stoi_octal_range [OF 2(1,2)] 2(3) have "uint (c_umask obj') < 512"
      by simp
    then have "nat (uint (c_umask obj')) < 512" by linarith
    then show ?thesis by (simp only: unat_eq_nat_uint)
  qed simp
qed

lemma parse_redirect_ok:
  "parseSTDOUT E a n = Inr a' \<Longrightarrow> c_out a' = Some p \<Longrightarrow> fs_exists E (parent_path p) = Inr True"
  "parseSTDERR E a n = Inr a' \<Longrightarrow> c_err a' = Some p \<Longrightarrow> fs_exists E (parent_path p) = Inr True"
  by (auto simp: parseSTDOUT_def parseSTDERR_def bindE_Inr split: if_splits)

text \<open>
  Since \<open>exists\<close> is false for the empty path, a redirection to a file name without a directory is dropped,
  whether the current directory exists or not.
\<close>

lemma bare_redirection_dropped:
  assumes "y_is_defined E n" and "y_as_string E n = Inr path" and "CHR ''/'' \<notin> set path"
    and "fs_exists E [] = Inr False"
  shows "parseSTDOUT E obj n = Inr (obj\<lparr>c_out := None\<rparr>)" and "parseSTDERR E obj n = Inr (obj\<lparr>c_err := None\<rparr>)"
proof -
  have no_dir: "dropWhile (\<lambda>c. c \<noteq> CHR ''/'') (rev path) = []"
    using assms(3) by (auto simp: dropWhile_eq_Nil_conv)
  have "parent_path path = []"
    unfolding parent_path_def Let_def no_dir by simp
  with assms show "parseSTDOUT E obj n = Inr (obj\<lparr>c_out := None\<rparr>)" "parseSTDERR E obj n = Inr (obj\<lparr>c_err := None\<rparr>)"
    by (simp_all add: parseSTDOUT_def parseSTDERR_def)
qed

lemma job_config_new_parse:
  assumes "job_config_new raw order E name config = Inr c"
  shows "\<exists>obj. parse_options E config order obj = Inr c \<and> c_name obj = name \<and> fresh_obj obj"
proof -
  from assms have "parse_options E config order (raw\<lparr>c_name := name, c_cmd := [], c_working_dir := [],
      c_exit_codes := [], c_out := None, c_err := None, c_env := []\<rparr>) = Inr c"
    by (simp add: job_config_new_def bindE_Inr)
  moreover have "fresh_obj (raw\<lparr>c_name := name, c_cmd := [], c_working_dir := [],
      c_exit_codes := [], c_out := None, c_err := None, c_env := []\<rparr>)"
    by (simp add: fresh_obj_def)
  ultimately show ?thesis
    by (intro exI conjI) simp_all
qed

lemma job_config_new_name: "job_config_new raw order E name config = Inr c \<Longrightarrow> c_name c = name"
  by (auto dest!: job_config_new_parse parse_options_frame(2))

text \<open>
  C33. Every loaded configuration is in range: it carries its job's name, its umask is a
  three-digit octal number, its exit codes are sorted (so that equal sets of codes compare
  equal) and it redirects output only into directories that exist.
\<close>

theorem config_values:
  assumes "job_config_new raw nodes E name config = Inr c"
  shows "c_name c = name \<and> unat (c_umask c) < 512 \<and> sorted (c_exit_codes c) \<and>
    (\<forall>p. c_out c = Some p \<longrightarrow> fs_exists E (parent_path p) = Inr True) \<and> (\<forall>p. c_err c = Some p \<longrightarrow> fs_exists E (parent_path p) = Inr True)"
proof -
  from job_config_new_parse [OF assms] obtain obj where p: "parse_options E config nodes obj = Inr c"
    and obj: "c_name obj = name" "fresh_obj obj" by blast
  note member = parse_options_member [OF p distinct_nodes]
  have all: "k \<in> set nodes" for k
    by (cases k) (simp_all add: nodes_def)
  have "c_name c = name"
    using assms by (rule job_config_new_name)
  moreover have "unat (c_umask c) < 512"
    using member [OF all, of OptUmask] by (auto dest: parseUnMask_range)
  moreover have "sorted (c_exit_codes c)"
    using member [OF all, of OptExitcodes] obj(2)
    by (auto simp: fresh_obj_def parseExitCodes_def bindE_Inr split: if_splits)
  moreover have "\<forall>p. c_out c = Some p \<longrightarrow> fs_exists E (parent_path p) = Inr True"
    using member [OF all, of OptStdout] parse_redirect_ok(1) by fastforce
  moreover have "\<forall>p. c_err c = Some p \<longrightarrow> fs_exists E (parent_path p) = Inr True"
    using member [OF all, of OptStderr] parse_redirect_ok(2) by fastforce
  ultimately show ?thesis by blast
qed

theorem config_values_witness:
  "\<exists>c. job_config_new raw_config nodes example_config_env ''ls''
      (DMap [(''cmd'', DText ''/bin/ls''), (''umask'', DText ''077'')]) = Inr c \<and>
    c_name c = ''ls'' \<and> c_umask c = 63 \<and> unat (c_umask c) < 512"
proof -
  have "\<exists>c. job_config_new raw_config nodes example_config_env ''ls''
      (DMap [(''cmd'', DText ''/bin/ls''), (''umask'', DText ''077'')]) = Inr c \<and> c_umask c = 63"
    by (simp add: job_config_new_def example_config_env_def nodes_def parser_defs
        octal_digits_def stoi_octal_def)
  with config_values [of raw_config example_config_env "''ls''"] show ?thesis by blast
qed

text \<open>
  The defaults: a job that gives only its command gets one process, umask 022, the current
  directory, automatic start, restart on unexpected exits (anything but 0), three retries, one
  second to start, TERM to stop, ten seconds to stop, no redirection and an empty environment.
\<close>

lemma config_defaults:
  assumes "check_options E (y_entries E config) = Inr ()"
    and "\<And>k. y_index E config (option_name k) = Inr (n k)"
    and "\<And>k. y_is_defined E (n k) \<longleftrightarrow> k = OptCmd" and "y_as_string E (n OptCmd) = Inr cmd"
  shows "job_config_new raw nodes E name config = Inr
    \<lparr>c_name = name, c_cmd = cmd, c_working_dir = ''.'', c_numprocs = 1, c_umask = 18,
     c_autostart = True, c_restart_policy = ON_FAILURE, c_exit_codes = [0], c_start_retries = 3,
     c_start_time = 1, c_stop_time = 10, c_stop_signal = S_TERM, c_out = None, c_err = None, c_env = []\<rparr>"
  unfolding job_config_new_def nodes_def parse_options.simps assms(1,2) bindE_simps
  by (simp add: parser_defs assms(3,4))

lemma config_defaults_example:
  "\<exists>c. job_config_new raw_config nodes example_config_env ''ls'' (DMap [(''cmd'', DText ''/bin/ls'')]) = Inr c
     \<and> c_start_retries c = 3 \<and> c_stop_signal c = S_TERM"
  by (subst config_defaults [where n = "\<lambda>k. if k = OptCmd then DText ''/bin/ls'' else DUndef"
        and cmd = "''/bin/ls''"])
    (auto simp: example_config_env_def intro: config_option.exhaust split: option.splits
      elim: option_name.elims)

section \<open>The loader\<close>

definition parsed_job :: "'n config_env \<Rightarrow> 'n \<Rightarrow> string \<Rightarrow> exn + jobconfig" where
  "parsed_job E jobs name = bindE (y_index E jobs name) (job_config_new raw_config nodes E name)"

definition job_key :: "'n config_env \<Rightarrow> ('n \<times> 'n) list \<Rightarrow> string \<Rightarrow> bool" where
  "job_key E es name \<longleftrightarrow> (\<exists>(k, v) \<in> set es. y_as_string E k = Inr name \<and> \<not> y_is_null E k)"

lemma load_jobs_find:
  assumes "load_jobs E jobs es acc = Inr m" and "um_ok acc"
    and "\<And>name c. um_find name acc = Some c \<Longrightarrow> parsed_job E jobs name = Inr c"
  shows "um_ok m \<and> (\<forall>name c. um_find name m = Some c \<longleftrightarrow>
    um_find name acc = Some c \<or> job_key E es name \<and> parsed_job E jobs name = Inr c)"
  using assms
proof (induction es arbitrary: acc)
  case Nil
  then show ?case by (simp add: job_key_def)
next
  case (Cons e es)
  obtain k v where e: "e = (k, v)" by fastforce
  from Cons.prems(1) obtain name where name: "y_as_string E k = Inr name"
    by (auto simp: e bindE_Inr)
  have key: "job_key E (e # es) n \<longleftrightarrow> (n = name \<and> \<not> y_is_null E k) \<or> job_key E es n" for n
    using name by (auto simp: e job_key_def)
  consider "y_is_null E k" | "\<not> y_is_null E k" "um_find name acc \<noteq> None"
    | "\<not> y_is_null E k" "um_find name acc = None" by blast
  then show ?case
  proof cases
    case 1
    with Cons.prems(1) name have "load_jobs E jobs es acc = Inr m" by (simp add: e)
    from Cons.IH [OF this Cons.prems(2,3)] key 1 show ?thesis by simp
  next
    case 2
    then obtain c0 where c0: "um_find name acc = Some c0" by auto
    from 2 Cons.prems(1) name have "load_jobs E jobs es acc = Inr m" by (simp add: e)
    from Cons.IH [OF this Cons.prems(2,3)] key 2(1) c0 Cons.prems(3) [OF c0] show ?thesis
      by auto
  next
    case 3
    show ?thesis
    proof (cases "parsed_job E jobs name")
      case (Inl ex)
      with 3 Cons.prems(1) name have "load_jobs E jobs es acc = Inr m"
        by (auto simp: e parsed_job_def split: exn.splits)
      from Cons.IH [OF this Cons.prems(2,3)] key 3 Inl show ?thesis by auto
    next
      case (Inr c)
      with 3 Cons.prems(1) name have rest: "load_jobs E jobs es (um_emplace name c acc) = Inr m"
        by (simp add: e parsed_job_def)
      have "parsed_job E jobs n = Inr d" if "um_find n (um_emplace name c acc) = Some d" for n d
        using that Cons.prems(3) Inr by (auto simp: um.find_emplace split: if_splits)
      from Cons.IH [OF rest um.ok_emplace [OF Cons.prems(2)] this] key 3 Inr show ?thesis
        by (auto simp: um.find_emplace)
    qed
  qed
qed

text \<open>
  C31. The loader keeps exactly the good jobs: when the file has a \<open>jobs\<close> node and the names are
  readable, the resulting map has one entry for each job whose own section parses, under its
  name; a section that does not parse, a null name or a repeated name costs no other job.
\<close>

theorem loader_keeps_good_jobs:
  assumes "getJobConfigs E (Inr root) = Inr m" and "y_index E root ''jobs'' = Inr jobs"
  shows "um_ok m \<and> (\<forall>name c. um_find name m = Some c \<longleftrightarrow>
    job_key E (y_entries E jobs) name \<and> parsed_job E jobs name = Inr c)"
proof -
  from assms have "load_jobs E jobs (y_entries E jobs) [] = Inr m"
    by (auto simp: getJobConfigs_def split: if_splits)
  from load_jobs_find [OF this um.ok_empty] show ?thesis
    by (simp add: um.find_empty)
qed

lemma loaded_name: "getJobConfigs E loaded = Inr m \<Longrightarrow> um_find name m = Some c \<Longrightarrow> c_name c = name"
proof -
  assume m: "getJobConfigs E loaded = Inr m" and c: "um_find name m = Some c"
  from m obtain root jobs where "loaded = Inr root" "y_index E root ''jobs'' = Inr jobs"
    "load_jobs E jobs (y_entries E jobs) [] = Inr m"
    by (auto simp: getJobConfigs_def bindE_Inr split: if_splits)
  from load_jobs_find [OF this(3) um.ok_empty] c have "parsed_job E jobs name = Inr c"
    by (auto simp: um.find_empty)
  then show "c_name c = name"
    by (auto simp: parsed_job_def bindE_Inr dest: job_config_new_name)
qed

theorem loader_keeps_good_jobs_witness:
  "\<exists>m. getJobConfigs example_config_env (Inr (DMap [(''jobs'', DMap
        [(''bad'', DMap []), (''ls'', DMap [(''cmd'', DText ''/bin/ls'')])])])) = Inr m \<and>
      um_find ''bad'' m = None \<and> um_ok m"
proof -
  let ?jobs = "DMap [(''bad'', DMap []), (''ls'', DMap [(''cmd'', DText ''/bin/ls'')])]"
  have "\<exists>m. getJobConfigs example_config_env (Inr (DMap [(''jobs'', ?jobs)])) = Inr m"
    by (simp add: getJobConfigs_def example_config_env_def job_config_new_def nodes_def parser_defs)
  then obtain m where m: "getJobConfigs example_config_env (Inr (DMap [(''jobs'', ?jobs)])) = Inr m" ..
  have "y_index example_config_env (DMap [(''jobs'', ?jobs)]) ''jobs'' = Inr ?jobs"
    by (simp add: example_config_env_def)
  from loader_keeps_good_jobs [OF m this] have
    "um_ok m" "\<forall>c. um_find ''bad'' m = Some c \<longrightarrow> parsed_job example_config_env ?jobs ''bad'' = Inr c"
    by auto
  moreover have "\<exists>e. parsed_job example_config_env ?jobs ''bad'' = Inl e"
    by (simp add: parsed_job_def example_config_env_def job_config_new_def nodes_def parser_defs)
  ultimately show ?thesis
    using m by (metis Inl_Inr_False not_Some_eq)
qed

section \<open>Comparison\<close>

lemma umap_eq_refl: "um_ok m \<Longrightarrow> umap_eq m m"
  by (auto simp: umap_eq_def list_all_iff um_mem_find)

lemma config_eq_refl: "um_ok (c_env c) \<Longrightarrow> config_eq c c"
  by (simp add: config_eq_def umap_eq_refl)

lemma add_env_ok: "add_env E es env = Inr env' \<Longrightarrow> um_ok env \<Longrightarrow> um_ok env'"
  by (induction E es env rule: add_env.induct) (auto simp: bindE_Inr um_ok_assign)

lemma loaded_env_ok: "getJobConfigs E loaded = Inr m \<Longrightarrow> um_find name m = Some c \<Longrightarrow> um_ok (c_env c)"
proof -
  assume m: "getJobConfigs E loaded = Inr m" and c: "um_find name m = Some c"
  from m obtain jobs where "load_jobs E jobs (y_entries E jobs) [] = Inr m"
    by (auto simp: getJobConfigs_def bindE_Inr split: if_splits)
  from load_jobs_find [OF this um.ok_empty] c have "parsed_job E jobs name = Inr c"
    by (auto simp: um.find_empty)
  then obtain n where "job_config_new raw_config nodes E name n = Inr c"
    by (auto simp: parsed_job_def bindE_Inr)
  from job_config_new_parse [OF this] obtain obj where
    obj: "parse_options E n nodes obj = Inr c" "fresh_obj obj" by blast
  have "OptEnv \<in> set nodes" by (simp add: nodes_def)
  from parse_options_member [OF obj(1) distinct_nodes this] obj(2) show "um_ok (c_env c)"
    by (auto simp: fresh_obj_def parseENV_def bindE_Inr um_ok_Nil dest!: add_env_ok split: if_splits)
qed

end
