(* ===== verification/Manager_Refinement.thy ===== *)
theory Manager_Refinement
  imports Job_Refinement Job_Config_Props
begin

text \<open>
  The refinement at the level of the job manager and of the machine: creating, replacing and
  removing jobs keep the heap well-formed, so that \<open>evolves\<close> is one of the relations of the locale
  \<open>machine_effect\<close>. Then the abstract job machine's invariants hold in every reachable state.
\<close>

section \<open>Reading under a well-formed heap\<close>

lemma heap_ok_job:
  "heap_ok s \<Longrightarrow> h_jobs s jid = Some j \<Longrightarrow>
     jid < w_next s \<and> timers_own jid j \<and> um_find (c_name (j_config j)) (m_jobs s) = Some jid"
  by (simp add: heap_ok_def)

lemma heap_ok_name:
  "heap_ok s \<Longrightarrow> um_find n (m_jobs s) = Some jid \<Longrightarrow>
     \<exists>j. h_jobs s jid = Some j \<and> c_name (j_config j) = n"
  by (simp add: heap_ok_def)

lemma evolvesD:
  "evolves s t \<Longrightarrow> heap_ok s \<Longrightarrow> h_jobs t jid = Some j' \<Longrightarrow>
     (h_jobs s jid = None \<longrightarrow> w_next s \<le> jid) \<and> job_evolves (h_jobs s jid) j'"
  by (simp add: evolves_def)

lemma heap_ok_maps:
  "heap_ok s \<Longrightarrow> um_ok (m_jobs s) \<and> (um_find n (m_config s) = Some c \<longrightarrow> c_name c = n)"
  by (simp add: heap_ok_def)

lemma keeps_if_ok:
  fixes m :: "('n, 'a) dprog"
  assumes "\<And>s. heap_ok s \<Longrightarrow> evolves s (snd (m s))"
  shows "keeps evolves m"
proof (rule keepsI)
  fix s :: "'n daemon"
  show "evolves s (snd (m s))"
    using assms by (cases "heap_ok s") (auto simp: evolves_def)
qed

lemma bind_config_at:
  fixes f :: "jobconfig \<Rightarrow> ('n, 'a) dprog"
  assumes "\<And>c. c_name c = name \<Longrightarrow> keeps evolves (f c)"
  shows "keeps evolves (bindM (config_at name) f)"
proof (rule keeps_if_ok)
  fix s :: "'n daemon"
  assume "heap_ok s"
  then have "um_find name (m_config s) = Some c \<Longrightarrow> c_name c = name" for c
    by (simp add: heap_ok_def)
  with assms show "evolves s (snd (bindM (config_at name) f s))"
    by (auto simp: config_at_def run_simps evolves_refl keeps_def split: option.split)
qed

lemma bind_quiet_post:
  fixes m :: "('n, 'a) dprog"
  assumes "keeps quiet m" and "\<And>s x t. m s = (Inr x, t) \<Longrightarrow> Q x"
    and "\<And>x. Q x \<Longrightarrow> keeps evolves (f x)"
  shows "keeps evolves (bindM m f)"
proof (rule keepsI)
  fix s :: "'n daemon"
  obtain r t where m: "m s = (r, t)" by fastforce
  have "evolves s t" using keepsD [OF assms(1) m] by (rule quiet_evolves)
  moreover have "evolves t (snd (f x t))" if "r = Inr x" for x
    using assms(2,3) m that by (simp add: keeps_def)
  ultimately show "evolves s (snd (bindM m f s))"
    by (auto simp: bindM_run m split: sum.split intro: evolves_trans)
qed

section \<open>Creating and destroying jobs\<close>

lemma job_destroy_quiet:
  fixes s :: "'n daemon"
  assumes "h_jobs s jid = Some j"
  shows "quiet (s\<lparr>h_jobs := (h_jobs s)(jid := None)\<rparr>) (snd (job_destroy jid s))"
proof -
  have "keeps quiet (forM proc_destroy (j_processes j) :: ('n, unit) dprog)"
    by (intro qu.for_keeps qu.timer_R)
  with assms show ?thesis
    by (simp add: job_destroy_def run_simps keeps_def)
qed

lemma noexcept_state: "snd (noexceptM m s) = snd (m s)"
  by (auto simp: noexceptM_def split: prod.split sum.split exn.split)

lemma view_new: "view_job (job_new wx c) = spec_new c"
  by (simp add: view_job_def job_new_def spec_new_def)

lemma evolves_create:
  assumes ok: "heap_ok s" and name: "c_name c = name" "um_find name (m_jobs s) = None"
  shows "evolves s (s\<lparr>w_next := Suc (w_next s), h_jobs := (h_jobs s)(w_next s \<mapsto> job_new wx c),
      m_jobs := um_emplace name (w_next s) (m_jobs s)\<rparr>)" (is "evolves s ?t")
proof -
  have free: "h_jobs s (w_next s) = None"
    using ok unfolding heap_ok_def by (meson less_irrefl not_None_eq)
  have new: "c_name (j_config (job_new wx c)) = name" "timers_own jid (job_new wx c)" for jid
    using name by (simp_all add: job_new_def timers_own_def)
  have "heap_ok ?t"
    unfolding heap_ok_def
  proof (intro conjI allI impI)
    show "um_ok (m_jobs ?t)" using ok by (simp add: heap_ok_def um.ok_emplace)
    fix n c' show "um_find n (m_config ?t) = Some c' \<Longrightarrow> c_name c' = n"
      using ok by (simp add: heap_ok_def)
  next
    fix n jid
    assume "um_find n (m_jobs ?t) = Some jid"
    with ok name free new show "\<exists>j. h_jobs ?t jid = Some j \<and> c_name (j_config j) = n"
      by (auto simp: um.find_emplace heap_ok_def split: if_splits) (metis option.distinct(1))
  next
    fix jid j
    assume j: "h_jobs ?t jid = Some j"
    show "jid < w_next ?t" "timers_own jid j"
      using ok j new by (auto simp: heap_ok_def less_SucI split: if_splits)
    show "um_find (c_name (j_config j)) (m_jobs ?t) = Some jid"
      using ok j new(1) name
      by (cases "jid = w_next s") (auto simp: um.find_emplace heap_ok_def, fastforce)
  qed
  moreover have "job_evolves (h_jobs s jid) j'"
    if "h_jobs ?t jid = Some j'" for jid j'
    using that free view_new [of wx c] by (auto simp: job_evolves_def split: if_splits)
  ultimately show ?thesis
    by (auto simp: evolves_def)
qed

lemma emplace_job_ev:
  fixes config :: jobconfig
  assumes name: "c_name config = name"
  shows "keeps evolves (emplace_job name config :: ('n, bool \<times> nat) dprog)"
proof (rule keeps_if_ok)
  fix s :: "'n daemon"
  assume ok: "heap_ok s"
  let ?jid = "w_next s" and ?j = "job_new (w_wordexp s) config"
  let ?s1 = "s\<lparr>w_next := Suc ?jid, h_jobs := (h_jobs s)(?jid \<mapsto> ?j)\<rparr>"
  show "evolves s (snd (emplace_job name config s))"
  proof (cases "um_find name (m_jobs s)")
    case None
    with ok name show ?thesis
      by (simp add: emplace_job_def job_alloc_def set_jobs_def run_simps evolves_create)
  next
    case (Some old)
    have "h_jobs s ?jid = None"
      using ok unfolding heap_ok_def by (meson less_irrefl not_None_eq)
    then have quiets: "quiet s (?s1\<lparr>h_jobs := (h_jobs ?s1)(?jid := None)\<rparr>)"
      by (simp add: quiet_def fun_upd_idem)
    have "quiet (?s1\<lparr>h_jobs := (h_jobs ?s1)(?jid := None)\<rparr>) (snd (job_destroy ?jid ?s1))"
      by (rule job_destroy_quiet [where j = ?j]) simp
    then have "evolves s (snd (noexceptM (job_destroy ?jid) ?s1))"
      unfolding noexcept_state by (rule quiet_evolves [OF qu.eff_trans [OF quiets]])
    moreover have "snd (emplace_job name config s) = snd (noexceptM (job_destroy ?jid) ?s1)"
      using Some by (simp add: emplace_job_def job_alloc_def run_simps split: prod.split sum.split)
    ultimately show ?thesis by simp
  qed
qed

lemma createJob_ev: "keeps evolves (createJob name)"
  unfolding createJob_def
  by (rule bind_config_at)
    (auto intro!: ev.bind_keeps emplace_job_ev ev.throw_keeps ec.small_R ev.when_keeps job_start_ev)

lemma evolves_erase:
  assumes ok: "heap_ok s" and j: "h_jobs s jid = Some j" "c_name (j_config j) = name"
  shows "evolves s (s\<lparr>m_jobs := um_erase name (m_jobs s), h_jobs := (h_jobs s)(jid := None)\<rparr>)"
    (is "evolves s ?t")
proof -
  have this_job: "um_find name (m_jobs s) = Some jid"
    using ok j by (auto simp: heap_ok_def)
  have "heap_ok ?t"
    unfolding heap_ok_def
  proof (intro conjI allI impI)
    show "um_ok (m_jobs ?t)" using ok by (simp add: heap_ok_def um.ok_erase)
    fix n c' show "um_find n (m_config ?t) = Some c' \<Longrightarrow> c_name c' = n"
      using ok by (simp add: heap_ok_def)
  next
    fix n jid'
    assume n: "um_find n (m_jobs ?t) = Some jid'"
    then have "n \<noteq> name" "um_find n (m_jobs s) = Some jid'"
      by (auto simp: um.find_erase split: if_splits)
    moreover from this(2) obtain j' where "h_jobs s jid' = Some j'" "c_name (j_config j') = n"
      using heap_ok_name [OF ok] by blast
    ultimately show "\<exists>j. h_jobs ?t jid' = Some j \<and> c_name (j_config j) = n"
      using j by auto
  next
    fix jid' j'
    assume j': "h_jobs ?t jid' = Some j'"
    then have "jid' \<noteq> jid" "h_jobs s jid' = Some j'" by (auto split: if_splits)
    with ok this_job show "jid' < w_next ?t" "timers_own jid' j'"
      "um_find (c_name (j_config j')) (m_jobs ?t) = Some jid'"
      by (auto simp: heap_ok_def um.find_erase)
  qed
  then show ?thesis
    by (auto simp: evolves_def job_evolves_def)
qed

lemma erase_job_ev:
  assumes "heap_ok s" and "h_jobs s jid = Some j" "c_name (j_config j) = name"
  shows "evolves s (snd (erase_job name jid s))"
proof -
  let ?s1 = "s\<lparr>m_jobs := um_erase name (m_jobs s)\<rparr>"
  have "quiet (?s1\<lparr>h_jobs := (h_jobs ?s1)(jid := None)\<rparr>) (snd (job_destroy jid ?s1))"
    using assms(2) by (intro job_destroy_quiet) simp
  then have "evolves s (snd (job_destroy jid ?s1))"
    using evolves_erase [OF assms] by (auto intro: evolves_trans quiet_evolves)
  then show ?thesis
    by (simp add: erase_job_def run_simps noexcept_state [symmetric])
qed

section \<open>The manager's loops\<close>

text \<open>
  A loop over a snapshot of the map of jobs: an entry's job, when it still exists, has the
  entry's name, whatever the iterations before did.
\<close>

definition snapshot_ok :: "'n daemon \<Rightarrow> string \<times> nat \<Rightarrow> bool" where
  "snapshot_ok s e \<longleftrightarrow> snd e < w_next s \<and> (\<forall>j. h_jobs s (snd e) = Some j \<longrightarrow> c_name (j_config j) = fst e)"

lemma snapshot_start: "heap_ok s \<Longrightarrow> e \<in> set (m_jobs s) \<Longrightarrow> snapshot_ok s e"
proof -
  assume ok: "heap_ok s" and e: "e \<in> set (m_jobs s)"
  then have "um_find (fst e) (m_jobs s) = Some (snd e)"
    using heap_ok_maps [OF ok] um_mem_find [of "m_jobs s" "fst e" "snd e"] by simp
  then obtain j where "h_jobs s (snd e) = Some j" "c_name (j_config j) = fst e"
    using heap_ok_name [OF ok] by blast
  with heap_ok_job [OF ok] show "snapshot_ok s e" by (auto simp: snapshot_ok_def)
qed

lemma snapshot_evolves:
  assumes "heap_ok s" and "evolves s t" and "snapshot_ok s e"
  shows "snapshot_ok t e"
  unfolding snapshot_ok_def
proof (intro conjI allI impI)
  show "snd e < w_next t"
    using assms by (auto simp: snapshot_ok_def evolves_def)
  fix j'
  assume t: "h_jobs t (snd e) = Some j'"
  then obtain j where j: "h_jobs s (snd e) = Some j"
    using evolvesD [OF assms(2,1) t] assms(3)
    by (cases "h_jobs s (snd e)") (auto simp: snapshot_ok_def)
  then have "spec_steps (view_job j) (view_job j')"
    using evolvesD [OF assms(2,1) t] by (simp add: job_evolves_def)
  then have "j_config j' = j_config j"
    using spec_steps_config by (fastforce simp: view_job_def)
  with j assms(3) show "c_name (j_config j') = fst e" by (simp add: snapshot_ok_def)
qed

lemma for_entries:
  fixes f :: "string \<times> nat \<Rightarrow> ('n, unit) dprog"
  assumes "\<And>e s. e \<in> set es \<Longrightarrow> heap_ok s \<Longrightarrow> snapshot_ok s e \<Longrightarrow> evolves s (snd (f e s))"
    and "heap_ok s" and "\<forall>e \<in> set es. snapshot_ok s e"
  shows "evolves s (snd (forM f es s))"
  using assms
proof (induction es arbitrary: s)
  case Nil
  then show ?case by (simp add: run_simps evolves_refl)
next
  case (Cons e es)
  obtain r t where f: "f e s = (r, t)" by fastforce
  with Cons.prems(1) [of e s] Cons.prems(2,3) have st: "evolves s t" by simp
  then have ok: "heap_ok t" using Cons.prems(2) by (simp add: evolves_def)
  have "\<forall>e \<in> set es. snapshot_ok t e"
    using Cons.prems(2,3) st by (auto intro: snapshot_evolves)
  with Cons.IH [of t] Cons.prems(1) ok have "evolves t (snd (forM f es t))" by simp
  with st f show ?case
    by (auto simp: seqM_run split: sum.split intro: evolves_trans)
qed

lemma update_job_ev:
  fixes s :: "'n daemon"
  assumes ok: "heap_ok s" and e: "snapshot_ok s (name, jid)"
  shows "evolves s (snd (update_job name jid s))"
proof (cases "h_jobs s jid")
  case None
  then show ?thesis by (simp add: update_job_def run_simps evolves_refl)
next
  case (Some j)
  then have name: "c_name (j_config j) = name" using e by (simp add: snapshot_ok_def)
  have erased: "evolves s (snd (erase_job name jid s))"
    by (rule erase_job_ev [OF ok Some name])
  obtain r t where t: "erase_job name jid s = (r, t)" by fastforce
  have "keeps evolves (createJob name :: ('n, unit) dprog)" by (rule createJob_ev)
  then have "evolves t (snd (createJob name t))"
    by (simp add: keeps_def)
  with erased t have "evolves s (snd (seqM (erase_job name jid) (createJob name) s))"
    by (auto simp: seqM_run split: sum.split intro: evolves_trans)
  with erased Some show ?thesis
    by (simp add: update_job_def run_simps evolves_refl)
qed

lemma manager_update_ev: "keeps evolves (manager_update :: ('n, unit) dprog)"
proof (rule keeps_if_ok)
  fix s :: "'n daemon"
  assume ok: "heap_ok s"
  have "evolves s (snd (forM (\<lambda>(name, jid). update_job name jid) (m_jobs s) s))"
    by (rule for_entries) (auto intro: update_job_ev snapshot_start [OF ok] ok)
  then show "evolves s (snd (manager_update s))"
    by (simp add: manager_update_def run_simps)
qed

lemma load_jobs_ok: "load_jobs E config es m = Inr m' \<Longrightarrow> um_ok m \<Longrightarrow> um_ok m'"
proof (induction es arbitrary: m)
  case (Cons e es)
  then show ?case
    by (cases e) (auto simp: bindE_Inr um.ok_emplace split: if_splits sum.splits exn.splits)
qed simp

lemma loaded_ok: "getJobConfigs E loaded = Inr m \<Longrightarrow> um_ok m"
  by (auto simp: getJobConfigs_def bindE_Inr um_ok_Nil split: if_splits dest: load_jobs_ok)

definition configs_ok :: "(string, jobconfig) umap \<Rightarrow> bool" where
  "configs_ok configs \<longleftrightarrow> um_ok configs \<and> (\<forall>n c. um_find n configs = Some c \<longrightarrow> c_name c = n)"

lemma load_configs_post: "load_configs s = (Inr configs, t) \<Longrightarrow> configs_ok configs"
  by (auto simp: load_configs_def run_simps configs_ok_def dest: loaded_ok loaded_name)

lemma load_configs_quiet: "keeps quiet load_configs"
  unfolding load_configs_def log_all_def
  by (intro qu.bind_keeps qu.seq_keeps qu.gets_keeps qu.modify_keeps qu.d_loads_R qu.liftE_R qu.for_keeps
      qu.pair_keeps qu.log_R)

lemma set_config_ev:
  assumes "configs_ok configs"
  shows "keeps evolves (modifyM (\<lambda>s. s\<lparr>m_config := configs\<rparr>))"
  by (rule ev.modify_keeps)
    (use assms in \<open>auto simp: evolves_def heap_ok_def job_evolves_def configs_ok_def\<close>)

lemma manager_new_ev: "keeps evolves manager_new"
  unfolding manager_new_def
proof (rule bind_quiet_post [OF load_configs_quiet load_configs_post], assumption)
  fix configs
  assume ok: "configs_ok configs"
  have "keeps evolves (forM (\<lambda>(name, config). seqM (emplace_job name config) (returnM ())) es)"
    if "set es \<subseteq> set configs" for es
    using that
  proof (induction es)
    case Nil
    show ?case by (simp add: ev.return_keeps)
  next
    case (Cons e es)
    then have "c_name (snd e) = fst e"
      using ok um_mem_find [of configs "fst e" "snd e"] by (auto simp: configs_ok_def)
    with Cons show ?case
      by (auto intro!: ev.seq_keeps emplace_job_ev ev.return_keeps split: prod.split)
  qed
  then show "keeps evolves (seqM (modifyM (\<lambda>s. s\<lparr>m_config := configs\<rparr>))
       (forM (\<lambda>(name, config). seqM (emplace_job name config) (returnM ())) configs))"
    by (intro ev.seq_keeps set_config_ev ok) auto
qed

lemma reload_phases_ev: "keeps evolves stop_changed" "keeps evolves create_missing" "keeps evolves manager_start_all"
  unfolding stop_changed_def create_missing_def manager_start_all_def
  by (auto intro!: ec.connection_keeps ev.combinator_keeps job_stop_ev createJob_ev job_start_ev)

lemma manager_reload_ev: "keeps evolves manager_reload"
proof -
  have "keeps evolves (tryM (bindM load_configs (\<lambda>configs.
      seqM (modifyM (\<lambda>s. s\<lparr>m_config := configs\<rparr>)) (returnM None))) (\<lambda>w. returnM (Some w)))"
    by (intro ev.try_keeps bind_quiet_post [OF load_configs_quiet load_configs_post] ev.seq_keeps
        set_config_ev ev.return_keeps)
  then show ?thesis
    unfolding manager_reload_def using reload_phases_ev
    by (intro ev.bind_keeps) (auto intro!: ev.seq_keeps ec.small_R manager_update_ev split: option.split)
qed

interpretation em_jobs: machine_effect "evolves :: 'n daemon \<Rightarrow> 'n daemon \<Rightarrow> bool"
  by unfold_locales
    (auto intro: job_start_ev job_stop_ev process_on_state_change_ev timer_expired_ev manager_new_ev
      manager_update_ev manager_reload_ev)

end
