(* ===== verification/Daemon_Example.thy ===== *)
theory Daemon_Example
  imports Daemon Job_Config_Props
begin

text \<open>
  Concrete daemons, run by the kernel of the prover: the witnesses that hypotheses of the daemon's
  properties can hold together. The configuration file has the given jobs, every system call
  succeeds, and each child ends with the given status word.
\<close>

definition example_daemon :: "(string \<times> doc) list \<Rightarrow> 32 word \<Rightarrow> doc daemon" where
  "example_daemon jobs status = \<lparr>w_ans = good_kernel, w_strerror = (\<lambda>n. ''Success''),
     w_status = (\<lambda>n. status), w_again = (\<lambda>n. False), w_data = (\<lambda>n k. 0),
     w_wordexp = (\<lambda>cmd. Some [cmd]), w_clock = 0, w_trace = [], w_next = 0,
     w_logger = \<lparr>lg_enable_stdout = False, lg_level = LL_Normal\<rparr>,
     w_sinks = \<lparr>stdout_lines = [], syslog_entries = []\<rparr>,
     em_read_callbacks = (\<lambda>fd. None), em_write_callbacks = (\<lambda>fd. None), em_interest = (\<lambda>fd. None), g_state = G_RUNNING,
     h_jobs = (\<lambda>jid. None), m_jobs = [], m_config = [], s_fd = -1, h_clients = (\<lambda>cid. None),
     s_clients = [], d_config_env = (\<lambda>n. example_config_env), d_load = (\<lambda>n. Inr (DMap [(''jobs'', DMap jobs)])),
     d_loads = 0, d_parse_command = (\<lambda>b. None), d_serialize_response = (\<lambda>r. Some []),
     d_debug_string = (\<lambda>c. [])\<rparr>"

definition ls_jobs :: "(string \<times> doc) list" where
  "ls_jobs = [(''ls'', DMap [(''cmd'', DText ''/bin/ls'')])]"

definition ls_config :: jobconfig where
  "ls_config = \<lparr>c_name = ''ls'', c_cmd = ''/bin/ls'', c_working_dir = ''.'', c_numprocs = 1, c_umask = 18,
     c_autostart = True, c_restart_policy = ON_FAILURE, c_exit_codes = [0], c_start_retries = 3,
     c_start_time = 1, c_stop_time = 10, c_stop_signal = S_TERM, c_out = None, c_err = None, c_env = []\<rparr>"

lemma ls_loaded: "getJobConfigs example_config_env (Inr (DMap [(''jobs'', DMap ls_jobs)])) = Inr [(''ls'', ls_config)]"
  by (simp add: getJobConfigs_def ls_jobs_def ls_config_def example_config_env_def job_config_new_def nodes_def
      parser_defs um_find_def um_emplace_def)

lemma example_sel [simp]:
  "w_ans (example_daemon jobs status) = good_kernel" "w_next (example_daemon jobs status) = 0"
  "w_clock (example_daemon jobs status) = 0" "w_trace (example_daemon jobs status) = []"
  "w_status (example_daemon jobs status) = (\<lambda>n. status)" "g_state (example_daemon jobs status) = G_RUNNING"
  "em_read_callbacks (example_daemon jobs status) = (\<lambda>fd. None)"
  "em_write_callbacks (example_daemon jobs status) = (\<lambda>fd. None)"
  "em_interest (example_daemon jobs status) = (\<lambda>fd. None)"
  "d_loads (example_daemon jobs status) = 0" "m_config (example_daemon jobs status) = []"
  "d_load (example_daemon jobs status) = (\<lambda>n. Inr (DMap [(''jobs'', DMap jobs)]))"
  "d_config_env (example_daemon jobs status) = (\<lambda>n. example_config_env)"
  "h_jobs (example_daemon jobs status) = (\<lambda>jid. None)" "m_jobs (example_daemon jobs status) = []"
  "w_wordexp (example_daemon jobs status) = (\<lambda>cmd. Some [cmd])"
  by (simp_all add: example_daemon_def)

text \<open>The definitions that make a run from \<open>main\<close> compute by rewriting.\<close>

lemmas start_defs = daemon_start_def manager_new_def load_configs_def ls_loaded emplace_job_def
  job_alloc_def set_jobs_def um_find_def um_emplace_def fresh_id_def server_new_def daemon_address_def Address_UNIX_def
  getSockAddr_def getInstance_def event_manager_new_def
  SUN_PATH_SIZE_def unix_path_def byte_of_char_def socket_new_def socket_bind_def socket_listen_def
  registerEvent_def updateEventInternal_def Let_def manager_start_all_def ls_config_def job_new_def
  job_start_def job_start_processes_def split_shell_def job_create_process_def job_proc_start_def
  process_start_def process_parent_def proc_reset_timer_def timer_new_def timer_release_def
  proc_start_timer_def timer_start_def set_job_state_def upd_proc_def process_new_def

lemmas exit_defs = call_at_def handleEvent_def process_on_state_change_def
  waitpid_def proc_clear_timer_def unregisterEvent_def timer_destroy_def fd_destroy_def in_try_def
  process_on_exit_def set_proc_state_def job_on_exit_def proc_add_restart_def job_settle_def
  all_processes_in_states_def process_on_forced_exit_def job_on_stop_def WIFEXITED_def WTERMSIG_def
  WIFSIGNALED_def WEXITSTATUS_def

text \<open>The daemon started, and after its only child left with exit code 1.\<close>

definition example_started :: "pc \<times> doc daemon" where
  "example_started = daemon_start (example_daemon ls_jobs 0x100)"

lemma example_started_job:
  obtains s j p where "example_started = (PcSwitch, s)" and "h_jobs s 0 = Some j" and "j_state j = J_STARTING"
    and "j_config j = ls_config" and "j_argv j = [''/bin/ls'']" and "j_processes j = [p]"
    and "p_state p = P_STARTING" and "p_restarts p = 0" and "p_pid p = 1008" and "w_ans s = good_kernel"
    and "w_status s = (\<lambda>n. 0x100)" and "m_jobs s = [(''ls'', 0)]" and "m_config s = [(''ls'', ls_config)]"
proof -
  have "\<exists>s j p. example_started = (PcSwitch, s) \<and> h_jobs s 0 = Some j \<and> j_state j = J_STARTING \<and>
     j_config j = ls_config \<and> j_argv j = [''/bin/ls''] \<and> j_processes j = [p] \<and> p_state p = P_STARTING \<and>
     p_restarts p = 0 \<and> p_pid p = 1008 \<and> w_ans s = good_kernel \<and> w_status s = (\<lambda>n. 0x100) \<and>
     m_jobs s = [(''ls'', 0)] \<and> m_config s = [(''ls'', ls_config)]"
    by (simp add: example_started_def start_defs run_simps)
  then show thesis by (elim exE conjE) (rule that)
qed

definition example_actions :: "action list" where
  "example_actions = [AcStep, AcWait (Events [(21, True, False)])]"

lemma example_exited: "\<exists>at s j. daemon_run example_actions example_started = Some (at, s) \<and> at = PcUpdate \<and>
    h_jobs s 0 = Some j \<and> j_state j = J_STARTING \<and> map p_restarts (j_processes j) = [1]"
  by (simp add: example_started_def example_actions_def start_defs exit_defs run_simps)

end
