(* ===== verification/Daemon_Props.thy ===== *)
theory Daemon_Props
  imports Manager_Refinement Daemon_Example
begin

text \<open>
  What holds in every state the daemon reaches: the refinement of the abstract job machine, the
  restart budget, the well-formed heap and the consistent event registry.
\<close>

section \<open>Reachable states\<close>

text \<open>Before \<open>main\<close> there are no jobs and no configuration.\<close>

definition booted :: "'n daemon \<Rightarrow> bool" where
  "booted s \<longleftrightarrow> h_jobs s = (\<lambda>jid. None) \<and> m_jobs s = [] \<and> m_config s = []"

lemma booted_ok: "booted s \<Longrightarrow> heap_ok s"
  by (simp add: booted_def heap_ok_def um_ok_Nil um_find_def)

definition jobs_refine :: "'n daemon \<Rightarrow> bool" where
  "jobs_refine s \<longleftrightarrow> (\<forall>jid j. h_jobs s jid = Some j \<longrightarrow> spec_steps (spec_new (j_config j)) (view_job j))"

lemma jobs_refine_evolves:
  assumes "evolves s t" "heap_ok s" "jobs_refine s"
  shows "jobs_refine t"
  unfolding jobs_refine_def
proof (intro allI impI)
  fix jid j'
  assume t: "h_jobs t jid = Some j'"
  show "spec_steps (spec_new (j_config j')) (view_job j')"
  proof (cases "h_jobs s jid")
    case None
    then obtain c where c: "spec_steps (spec_new c) (view_job j')"
      using evolvesD [OF assms(1,2) t] by (auto simp: job_evolves_def)
    then have "j_config j' = c"
      using spec_steps_config [OF c] by (simp add: view_job_def spec_new_def)
    with c show ?thesis by simp
  next
    case (Some j)
    then have step: "spec_steps (view_job j) (view_job j')"
      using evolvesD [OF assms(1,2) t] by (simp add: job_evolves_def)
    then have "j_config j' = j_config j"
      using spec_steps_config [OF step] by (simp add: view_job_def)
    with step Some assms(3) show ?thesis
      by (auto simp: jobs_refine_def intro: rtranclp_trans)
  qed
qed

text \<open>In its last action the daemon only destroys jobs.\<close>

definition fewer_jobs :: "'n daemon \<Rightarrow> 'n daemon \<Rightarrow> bool" where
  "fewer_jobs s t \<longleftrightarrow> (\<forall>jid j. h_jobs t jid = Some j \<longrightarrow> h_jobs s jid = Some j)"

interpretation fj: effect_order fewer_jobs
  by unfold_locales (auto simp: fewer_jobs_def)

lemma quiet_fewer: "keeps quiet m \<Longrightarrow> keeps fewer_jobs m"
  by (auto simp: keeps_def quiet_def fewer_jobs_def)

lemma finish_fewer:
  fixes s :: "'n daemon"
  shows "fewer_jobs s (snd (finish failed s))"
proof -
  have "keeps (fewer_jobs :: 'n daemon \<Rightarrow> _) (job_destroy jid)" for jid
    unfolding job_destroy_def
    by (intro fj.bind_keeps fj.seq_keeps fj.for_keeps fj.modify_keeps quiet_fewer [OF qu.get_R(1)]
        quiet_fewer [OF qu.timer_R(6)]) (simp add: fewer_jobs_def)
  then have "keeps (fewer_jobs :: 'n daemon \<Rightarrow> _) manager_members_destroy"
    unfolding manager_members_destroy_def
    by (intro fj.bind_keeps fj.gets_keeps fj.for_keeps) (auto split: prod.split)
  moreover have "keeps (fewer_jobs :: 'n daemon \<Rightarrow> _) (case failed of None \<Rightarrow> returnM ()
      | Some w \<Rightarrow> logM LT_Fatal (''Exception: '' @ w))"
    using quiet_fewer [OF qu.log_R] fj.return_keeps by (cases failed) auto
  ultimately have "keeps (fewer_jobs :: 'n daemon \<Rightarrow> _) (noexceptM (seqM manager_members_destroy
      (case failed of None \<Rightarrow> returnM () | Some w \<Rightarrow> logM LT_Fatal (''Exception: '' @ w))))"
    (is "keeps _ ?m")
    by (intro fj.noexcept_keeps fj.seq_keeps)
  moreover have "snd (finish failed s) = snd (?m s)"
    by (simp add: finish_def in_destructor_def split: prod.split sum.split)
  ultimately show ?thesis by (simp add: keeps_def)
qed

definition final :: "pc \<Rightarrow> bool" where
  "final at \<longleftrightarrow> (\<exists>n. at = PcReturned n) \<or> (\<exists>e. at = PcEnded e)"

lemma final_stuck: "final at \<Longrightarrow> daemon_next a at s = None"
  by (cases a) (auto simp: final_def)

lemma finish_final: "final (fst (finish failed s))"
  by (auto simp: finish_def in_destructor_def final_def split: prod.split sum.split)

lemma reachable_inv:
  assumes "daemon_reaches (daemon_start s0) c" and "booted s0"
  shows "jobs_refine (snd c) \<and> (final (fst c) \<or> heap_ok (snd c))"
  using assms(1)
proof (induction "daemon_start s0" c rule: daemon_reaches.induct)
  case reach_refl
  have "evolves s0 (snd (daemon_start s0))" by (rule em_jobs.daemon_start_R)
  moreover have "jobs_refine s0" using assms(2) by (simp add: jobs_refine_def booted_def)
  ultimately show ?case
    using booted_ok [OF assms(2)] by (auto simp: evolves_def intro: jobs_refine_evolves)
next
  case (reach_step at s a c')
  have "\<not> final at" using final_stuck [of at a s] reach_step(3) by auto
  with reach_step(2) have inv: "jobs_refine s" "heap_ok s"
    using assms(2) by auto
  obtain at' t where c': "c' = (at', t)" by fastforce
  show ?case
  proof (cases "\<exists>failed. at = PcDrain failed []")
    case True
    then obtain failed where at: "at = PcDrain failed []" ..
    show ?thesis
    proof (cases a)
      case AcStep
      with at reach_step(3) have "c' = finish failed s" by simp
      moreover have "jobs_refine (snd (finish failed s))"
        using finish_fewer [of s failed] inv(1) unfolding jobs_refine_def fewer_jobs_def by blast
      ultimately show ?thesis by (simp add: finish_final)
    next
      case (AcSignal signum)
      have "evolves s (snd (signalHandler signum s))"
        by (rule keepsD [OF ec.signal_R prod.collapse [symmetric]])
      with AcSignal at reach_step(3) inv show ?thesis
        by (auto intro: jobs_refine_evolves simp: evolves_def split: if_splits)
    qed (use at reach_step(3) in simp)
  next
    case False
    then have "evolves s t"
      using em_jobs.daemon_next_R [of a at s at' t] reach_step(3) c' by simp
    with inv c' show ?thesis
      by (auto intro: jobs_refine_evolves simp: evolves_def)
  qed
qed

lemma daemon_run_reaches: "daemon_run as c = Some d \<Longrightarrow> daemon_reaches c d"
proof -
  have "daemon_reaches b c \<Longrightarrow> daemon_run as c = Some d \<Longrightarrow> daemon_reaches b d" for b
    by (induction as c rule: daemon_run.induct) (auto split: option.splits intro: reach_step)
  then show "daemon_run as c = Some d \<Longrightarrow> ?thesis" by (blast intro: reach_refl)
qed

lemma example_booted: "booted (example_daemon jobs status)"
  by (simp add: booted_def)

lemma example_reached:
  obtains s j where "daemon_reaches (daemon_start (example_daemon ls_jobs 0x100)) (PcUpdate, s)"
    and "h_jobs s 0 = Some j" and "map p_restarts (j_processes j) = [1]"
proof -
  obtain at s j where ex: "daemon_run example_actions example_started = Some (at, s)" "at = PcUpdate"
    "h_jobs s 0 = Some j" "map p_restarts (j_processes j) = [1]"
    using example_exited by (elim exE conjE)
  from ex(1,2) have "daemon_reaches example_started (PcUpdate, s)"
    by (simp add: daemon_run_reaches)
  then show thesis
    unfolding example_started_def using ex(3,4) by (rule that)
qed

section \<open>The daemon's properties\<close>





text \<open>
  C13. Jobs and the map of jobs stay in one-to-one correspondence: as long as the daemon runs, the
  map's keys are distinct, each entry leads to a live job of that name, and each live job is the
  entry of its name. In particular no handler of a job in the map reaches a destroyed one.
\<close>

theorem jobs_consistent:
  assumes "booted s0" and "daemon_reaches (daemon_start s0) (at, s)" and "\<not> final at"
  shows "um_ok (m_jobs s)
    \<and> (\<forall>name jid. um_find name (m_jobs s) = Some jid \<longleftrightarrow>
         (\<exists>j. h_jobs s jid = Some j \<and> c_name (j_config j) = name))"
  using reachable_inv [OF assms(2,1)] assms(3) by (auto simp: heap_ok_def)

theorem jobs_consistent_witness:
  "\<exists>s :: doc daemon. um_ok (m_jobs s) \<and> (\<forall>name jid. um_find name (m_jobs s) = Some jid \<longleftrightarrow>
         (\<exists>j. h_jobs s jid = Some j \<and> c_name (j_config j) = name)) \<and> h_jobs s 0 \<noteq> None"
proof -
  obtain s j where r: "daemon_reaches (daemon_start (example_daemon ls_jobs 0x100)) (PcUpdate, s)"
    and j: "h_jobs s 0 = Some j" "map p_restarts (j_processes j) = [1]"
    by (rule example_reached)
  have "\<not> final PcUpdate" by (simp add: final_def)
  from jobs_consistent [OF example_booted r this] j(1) show ?thesis
    by (intro exI [of _ s]) simp
qed





end
