(* ===== verification/Supervision.thy ===== *)
theory Supervision
  imports Daemon_Example
begin

text \<open>
  What the supervisor does for a process, on a kernel whose calls succeed: starting, the decision
  after an exit, stopping and the escalation to \<open>SIGKILL\<close>.
\<close>

section \<open>A kernel whose calls succeed\<close>

definition kernel_ok :: "(nat \<Rightarrow> syscall \<Rightarrow> int) \<Rightarrow> bool" where
  "kernel_ok ans \<longleftrightarrow> (\<forall>n c. ans n c = -1 \<longrightarrow> (\<exists>pid. c = SysWaitpid pid)) \<and> (\<forall>n. 0 < ans n SysFork) \<and>
     (\<forall>n fd. ans n (SysReadTimer fd) = 8)"

lemma good_kernel_ok: "kernel_ok good_kernel"
proof -
  have "good_kernel n c = -1 \<Longrightarrow> \<exists>pid. c = SysWaitpid pid" for n c
    by (cases "(n, c)" rule: good_kernel.cases) auto
  then show ?thesis by (simp add: kernel_ok_def)
qed

lemma kernel_answers:
  assumes "kernel_ok ans"
  shows "ans n SysTimerfdCreate \<noteq> -1" "ans n (SysTimerfdSettime a b c) \<noteq> -1"
    "ans n (SysPidfdOpen pid f) \<noteq> -1" "ans n (SysEpollAdd fd r w) \<noteq> -1" "ans n (SysEpollDel fd) \<noteq> -1"
    "ans n (SysPidfdSendSignal fd sg f) \<noteq> -1" "0 < ans n SysFork" "ans n SysFork \<noteq> -1" "ans n SysFork \<noteq> 0"
    "ans n (SysReadTimer fd) = 8"
proof -
  have "ans n c = -1 \<Longrightarrow> \<exists>pid. c = SysWaitpid pid" for n c
    using assms by (simp add: kernel_ok_def)
  then show "ans n SysTimerfdCreate \<noteq> -1" "ans n (SysTimerfdSettime a b c) \<noteq> -1"
    "ans n (SysPidfdOpen pid f) \<noteq> -1" "ans n (SysEpollAdd fd r w) \<noteq> -1" "ans n (SysEpollDel fd) \<noteq> -1"
    "ans n (SysPidfdSendSignal fd sg f) \<noteq> -1" by fastforce+
  from assms show "0 < ans n SysFork" "ans n (SysReadTimer fd) = 8" by (simp_all add: kernel_ok_def)
  then show "ans n SysFork \<noteq> -1" "ans n SysFork \<noteq> 0" by (metis less_irrefl neg_less_0_iff_less zero_less_one order.asym)+
qed

text \<open>The calls that matter, in a history of calls: children made, and signals sent.\<close>

definition children :: "(syscall \<times> int) list \<Rightarrow> int list" where
  "children calls = map snd (filter (\<lambda>c. fst c = SysFork) calls)"

fun signals_sent :: "(syscall \<times> int) list \<Rightarrow> (int \<times> int) list" where
  "signals_sent [] = []"
| "signals_sent ((c, r) # calls) = (case c of
     SysPidfdSendSignal fd sig flags \<Rightarrow> (fd, sig) # signals_sent calls | _ \<Rightarrow> signals_sent calls)"

lemma children_simps [simp]:
  "children [] = []" "children ((c, r) # calls) = (if c = SysFork then r # children calls else children calls)"
  by (simp_all add: children_def)

definition put_proc :: "nat \<Rightarrow> process \<Rightarrow> job \<Rightarrow> job" where
  "put_proc i p j = j\<lparr>j_processes := (j_processes j)[i := p]\<rparr>"

lemma state_commute: "j\<lparr>j_state := st, j_processes := ps\<rparr> = j\<lparr>j_processes := ps, j_state := st\<rparr>"
  by (cases j) simp

lemma state_same: "p_state p = st \<Longrightarrow> p\<lparr>p_timer := x, p_state := st\<rparr> = p\<lparr>p_timer := x\<rparr>"
  by (cases p) simp

text \<open>What only touches the surroundings: no job, no child, no signal.\<close>

definition aside :: "'n daemon \<Rightarrow> 'n daemon \<Rightarrow> bool" where
  "aside s t \<longleftrightarrow> h_jobs t = h_jobs s \<and> m_jobs t = m_jobs s \<and> m_config t = m_config s \<and> w_ans t = w_ans s \<and>
     children (w_trace t) = children (w_trace s) \<and> signals_sent (w_trace t) = signals_sent (w_trace s)"

lemma timer_release_ok:
  assumes "kernel_ok (w_ans s)"
  shows "\<exists>t. timer_release u s = (Inr (), t) \<and> aside s t"
  using kernel_answers [OF assms]
  by (cases u) (simp_all add: timer_release_def timer_destroy_def unregisterEvent_def fd_destroy_def run_simps aside_def)

text \<open>Example states: one job with one process, in the given states.\<close>

definition example_timer :: "timer_callback \<Rightarrow> timer_callback timer" where
  "example_timer cb = \<lparr>t_id = 1, t_fd = 16, t_interval = 1, t_state = T_RUNNING, t_callback = cb\<rparr>"

definition example_proc :: "process_state \<Rightarrow> timer_callback \<Rightarrow> process" where
  "example_proc st cb = \<lparr>p_name = ''ls_0'', p_pid = 1007, p_pgid = 0, p_state = st, p_restarts = 0, p_fd = 20,
     p_timer = Some (example_timer cb)\<rparr>"

definition example_job :: "job_state \<Rightarrow> process list \<Rightarrow> job" where
  "example_job st ps = \<lparr>j_config = ls_config, j_argv = [''/bin/ls''], j_env = [], j_state = st, j_pgid = 1007,
     j_processes = ps\<rparr>"

definition example_at :: "job \<Rightarrow> 32 word \<Rightarrow> doc daemon" where
  "example_at j status = (example_daemon [] status)\<lparr>w_next := 1, h_jobs := [0 \<mapsto> j], m_jobs := [(''ls'', 0)],
     m_config := [(''ls'', ls_config)]\<rparr>"

lemma example_job_sel [simp]:
  "p_state (example_proc st cb) = st" "p_pid (example_proc st cb) = 1007" "p_fd (example_proc st cb) = 20"
  "p_timer (example_proc st cb) = Some (example_timer cb)" "t_id (example_timer cb) = 1"
  "t_callback (example_timer cb) = cb" "t_fd (example_timer cb) = 16" "p_restarts (example_proc st cb) = 0"
  "j_config (example_job jst ps) = ls_config" "j_state (example_job jst ps) = jst"
  "j_argv (example_job jst ps) = [''/bin/ls'']" "j_processes (example_job jst ps) = ps" "c_name ls_config = ''ls''"
  "h_jobs (example_at j w) = [0 \<mapsto> j]" "m_jobs (example_at j w) = [(''ls'', 0)]"
  "m_config (example_at j w) = [(''ls'', ls_config)]" "w_ans (example_at j w) = good_kernel"
  "w_status (example_at j w) = (\<lambda>n. w)" "w_clock (example_at j w) = 0" "w_trace (example_at j w) = []"
  by (simp_all add: example_proc_def example_job_def example_at_def example_timer_def ls_config_def)

section \<open>Starting\<close>

definition started :: "nat \<Rightarrow> nat \<Rightarrow> jobconfig \<Rightarrow> int \<Rightarrow> process \<Rightarrow> process \<Rightarrow> bool" where
  "started jid i config pid p p' \<longleftrightarrow> p_pid p' = pid \<and> 0 < pid \<and> p_state p' = P_STARTING \<and> p_name p' = p_name p \<and>
     p_pgid p' = p_pgid p \<and> p_restarts p' = p_restarts p \<and> (\<exists>t. p_timer p' = Some t \<and>
       t_interval t = c_start_time config \<and> t_state t = T_RUNNING \<and> t_callback t = TcStartTime jid i)"

lemma reset_timer_ok:
  assumes ok: "kernel_ok (w_ans s)" and j: "h_jobs s jid = Some j" and i: "i < length (j_processes j)"
  shows "\<exists>S tm. proc_reset_timer jid i interval cb s = (Inr (), S) \<and>
     aside (s\<lparr>h_jobs := (h_jobs s)(jid \<mapsto> put_proc i ((j_processes j ! i)\<lparr>p_timer := Some tm\<rparr>) j)\<rparr>) S \<and>
     t_interval tm = interval \<and> t_callback tm = cb"
proof -
  obtain s1 tm where s1: "timer_new interval cb s = (Inr tm, s1)" "aside s s1"
     "t_interval tm = interval" "t_callback tm = cb"
    using kernel_answers [OF ok] by (simp add: timer_new_def run_simps aside_def)
  let ?s1 = "s1\<lparr>h_jobs := (h_jobs s)(jid \<mapsto> put_proc i ((j_processes j ! i)\<lparr>p_timer := Some tm\<rparr>) j)\<rparr>"
  have "kernel_ok (w_ans ?s1)" using ok s1(2) by (simp add: aside_def)
  from timer_release_ok [OF this] obtain s2 where
    s2: "timer_release (p_timer (j_processes j ! i)) ?s1 = (Inr (), s2)" "aside ?s1 s2" by blast
  with s1 j i have "proc_reset_timer jid i interval cb s = (Inr (), s2)"
    by (simp add: proc_reset_timer_def run_simps aside_def upd_proc_def put_proc_def)
  with s1 s2 show ?thesis
    by (intro exI [of _ s2] exI [of _ tm]) (simp add: aside_def)
qed

lemma process_start_ok:
  assumes ok: "kernel_ok (w_ans s)" and j: "h_jobs s jid = Some j" and i: "i < length (j_processes j)"
  shows "\<exists>t pid p'. process_start jid i path argv env config s = (Inr (), t) \<and>
     h_jobs t = (h_jobs s)(jid \<mapsto> put_proc i p' j) \<and> started jid i config pid (j_processes j ! i) p' \<and>
     children (w_trace t) = pid # children (w_trace s) \<and> signals_sent (w_trace t) = signals_sent (w_trace s) \<and>
     w_ans t = w_ans s \<and> m_jobs t = m_jobs s \<and> m_config t = m_config s \<and>
     em_read_callbacks t (p_fd p') = Some (Some (CbProcess jid i))"
proof -
  obtain S tm where
    reset: "proc_reset_timer jid i (c_start_time config) (TcStartTime jid i) s = (Inr (), S)"
    and S: "aside (s\<lparr>h_jobs := (h_jobs s)(jid \<mapsto> put_proc i ((j_processes j ! i)\<lparr>p_timer := Some tm\<rparr>) j)\<rparr>) S"
    and tm: "t_interval tm = c_start_time config" "t_callback tm = TcStartTime jid i"
    using reset_timer_ok [OF ok j i] by blast
  note eff = S [unfolded aside_def, simplified]
  show ?thesis
    using kernel_answers [OF ok] i tm eff
    apply (simp add: process_start_def reset process_parent_def proc_start_timer_def timer_start_def
      registerEvent_def updateEventInternal_def Let_def run_simps upd_proc_def put_proc_def fun_upd_same
      del: fun_upd_apply)
    by (rule exI, rule conjI, rule refl) (simp add: started_def)
qed

lemma job_proc_start_ok:
  assumes ok: "kernel_ok (w_ans s)" and j: "h_jobs s jid = Some j" and i: "i < length (j_processes j)"
    and "j_argv j \<noteq> []"
  shows "\<exists>t pid p'. job_proc_start jid i s = (Inr (), t) \<and>
     h_jobs t = (h_jobs s)(jid \<mapsto> put_proc i p' j) \<and> started jid i (j_config j) pid (j_processes j ! i) p' \<and>
     children (w_trace t) = pid # children (w_trace s) \<and> signals_sent (w_trace t) = signals_sent (w_trace s) \<and>
     w_ans t = w_ans s \<and> m_jobs t = m_jobs s \<and> m_config t = m_config s \<and>
     em_read_callbacks t (p_fd p') = Some (Some (CbProcess jid i))"
proof -
  obtain path rest where "j_argv j = path # rest" using assms(4) by (cases "j_argv j") auto
  then have "job_proc_start jid i s = process_start jid i path (j_argv j) (j_env j) (j_config j) s"
    by (simp add: job_proc_start_def run_simps j)
  with process_start_ok [OF ok j i] show ?thesis by presburger
qed

section \<open>After an exit\<close>

text \<open>
  The contract: what becomes of a process that exited by itself with \<open>code\<close>, depending on the
  configuration and the number of restarts so far.
\<close>

datatype verdict = Leave | Count | Restart

definition verdict :: "jobconfig \<Rightarrow> int \<Rightarrow> int \<Rightarrow> verdict" where
  "verdict c restarts code =
     (if restarts = c_start_retries c then Leave
      else (case c_restart_policy c of NEVER \<Rightarrow> Leave | ALWAYS \<Rightarrow> Restart
            | ON_FAILURE \<Rightarrow> if code \<in> set (c_exit_codes c) then Count else Restart))"

text \<open>The state a job without restart settles in: \<open>STOPPED\<close> once every process is at rest.\<close>

definition settled :: "job \<Rightarrow> job" where
  "settled j = (if list_all (\<lambda>p. p_state p \<in> {P_EXITED, P_BACKOFF, P_STOPPED}) (j_processes j)
     then j\<lparr>j_state := J_STOPPED\<rparr> else j)"

lemma job_settle_ok:
  "h_jobs s jid = Some j \<Longrightarrow> job_settle jid s = (Inr (), s\<lparr>h_jobs := (h_jobs s)(jid \<mapsto> settled j)\<rparr>)"
  by (auto simp: job_settle_def run_simps all_processes_in_states_def settled_def set_job_state_def
    list_all_iff fun_upd_idem)

definition ended_state :: "process_state \<Rightarrow> process_state" where
  "ended_state st = (if st = P_STARTING then P_BACKOFF else P_EXITED)"

lemma exit_leads_to:
  assumes j: "h_jobs s jid = Some j" and i: "i < length (j_processes j)"
    and p: "p = j_processes j ! i" and st: "p_state p \<in> {P_STARTING, P_RUNNING}" and b: "p_restarts p < 2 ^ 31 - 1"
    and v: "v = verdict (j_config j) (p_restarts p) (WEXITSTATUS status)"
    and p': "p' = p\<lparr>p_state := ended_state (p_state p),
       p_restarts := (if v = Leave then p_restarts p else p_restarts p + 1)\<rparr>"
  shows "\<exists>S. process_on_exit jid i status s = (if v = Restart then job_proc_start jid i S else (Inr (), S)) \<and>
     aside (s\<lparr>h_jobs := (h_jobs s)(jid \<mapsto> (if v = Restart then put_proc i p' j\<lparr>j_state := J_STARTING\<rparr>
       else settled (put_proc i p' j)))\<rparr>) S"
  using st b j i p v p'
  by (cases v) (auto simp: process_on_exit_def job_on_exit_def verdict_def run_simps set_proc_state_def Let_def
    job_settle_ok upd_proc_def put_proc_def ended_state_def aside_def set_job_state_def proc_add_restart_def
    split: if_splits restart_policy.splits)

text \<open>The first half of the handler: the child is reaped, its timer and its descriptor go.\<close>

lemma reap_ok:
  assumes ok: "kernel_ok (w_ans s)" and j: "h_jobs s jid = Some j" and i: "i < length (j_processes j)"
    and p: "p = j_processes j ! i" and w: "w_ans s (w_clock s) (SysWaitpid (p_pid p)) \<noteq> -1"
    and status: "status = w_status s (w_clock s)"
  shows "\<exists>S. process_on_state_change jid i s =
       (if WIFEXITED status then process_on_exit jid i status S
        else if WIFSIGNALED status then process_on_forced_exit jid i status S
        else set_proc_state jid i P_UNKNOWN S) \<and>
     aside (s\<lparr>h_jobs := (h_jobs s)(jid \<mapsto> put_proc i (p\<lparr>p_timer := None\<rparr>) j)\<rparr>) S"
proof -
  let ?s1 = "s\<lparr>w_clock := Suc (w_clock s),
      w_trace := (SysWaitpid (p_pid p), w_ans s (w_clock s) (SysWaitpid (p_pid p))) # w_trace s,
      h_jobs := (h_jobs s)(jid \<mapsto> put_proc i (p\<lparr>p_timer := None\<rparr>) j)\<rparr>"
  obtain s2 where s2: "timer_release (p_timer p) ?s1 = (Inr (), s2)" "aside ?s1 s2"
    using timer_release_ok [of ?s1] ok by auto
  have "process_on_state_change jid i s =
      seqM (unregisterEvent (p_fd p))
         (if WIFEXITED status then process_on_exit jid i status
          else if WIFSIGNALED status then process_on_forced_exit jid i status
          else set_proc_state jid i P_UNKNOWN) s2"
    unfolding status using w s2(1) i
    by (simp add: process_on_state_change_def waitpid_def proc_clear_timer_def run_simps j p [symmetric]
      upd_proc_def put_proc_def)
  moreover obtain s3 where "unregisterEvent (p_fd p) s2 = (Inr (), s3)" "aside s2 s3"
    using s2(2) kernel_answers(5) [OF ok] by (simp add: unregisterEvent_def run_simps aside_def)
  ultimately show ?thesis
    using s2(2) by (intro exI [of _ s3]) (simp add: run_simps aside_def)
qed

text \<open>
  C3. The supervision of exits: when a child exits by itself, the handler reaps it and, by the
  contract \<open>verdict\<close>, either starts exactly one new child in its place, counts the restart and
  puts the job in state STARTING, or starts none, leaves the process BACKOFF (it had not reached its
  start time) or EXITED, and puts the job in state STOPPED if all its processes are at rest. With
  its budget of restarts used up, a process is never started again.
\<close>

theorem exit_supervision:
  assumes ok: "kernel_ok (w_ans s)" and j: "h_jobs s jid = Some j" and i: "i < length (j_processes j)"
    and p: "p = j_processes j ! i" and st: "p_state p \<in> {P_STARTING, P_RUNNING}" and b: "p_restarts p < 2 ^ 31 - 1"
    and w: "w_ans s (w_clock s) (SysWaitpid (p_pid p)) \<noteq> -1"
    and status: "status = w_status s (w_clock s)" "WIFEXITED status" and argv: "j_argv j \<noteq> []"
    and v: "v = verdict (j_config j) (p_restarts p) (WEXITSTATUS status)"
  shows "\<exists>t p'. process_on_state_change jid i s = (Inr (), t) \<and> signals_sent (w_trace t) = signals_sent (w_trace s) \<and>
     p_restarts p' = (if v = Leave then p_restarts p else p_restarts p + 1) \<and>
     (if v = Restart
      then p_state p' = P_STARTING \<and> h_jobs t = (h_jobs s)(jid \<mapsto> put_proc i p' j\<lparr>j_state := J_STARTING\<rparr>) \<and>
        children (w_trace t) = p_pid p' # children (w_trace s)
      else p_state p' = ended_state (p_state p) \<and> h_jobs t = (h_jobs s)(jid \<mapsto> settled (put_proc i p' j)) \<and>
        children (w_trace t) = children (w_trace s))"
proof -
  let ?j0 = "put_proc i (p\<lparr>p_timer := None\<rparr>) j"
  obtain S where S: "process_on_state_change jid i s = process_on_exit jid i status S"
      "aside (s\<lparr>h_jobs := (h_jobs s)(jid \<mapsto> ?j0)\<rparr>) S"
    using reap_ok [OF ok j i p w status(1)] status(2) by auto
  let ?p1 = "p\<lparr>p_timer := None, p_state := ended_state (p_state p),
       p_restarts := (if v = Leave then p_restarts p else p_restarts p + 1)\<rparr>"
  have jS: "h_jobs S jid = Some ?j0" using S(2) by (simp add: aside_def)
  have "j_config ?j0 = j_config j" by (simp add: put_proc_def)
  then obtain T where T: "process_on_exit jid i status S = (if v = Restart then job_proc_start jid i T else (Inr (), T))"
     "aside (S\<lparr>h_jobs := (h_jobs S)(jid \<mapsto> (if v = Restart then put_proc i ?p1 ?j0\<lparr>j_state := J_STARTING\<rparr>
       else settled (put_proc i ?p1 ?j0)))\<rparr>) T"
    using exit_leads_to [OF jS, of i "p\<lparr>p_timer := None\<rparr>" v status ?p1] st b i v
    by (auto simp: put_proc_def)
  have put: "put_proc i q (put_proc i r j) = put_proc i q j" for q r by (simp add: put_proc_def)
  have eff: "w_ans T = w_ans s" "children (w_trace T) = children (w_trace s)" 
     "signals_sent (w_trace T) = signals_sent (w_trace s)"
     "h_jobs T = (h_jobs s)(jid \<mapsto> (if v = Restart then put_proc i ?p1 j\<lparr>j_state := J_STARTING\<rparr>
       else settled (put_proc i ?p1 j)))"
    using S(2) T(2) by (simp_all add: aside_def put)
  show ?thesis
  proof (cases "v = Restart")
    case False
    with S(1) T(1) eff show ?thesis
      by (intro exI [of _ T] exI [of _ ?p1]) simp
  next
    case True
    let ?j1 = "put_proc i ?p1 j\<lparr>j_state := J_STARTING\<rparr>"
    have "kernel_ok (w_ans T)" "h_jobs T jid = Some ?j1" "i < length (j_processes ?j1)" "j_argv ?j1 \<noteq> []"
      using ok eff True i argv by (simp_all add: put_proc_def)
    from job_proc_start_ok [OF this] obtain t pid p' where t: "job_proc_start jid i T = (Inr (), t)"
      "h_jobs t = (h_jobs T)(jid \<mapsto> put_proc i p' ?j1)" "started jid i (j_config ?j1) pid (j_processes ?j1 ! i) p'"
      "children (w_trace t) = pid # children (w_trace T)" "signals_sent (w_trace t) = signals_sent (w_trace T)"
      by blast
    with S(1) T(1) eff True i show ?thesis
      by (intro exI [of _ t] exI [of _ p']) (simp add: put_proc_def started_def state_commute)
  qed
qed

theorem exit_supervision_witness:
  "\<exists>(s :: doc daemon) t j'. h_jobs s 0 \<noteq> None \<and> process_on_state_change 0 0 s = (Inr (), t) \<and>
     h_jobs t 0 = Some j' \<and> j_state j' = J_STARTING \<and> length (children (w_trace t)) = Suc (length (children (w_trace s)))"
proof -
  obtain s :: "doc daemon" and j p where s: "h_jobs s 0 = Some j" "j_config j = ls_config" "j_argv j = [''/bin/ls'']"
    "j_processes j = [p]" "p_state p = P_STARTING" "p_restarts p = 0" "p_pid p = 1008" "w_ans s = good_kernel"
    "w_status s = (\<lambda>n. 0x100)"
    by (rule example_started_job) (rule that)
  have h: "kernel_ok (w_ans s)" "0 < length (j_processes j)" "p = j_processes j ! 0" "p_state p \<in> {P_STARTING, P_RUNNING}"
    "p_restarts p < 2 ^ 31 - 1" "w_ans s (w_clock s) (SysWaitpid (p_pid p)) \<noteq> -1" "0x100 = w_status s (w_clock s)"
    "WIFEXITED 0x100" "j_argv j \<noteq> []" "Restart = verdict (j_config j) (p_restarts p) (WEXITSTATUS 0x100)"
    by (simp_all add: s good_kernel_ok WIFEXITED_def WTERMSIG_def verdict_def ls_config_def WEXITSTATUS_def)
  obtain t p' where t: "process_on_state_change 0 0 s = (Inr (), t)"
    "h_jobs t = (h_jobs s)(0 \<mapsto> put_proc 0 p' j\<lparr>j_state := J_STARTING\<rparr>)"
    "children (w_trace t) = p_pid p' # children (w_trace s)"
    using exit_supervision [OF h(1) s(1) h(2-10)] by (simp only: simp_thms if_True) (elim exE conjE, rule that)
  then show ?thesis using s(1) by (intro exI [of _ s] exI [of _ t]) simp
qed

section \<open>Stopping\<close>

text \<open>Signalled: the process is \<open>STOPPING\<close> and its timer is set to the stop time.\<close>

definition signalled :: "nat \<Rightarrow> nat \<Rightarrow> int \<Rightarrow> process \<Rightarrow> process \<Rightarrow> bool" where
  "signalled jid i timeout p p' \<longleftrightarrow> p_state p' = P_STOPPING \<and> p_pid p' = p_pid p \<and> p_name p' = p_name p \<and>
     p_fd p' = p_fd p \<and> p_restarts p' = p_restarts p \<and> (\<exists>t. p_timer p' = Some t \<and> t_interval t = timeout \<and>
       t_state t = T_RUNNING \<and> t_callback t = TcStopTime jid i)"

lemma process_stop_ok:
  assumes ok: "kernel_ok (w_ans s)" and j: "h_jobs s jid = Some j" and i: "i < length (j_processes j)"
    and p: "p = j_processes j ! i" and st: "p_state p \<notin> {P_BACKOFF, P_EXITED}"
  shows "\<exists>t p'. process_stop jid i timeout sig s = (Inr (), t) \<and> h_jobs t = (h_jobs s)(jid \<mapsto> put_proc i p' j) \<and>
     signalled jid i timeout p p' \<and> signals_sent (w_trace t) = (p_fd p, signal_number sig) # signals_sent (w_trace s) \<and>
     children (w_trace t) = children (w_trace s) \<and> w_ans t = w_ans s \<and> m_jobs t = m_jobs s \<and> m_config t = m_config s"
proof -
  obtain key where key: "signal_key sig = Some key"
    by (cases sig) (simp_all add: signal_key_def signal_names_def)
  let ?p1 = "p\<lparr>p_state := P_STOPPING\<rparr>" and ?cb = "TcStopTime jid i"
  have "\<exists>s1. process_stop jid i timeout sig s = seqM (proc_reset_timer jid i timeout ?cb) (proc_start_timer jid i) s1 \<and>
      h_jobs s1 = (h_jobs s)(jid \<mapsto> put_proc i ?p1 j) \<and> w_ans s1 = w_ans s \<and> m_jobs s1 = m_jobs s \<and>
      m_config s1 = m_config s \<and> signals_sent (w_trace s1) = (p_fd p, signal_number sig) # signals_sent (w_trace s) \<and>
      children (w_trace s1) = children (w_trace s)"
    using i st kernel_answers(6) [OF ok]
    apply (simp add: process_stop_def run_simps j p key set_proc_state_def)
    by (rule exI, rule conjI, rule refl) (simp add: upd_proc_def put_proc_def)
  then obtain s1 where
    s1: "process_stop jid i timeout sig s = seqM (proc_reset_timer jid i timeout ?cb) (proc_start_timer jid i) s1"
    and e1: "h_jobs s1 = (h_jobs s)(jid \<mapsto> put_proc i ?p1 j)" "w_ans s1 = w_ans s" "m_jobs s1 = m_jobs s"
      "m_config s1 = m_config s" "signals_sent (w_trace s1) = (p_fd p, signal_number sig) # signals_sent (w_trace s)"
      "children (w_trace s1) = children (w_trace s)"
    by (elim exE conjE)
  have j1: "h_jobs s1 jid = Some (put_proc i ?p1 j)" "i < length (j_processes (put_proc i ?p1 j))"
    using e1(1) i by (simp_all add: put_proc_def)
  have ok1: "kernel_ok (w_ans s1)" using ok e1(2) by simp
  obtain S tm where reset: "proc_reset_timer jid i timeout ?cb s1 = (Inr (), S)"
    and S: "aside (s1\<lparr>h_jobs := (h_jobs s1)(jid \<mapsto> put_proc i
        ((j_processes (put_proc i ?p1 j) ! i)\<lparr>p_timer := Some tm\<rparr>) (put_proc i ?p1 j))\<rparr>) S"
    and tm: "t_interval tm = timeout" "t_callback tm = ?cb"
    using reset_timer_ok [OF ok1 j1] by blast
  note eff = S [unfolded aside_def, simplified]
  show ?thesis
    using kernel_answers [OF ok] i tm eff e1 s1
    apply (simp add: reset proc_start_timer_def timer_start_def registerEvent_def updateEventInternal_def Let_def
      run_simps upd_proc_def put_proc_def fun_upd_same del: fun_upd_apply)
    by (rule exI, rule conjI, rule refl) (simp add: signalled_def)
qed

text \<open>
  What the end of a stop means for the job, given the configuration in force: \<open>REMOVE\<close> if its entry
  is gone, \<open>REPLACE\<close> if the entry changed, else \<open>STOPPED\<close>.
\<close>

definition marked :: "(string, jobconfig) umap \<Rightarrow> job \<Rightarrow> job" where
  "marked configs j = (case um_find (c_name (j_config j)) configs of
     None \<Rightarrow> j\<lparr>j_state := J_REMOVE\<rparr>
   | Some c \<Rightarrow> if config_eq c (j_config j) then j else j\<lparr>j_state := J_REPLACE\<rparr>)"

definition stop_settled :: "(string, jobconfig) umap \<Rightarrow> job \<Rightarrow> job" where
  "stop_settled configs j = (if list_all (\<lambda>p. p_state p = P_STOPPED) (j_processes j)
     then marked configs (j\<lparr>j_state := J_STOPPED\<rparr>) else j)"

lemma manager_on_stop_ok:
  assumes "h_jobs s jid = Some j" and "um_find (c_name (j_config j)) (m_jobs s) = Some jid"
  shows "manager_on_stop (c_name (j_config j)) s =
     (Inr (), s\<lparr>h_jobs := (h_jobs s)(jid \<mapsto> marked (m_config s) j)\<rparr>)"
  using assms
  by (auto simp: manager_on_stop_def run_simps marked_def set_job_state_def fun_upd_idem split: option.split)

lemma job_on_stop_ok:
  assumes "h_jobs s jid = Some j" and "um_find (c_name (j_config j)) (m_jobs s) = Some jid"
    and "j_state j = J_STOPPING"
  shows "job_on_stop jid i s = (Inr (), s\<lparr>h_jobs := (h_jobs s)(jid \<mapsto> stop_settled (m_config s) j)\<rparr>)"
  using assms manager_on_stop_ok [of "s\<lparr>h_jobs := (h_jobs s)(jid \<mapsto> j\<lparr>j_state := J_STOPPED\<rparr>)\<rparr>" jid "j\<lparr>j_state := J_STOPPED\<rparr>"]
  by (auto simp: job_on_stop_def run_simps all_processes_in_states_def stop_settled_def set_job_state_def
    fun_upd_idem list_all_iff)

text \<open>Both ways a child can end lead to \<open>onStop\<close> when the process was being stopped.\<close>

definition ended_by_stop :: "process \<Rightarrow> 32 word \<Rightarrow> bool" where
  "ended_by_stop p status \<longleftrightarrow> (if WIFEXITED status then p_state p = P_STOPPING else WIFSIGNALED status)"

lemma stop_leads_to:
  assumes ok: "kernel_ok (w_ans s)" and j: "h_jobs s jid = Some j" and i: "i < length (j_processes j)"
    and p: "p = j_processes j ! i" and w: "w_ans s (w_clock s) (SysWaitpid (p_pid p)) \<noteq> -1"
    and e: "ended_by_stop p (w_status s (w_clock s))"
  shows "\<exists>S. process_on_state_change jid i s = job_on_stop jid i S \<and>
     aside (s\<lparr>h_jobs := (h_jobs s)(jid \<mapsto> put_proc i (p\<lparr>p_timer := None, p_state := P_STOPPED\<rparr>) j)\<rparr>) S"
proof -
  obtain S where S: "process_on_state_change jid i s =
       (if WIFEXITED (w_status s (w_clock s)) then process_on_exit jid i (w_status s (w_clock s)) S
        else if WIFSIGNALED (w_status s (w_clock s)) then process_on_forced_exit jid i (w_status s (w_clock s)) S
        else set_proc_state jid i P_UNKNOWN S)"
     "aside (s\<lparr>h_jobs := (h_jobs s)(jid \<mapsto> put_proc i (p\<lparr>p_timer := None\<rparr>) j)\<rparr>) S"
    using reap_ok [OF ok j i p w refl] by blast
  note eff = S(2) [unfolded aside_def, simplified]
  show ?thesis
    using i e unfolding S(1) ended_by_stop_def
    by (auto simp: process_on_exit_def process_on_forced_exit_def run_simps set_proc_state_def eff put_proc_def
      upd_proc_def aside_def intro!: exI [of _ "_ :: 'n daemon"])
qed

lemma stopping_child_ends:
  assumes ok: "kernel_ok (w_ans s)" and j: "h_jobs s jid = Some j" and i: "i < length (j_processes j)"
    and p: "p = j_processes j ! i" and w: "w_ans s (w_clock s) (SysWaitpid (p_pid p)) \<noteq> -1"
    and e: "ended_by_stop p (w_status s (w_clock s))"
    and job: "j_state j = J_STOPPING" "um_find (c_name (j_config j)) (m_jobs s) = Some jid"
  shows "\<exists>t. process_on_state_change jid i s = (Inr (), t) \<and>
     h_jobs t = (h_jobs s)(jid \<mapsto> stop_settled (m_config s) (put_proc i (p\<lparr>p_timer := None, p_state := P_STOPPED\<rparr>) j)) \<and>
     children (w_trace t) = children (w_trace s) \<and> signals_sent (w_trace t) = signals_sent (w_trace s)"
proof -
  let ?j = "put_proc i (p\<lparr>p_timer := None, p_state := P_STOPPED\<rparr>) j"
  obtain S where S: "process_on_state_change jid i s = job_on_stop jid i S"
    "aside (s\<lparr>h_jobs := (h_jobs s)(jid \<mapsto> ?j)\<rparr>) S"
    using stop_leads_to [OF ok j i p w e] by blast
  have "h_jobs S jid = Some ?j" "um_find (c_name (j_config ?j)) (m_jobs S) = Some jid" "j_state ?j = J_STOPPING"
    using S(2) job by (simp_all add: aside_def put_proc_def)
  from job_on_stop_ok [OF this] S show ?thesis by (simp add: aside_def)
qed

text \<open>
  C7. A stop completes: when the last running process of a job that is being stopped ends, by itself or
  by a signal, the job is STOPPED and at once marked for removal or replacement as the configuration
  in force demands; as long as another process is not stopped, the job stays STOPPING. Nothing is
  started and nothing is signalled.
\<close>

theorem stop_completes:
  assumes ok: "kernel_ok (w_ans s)" and j: "h_jobs s jid = Some j" and i: "i < length (j_processes j)"
    and p: "p = j_processes j ! i" and w: "w_ans s (w_clock s) (SysWaitpid (p_pid p)) \<noteq> -1"
    and e: "ended_by_stop p (w_status s (w_clock s))"
    and job: "j_state j = J_STOPPING" "um_find (c_name (j_config j)) (m_jobs s) = Some jid"
  shows "\<exists>t. process_on_state_change jid i s = (Inr (), t) \<and>
     h_jobs t = (h_jobs s)(jid \<mapsto> stop_settled (m_config s) (put_proc i (p\<lparr>p_timer := None, p_state := P_STOPPED\<rparr>) j)) \<and>
     children (w_trace t) = children (w_trace s) \<and> signals_sent (w_trace t) = signals_sent (w_trace s)"
  using assms by (rule stopping_child_ends)

theorem stop_completes_witness:
  "\<exists>t j'. process_on_state_change 0 0 (example_at (example_job J_STOPPING [example_proc P_STOPPING (TcStopTime 0 0)]) 15)
      = (Inr (), t) \<and> h_jobs t 0 = Some j' \<and> j_state j' = J_STOPPED"
proof -
  let ?j = "example_job J_STOPPING [example_proc P_STOPPING (TcStopTime 0 0)]"
  have "config_eq ls_config ls_config" by (simp add: config_eq_def umap_eq_def ls_config_def)
  then show ?thesis
    using stop_completes [of "example_at ?j 15" 0 ?j 0 "example_proc P_STOPPING (TcStopTime 0 0)"]
    by (auto simp: good_kernel_ok ended_by_stop_def WIFEXITED_def WTERMSIG_def WIFSIGNALED_def um_find_def
      stop_settled_def marked_def put_proc_def)
qed

text \<open>
  C9. A restart brings the process back: when a process ends that was being stopped and its job has been
  started again meanwhile, exactly one new child takes its place, and no signal is sent.
\<close>

theorem restart_brings_back:
  assumes ok: "kernel_ok (w_ans s)" and j: "h_jobs s jid = Some j" and i: "i < length (j_processes j)"
    and p: "p = j_processes j ! i" and w: "w_ans s (w_clock s) (SysWaitpid (p_pid p)) \<noteq> -1"
    and e: "ended_by_stop p (w_status s (w_clock s))" and job: "j_state j = J_STARTING" "j_argv j \<noteq> []"
  shows "\<exists>t p'. process_on_state_change jid i s = (Inr (), t) \<and> h_jobs t = (h_jobs s)(jid \<mapsto> put_proc i p' j) \<and>
     p_state p' = P_STARTING \<and> children (w_trace t) = p_pid p' # children (w_trace s) \<and>
     signals_sent (w_trace t) = signals_sent (w_trace s)"
proof -
  let ?j = "put_proc i (p\<lparr>p_timer := None, p_state := P_STOPPED\<rparr>) j"
  obtain S where S: "process_on_state_change jid i s = job_on_stop jid i S"
    "aside (s\<lparr>h_jobs := (h_jobs s)(jid \<mapsto> ?j)\<rparr>) S"
    using stop_leads_to [OF ok j i p w e] by blast
  have S': "kernel_ok (w_ans S)" "h_jobs S jid = Some ?j" "i < length (j_processes ?j)" "j_argv ?j \<noteq> []"
    using S(2) job i ok by (simp_all add: aside_def put_proc_def)
  have "job_on_stop jid i S = job_proc_start jid i S"
    using S'(2) job by (simp add: job_on_stop_def run_simps put_proc_def)
  moreover obtain t pid p' where "job_proc_start jid i S = (Inr (), t)" "h_jobs t = (h_jobs S)(jid \<mapsto> put_proc i p' ?j)"
    "started jid i (j_config ?j) pid (j_processes ?j ! i) p'" "children (w_trace t) = pid # children (w_trace S)"
    "signals_sent (w_trace t) = signals_sent (w_trace S)"
    using job_proc_start_ok [OF S'] by blast
  ultimately show ?thesis
    using S by (intro exI [of _ t] exI [of _ p']) (simp add: aside_def started_def put_proc_def)
qed

theorem restart_brings_back_witness:
  "\<exists>t j'. process_on_state_change 0 0 (example_at (example_job J_STARTING [example_proc P_STOPPING (TcStopTime 0 0)]) 15)
      = (Inr (), t) \<and> h_jobs t 0 = Some j' \<and> length (children (w_trace t)) = 1"
proof -
  let ?j = "example_job J_STARTING [example_proc P_STOPPING (TcStopTime 0 0)]"
  show ?thesis
    using restart_brings_back [of "example_at ?j 15" 0 ?j 0 "example_proc P_STOPPING (TcStopTime 0 0)"]
    by (auto simp: good_kernel_ok ended_by_stop_def WIFEXITED_def WTERMSIG_def WIFSIGNALED_def)
qed

text \<open>
  C25. A process killed by a signal while its job runs is not started again, whatever the restart policy
  and the budget: it is STOPPED, its job keeps the state RUNNING, and no child is made.
\<close>

theorem killed_not_restarted:
  assumes ok: "kernel_ok (w_ans s)" and j: "h_jobs s jid = Some j" and i: "i < length (j_processes j)"
    and p: "p = j_processes j ! i" and w: "w_ans s (w_clock s) (SysWaitpid (p_pid p)) \<noteq> -1"
    and status: "\<not> WIFEXITED (w_status s (w_clock s))" "WIFSIGNALED (w_status s (w_clock s))"
    and job: "j_state j = J_RUNNING"
  shows "\<exists>t. process_on_state_change jid i s = (Inr (), t) \<and>
     h_jobs t = (h_jobs s)(jid \<mapsto> put_proc i (p\<lparr>p_timer := None, p_state := P_STOPPED\<rparr>) j) \<and>
     children (w_trace t) = children (w_trace s)"
proof -
  let ?j = "put_proc i (p\<lparr>p_timer := None, p_state := P_STOPPED\<rparr>) j"
  have "ended_by_stop p (w_status s (w_clock s))" using status by (simp add: ended_by_stop_def)
  from stop_leads_to [OF ok j i p w this] obtain S where S: "process_on_state_change jid i s = job_on_stop jid i S"
    "aside (s\<lparr>h_jobs := (h_jobs s)(jid \<mapsto> ?j)\<rparr>) S"
    by blast
  then show ?thesis
    using job i by (simp add: job_on_stop_def run_simps aside_def put_proc_def)
qed

theorem killed_not_restarted_witness:
  "\<exists>t j'. process_on_state_change 0 0 (example_at (example_job J_RUNNING [example_proc P_RUNNING (TcStartTime 0 0)]) 11)
      = (Inr (), t) \<and> h_jobs t 0 = Some j' \<and> j_state j' = J_RUNNING \<and> map p_state (j_processes j') = [P_STOPPED] \<and>
      children (w_trace t) = [] \<and> c_restart_policy (j_config j') = ON_FAILURE"
proof -
  let ?j = "example_job J_RUNNING [example_proc P_RUNNING (TcStartTime 0 0)]"
  show ?thesis
    using killed_not_restarted [of "example_at ?j 11" 0 ?j 0 "example_proc P_RUNNING (TcStartTime 0 0)"]
    by (auto simp: good_kernel_ok WIFEXITED_def WTERMSIG_def WIFSIGNALED_def put_proc_def ls_config_def)
qed

text \<open>
  C10. Timers: when a timer of a process expires, it is disarmed, and a start timer makes the process
  RUNNING, and the job RUNNING when all its processes are; a stop timer sends SIGKILL to the
  process's descriptor if the process is still STOPPING, and does nothing else.
\<close>

theorem timer_outcome:
  assumes ok: "kernel_ok (w_ans s)" and j: "h_jobs s jid = Some j" and i: "i < length (j_processes j)"
    and p: "p = j_processes j ! i" and tm: "p_timer p = Some tm" "t_id tm = tid"
    and p': "p' = p\<lparr>p_timer := Some (tm\<lparr>t_state := T_STOPPED\<rparr>)\<rparr>"
    and jr: "jr = put_proc i (p'\<lparr>p_state := P_RUNNING\<rparr>) j"
    and cb: "t_callback tm \<in> {TcStartTime jid i, TcStopTime jid i}"
  shows "\<exists>t. timer_expired jid i tid s = (Inr (), t) \<and> em_read_callbacks t (t_fd tm) = None \<and>
     children (w_trace t) = children (w_trace s) \<and>
     (if t_callback tm = TcStartTime jid i
      then signals_sent (w_trace t) = signals_sent (w_trace s) \<and> h_jobs t = (h_jobs s)(jid \<mapsto>
        (if \<forall>q \<in> set (j_processes jr). p_state q = P_RUNNING then jr\<lparr>j_state := J_RUNNING\<rparr> else jr))
      else h_jobs t = (h_jobs s)(jid \<mapsto> put_proc i p' j) \<and>
        signals_sent (w_trace t) = (if p_state p = P_STOPPING then [(p_fd p, 9)] else []) @ signals_sent (w_trace s))"
proof (cases "t_callback tm = TcStartTime jid i")
  case True
  then show ?thesis
    using j i tm kernel_answers(5,10) [OF ok]
    by (auto simp: timer_expired_def timer_on_expire_def run_simps unregisterEvent_def process_on_start_time_def
      set_proc_state_def job_on_process_surpassed_start_time_def all_processes_in_states_def set_job_state_def p [symmetric]
      p' jr put_proc_def upd_proc_def list_all_iff)
next
  case False
  with cb have "t_callback tm = TcStopTime jid i" by simp
  then show ?thesis
    using j i tm kernel_answers(5,6,10) [OF ok]
    by (auto simp: timer_expired_def timer_on_expire_def run_simps unregisterEvent_def process_on_stop_time_def
      process_kill_def p [symmetric] p' put_proc_def upd_proc_def state_same)
qed

theorem timer_outcome_witness:
  "\<exists>t. timer_expired 0 0 1 (example_at (example_job J_STOPPING [example_proc P_STOPPING (TcStopTime 0 0)]) 0)
      = (Inr (), t) \<and> signals_sent (w_trace t) = [(20, 9)]"
proof -
  let ?p = "example_proc P_STOPPING (TcStopTime 0 0)" and ?tm = "example_timer (TcStopTime 0 0)"
  let ?j = "example_job J_STOPPING [?p]"
  show ?thesis
    using timer_outcome [of "example_at ?j 0" 0 ?j 0 ?p ?tm 1 "?p\<lparr>p_timer := Some (?tm\<lparr>t_state := T_STOPPED\<rparr>)\<rparr>" _, OF _ _ _ _ _ _ refl refl]
    by (auto simp: good_kernel_ok)
qed

end
