(* ===== verification/Job_Stopping.thy ===== *)
theory Job_Stopping
  imports Supervision
begin

text \<open>
  The whole of \<open>Job::stop\<close> and \<open>Job::start\<close>: the loops over a job's processes, on a kernel whose calls
  succeed.
\<close>

section \<open>Stopping every process\<close>














section \<open>Starting a job\<close>

text \<open>The process the loop makes for number \<open>n\<close>.\<close>

definition launched :: "jobconfig \<Rightarrow> nat \<Rightarrow> int \<Rightarrow> process \<Rightarrow> bool" where
  "launched c n pgid p \<longleftrightarrow> p_name p = c_name c @ ''_'' @ to_string (int n) \<and> p_state p = P_STARTING \<and>
     p_restarts p = 0 \<and> p_pgid p = pgid \<and> 0 < p_pid p"

text \<open>The process group a process is put in: the first one leads it.\<close>

definition group_of :: "process list \<Rightarrow> nat \<Rightarrow> int" where
  "group_of ps i = (if i = 0 then 0 else p_pid (ps ! 0))"

lemma job_create_process_ok:
  assumes ok: "kernel_ok (w_ans s)" and j: "h_jobs s jid = Some j" and argv: "j_argv j \<noteq> []"
  shows "\<exists>t p. job_create_process jid n s = (Inr (), t) \<and> launched (j_config j) n (j_pgid j) p \<and>
     h_jobs t = (h_jobs s)(jid \<mapsto> j\<lparr>j_processes := j_processes j @ [p],
       j_pgid := (if j_pgid j = 0 then p_pid p else j_pgid j)\<rparr>) \<and>
     children (w_trace t) = p_pid p # children (w_trace s) \<and> signals_sent (w_trace t) = signals_sent (w_trace s) \<and>
     w_ans t = w_ans s"
proof -
  let ?p0 = "process_new (c_name (j_config j) @ ''_'' @ to_string (int n)) (j_pgid j)" and ?i = "length (j_processes j)"
  let ?j1 = "j\<lparr>j_processes := j_processes j @ [?p0]\<rparr>"
  let ?s1 = "s\<lparr>h_jobs := (h_jobs s)(jid \<mapsto> ?j1)\<rparr>"
  obtain t pid p where t: "job_proc_start jid ?i ?s1 = (Inr (), t)" "h_jobs t = (h_jobs ?s1)(jid \<mapsto> put_proc ?i p ?j1)"
    "started jid ?i (j_config ?j1) pid (j_processes ?j1 ! ?i) p" "children (w_trace t) = pid # children (w_trace ?s1)"
    "signals_sent (w_trace t) = signals_sent (w_trace ?s1)" "w_ans t = w_ans ?s1"
    using job_proc_start_ok [of ?s1 jid ?j1 ?i] ok argv by auto
  have run: "job_create_process jid n s = bindM (get_job jid) (\<lambda>j. whenM (j_pgid j = 0)
      (bindM (get_proc jid ?i) (\<lambda>p. mod_job jid (\<lambda>j. j\<lparr>j_pgid := p_pid p\<rparr>)))) t"
    using t(1) by (simp add: job_create_process_def run_simps j Let_def)
  have "launched (j_config j) n (j_pgid j) p"
    using t(3) by (auto simp: started_def launched_def process_new_def)
  then show ?thesis
    unfolding run using t(2-6)
    by (cases "j_pgid j = 0") (auto simp: run_simps put_proc_def started_def)
qed

lemma create_loop:
  assumes "kernel_ok (w_ans s)" and "h_jobs s jid = Some j" and "j_argv j \<noteq> []" and "length (j_processes j) = k"
    and "\<forall>i < k. launched (j_config j) i (if i = 0 then 0 else p_pid (hd (j_processes j))) (j_processes j ! i)"
    and "j_pgid j = (if k = 0 then 0 else p_pid (hd (j_processes j)))"
  shows "\<exists>t j' new. forM (job_create_process jid) [k..<k + d] s = (Inr (), t) \<and> h_jobs t = (h_jobs s)(jid \<mapsto> j') \<and>
     j_processes j' = j_processes j @ new \<and> length new = d \<and> j_config j' = j_config j \<and> j_argv j' = j_argv j \<and>
     (\<forall>i < k + d. launched (j_config j) i (if i = 0 then 0 else p_pid (hd (j_processes j'))) (j_processes j' ! i)) \<and>
     children (w_trace t) = rev (map p_pid new) @ children (w_trace s) \<and>
     signals_sent (w_trace t) = signals_sent (w_trace s)"
  using assms
proof (induction d arbitrary: k s j)
  case 0
  then show ?case
    by (intro exI [of _ s] exI [of _ j] exI [of _ "[]"]) (simp add: run_simps fun_upd_idem)
next
  case (Suc d)
  obtain s1 p where s1: "job_create_process jid k s = (Inr (), s1)" "launched (j_config j) k (j_pgid j) p"
    "h_jobs s1 = (h_jobs s)(jid \<mapsto> j\<lparr>j_processes := j_processes j @ [p],
       j_pgid := (if j_pgid j = 0 then p_pid p else j_pgid j)\<rparr>)"
    "children (w_trace s1) = p_pid p # children (w_trace s)" "signals_sent (w_trace s1) = signals_sent (w_trace s)"
    "w_ans s1 = w_ans s"
    using job_create_process_ok [OF Suc.prems(1-3)] by blast
  let ?j1 = "j\<lparr>j_processes := j_processes j @ [p], j_pgid := (if j_pgid j = 0 then p_pid p else j_pgid j)\<rparr>"
  have hd: "j_pgid ?j1 = p_pid (hd (j_processes ?j1))"
  proof (cases "j_processes j")
    case (Cons q qs)
    with Suc.prems(4,5) have "0 < p_pid q" by (force simp: launched_def)
    with Cons Suc.prems(4,6) show ?thesis by auto
  qed (use Suc.prems(4,6) in auto)
  have l: "launched (j_config j) i (if i = 0 then 0 else p_pid (hd (j_processes ?j1))) (j_processes ?j1 ! i)"
    if "i < Suc k" for i
  proof (cases "i = k")
    case True
    then show ?thesis
      using s1(2) Suc.prems(4,6) by (cases "j_processes j") (auto simp: nth_append)
  next
    case False
    with that Suc.prems(4,5) show ?thesis by (cases "j_processes j") (auto simp: nth_append)
  qed
  have "\<exists>t j' new. forM (job_create_process jid) [Suc k..<Suc k + d] s1 = (Inr (), t) \<and>
     h_jobs t = (h_jobs s1)(jid \<mapsto> j') \<and>
     j_processes j' = j_processes ?j1 @ new \<and> length new = d \<and> j_config j' = j_config ?j1 \<and> j_argv j' = j_argv ?j1 \<and>
     (\<forall>i < Suc k + d. launched (j_config ?j1) i (if i = 0 then 0 else p_pid (hd (j_processes j'))) (j_processes j' ! i)) \<and>
     children (w_trace t) = rev (map p_pid new) @ children (w_trace s1) \<and>
     signals_sent (w_trace t) = signals_sent (w_trace s1)"
  proof (rule Suc.IH)
    show "\<forall>i < Suc k. launched (j_config ?j1) i (if i = 0 then 0 else p_pid (hd (j_processes ?j1))) (j_processes ?j1 ! i)"
      using l by simp
    show "j_pgid ?j1 = (if Suc k = 0 then 0 else p_pid (hd (j_processes ?j1)))" using hd by simp
  qed (use Suc.prems s1 in simp_all)
  then obtain t j' new where t: "forM (job_create_process jid) [Suc k..<Suc k + d] s1 = (Inr (), t)"
     "h_jobs t = (h_jobs s1)(jid \<mapsto> j')" "j_processes j' = j_processes ?j1 @ new" "length new = d"
     "j_config j' = j_config ?j1" "j_argv j' = j_argv ?j1"
     "\<forall>i < Suc k + d. launched (j_config ?j1) i (if i = 0 then 0 else p_pid (hd (j_processes j'))) (j_processes j' ! i)"
     "children (w_trace t) = rev (map p_pid new) @ children (w_trace s1)"
     "signals_sent (w_trace t) = signals_sent (w_trace s1)"
    by (elim exE conjE) (rule that)
  have "[k..<k + Suc d] = k # [Suc k..<Suc k + d]" by (simp add: upt_rec)
  with t s1 show ?case
    by (intro exI [of _ t] exI [of _ j'] exI [of _ "p # new"]) (simp add: run_simps)
qed

lemma job_first_start:
  assumes "kernel_ok (w_ans s)" and j: "h_jobs s jid = Some j" and st: "j_state j = J_EMPTY"
    and "j_argv j \<noteq> []" and ps: "j_processes j = []" and "j_pgid j = 0" and n: "0 \<le> c_numprocs (j_config j)"
  shows "\<exists>t j'. job_start jid s = (Inr (), t) \<and> h_jobs t = (h_jobs s)(jid \<mapsto> j') \<and> j_state j' = J_STARTING \<and>
     j_config j' = j_config j \<and> length (j_processes j') = nat (c_numprocs (j_config j)) \<and>
     (\<forall>i < length (j_processes j'). launched (j_config j) i (group_of (j_processes j') i) (j_processes j' ! i)) \<and>
     children (w_trace t) = rev (map p_pid (j_processes j')) @ children (w_trace s) \<and>
     signals_sent (w_trace t) = signals_sent (w_trace s)"
proof -
  have "\<exists>s0. job_start jid s = seqM (forM (job_create_process jid) [0..<nat (c_numprocs (j_config j))])
      (set_job_state jid J_STARTING) s0 \<and> aside s s0"
    using n by (auto simp: job_start_def job_start_processes_def run_simps j st aside_def)
  then obtain s0 where run: "job_start jid s = seqM (forM (job_create_process jid) [0..<nat (c_numprocs (j_config j))])
      (set_job_state jid J_STARTING) s0" and s0: "aside s s0" by blast
  obtain t j' new where t: "forM (job_create_process jid) [0..<nat (c_numprocs (j_config j))] s0 = (Inr (), t)"
     "h_jobs t = (h_jobs s0)(jid \<mapsto> j')" "j_processes j' = j_processes j @ new" "length new = nat (c_numprocs (j_config j))"
     "\<forall>i < nat (c_numprocs (j_config j)). launched (j_config j) i (if i = 0 then 0 else p_pid (hd (j_processes j'))) (j_processes j' ! i)"
     "children (w_trace t) = rev (map p_pid new) @ children (w_trace s0)"
     "signals_sent (w_trace t) = signals_sent (w_trace s0)" "j_config j' = j_config j"
    using create_loop [of s0 jid j 0 "nat (c_numprocs (j_config j))"] assms s0 by (auto simp: aside_def)
  have "\<forall>i < length new. launched (j_config j) i (group_of new i) (new ! i)"
  proof (intro allI impI)
    fix i
    assume i: "i < length new"
    then have "hd (j_processes j') = new ! 0" using t(3) ps by (cases new) auto
    with t(5) have "launched (j_config j) i (if i = 0 then 0 else p_pid (new ! 0)) (j_processes j' ! i)"
      using i t(4) by (metis (no_types))
    then show "launched (j_config j) i (group_of new i) (new ! i)"
      using t(3) ps by (simp add: group_of_def)
  qed
  with t ps s0 show ?thesis
    unfolding run aside_def by (intro exI [of _ "t\<lparr>h_jobs := (h_jobs t)(jid \<mapsto> j'\<lparr>j_state := J_STARTING\<rparr>)\<rparr>"]
      exI [of _ "j'\<lparr>j_state := J_STARTING\<rparr>"]) (simp add: seqM_run set_job_state_def mod_job_run)
qed

text \<open>
  C8. The first start of a job makes exactly \<open>numprocs\<close> children, one per process and in order; the
  processes are named by the job and their number, are STARTING with an unused budget of restarts,
  and all but the first join the process group of the first. The job is STARTING.
\<close>

theorem job_start_creates:
  assumes "kernel_ok (w_ans s)" and j: "h_jobs s jid = Some j" and st: "j_state j = J_EMPTY"
    and "j_argv j \<noteq> []" and ps: "j_processes j = []" and "j_pgid j = 0" and n: "0 \<le> c_numprocs (j_config j)"
  shows "\<exists>t j'. job_start jid s = (Inr (), t) \<and> h_jobs t = (h_jobs s)(jid \<mapsto> j') \<and> j_state j' = J_STARTING \<and>
     j_config j' = j_config j \<and> length (j_processes j') = nat (c_numprocs (j_config j)) \<and>
     (\<forall>i < length (j_processes j'). launched (j_config j) i (group_of (j_processes j') i) (j_processes j' ! i)) \<and>
     children (w_trace t) = rev (map p_pid (j_processes j')) @ children (w_trace s) \<and>
     signals_sent (w_trace t) = signals_sent (w_trace s)"
  using assms by (rule job_first_start)

theorem job_start_creates_witness:
  "\<exists>t j'. job_start 0 (example_at (example_job J_EMPTY []\<lparr>j_pgid := 0\<rparr>) 0) = (Inr (), t) \<and> h_jobs t 0 = Some j' \<and>
     length (j_processes j') = 1 \<and> length (children (w_trace t)) = 1"
  using job_start_creates [of "example_at (example_job J_EMPTY []\<lparr>j_pgid := 0\<rparr>) 0" 0 "example_job J_EMPTY []\<lparr>j_pgid := 0\<rparr>"]
  by (auto simp: good_kernel_ok ls_config_def)

text \<open>
  Starting a job that runs already touches none of its processes, yet puts the job back in state
  STARTING, where only a start timer can make it RUNNING again.
\<close>

lemma start_running_job:
  assumes "h_jobs s jid = Some j" and "j_state j \<in> {J_STARTING, J_RUNNING, J_REPLACE, J_REMOVE}"
  shows "\<exists>t. job_start jid s = (Inr (), t) \<and> h_jobs t = (h_jobs s)(jid \<mapsto> j\<lparr>j_state := J_STARTING\<rparr>) \<and>
     w_trace t = w_trace s"
  using assms by (auto simp: job_start_def run_simps set_job_state_def)

section \<open>Destroying a job\<close>

lemma proc_destroy_ok:
  assumes "kernel_ok (w_ans s)"
  shows "\<exists>t. proc_destroy p s = (Inr (), t) \<and> aside s t"
proof -
  obtain u where u: "timer_release (p_timer p) s = (Inr (), u)" "aside s u"
    using timer_release_ok [OF assms] by blast
  then show ?thesis
    by (cases "p_fd p = -1") (auto simp: proc_destroy_def fd_destroy_def run_simps aside_def)
qed

lemma aside_trans: "aside s t \<Longrightarrow> aside t u \<Longrightarrow> aside s u"
  by (simp add: aside_def)

lemma procs_destroy_ok: "kernel_ok (w_ans s) \<Longrightarrow> \<exists>t. forM proc_destroy ps s = (Inr (), t) \<and> aside s t"
proof (induction ps arbitrary: s)
  case Nil
  then show ?case by (simp add: run_simps aside_def)
next
  case (Cons p ps)
  obtain u where u: "proc_destroy p s = (Inr (), u)" "aside s u"
    using proc_destroy_ok [OF Cons.prems] by blast
  with Cons.prems obtain t where "forM proc_destroy ps u = (Inr (), t)" "aside u t"
    using Cons.IH [of u] by (auto simp: aside_def)
  with u show ?case by (auto simp: run_simps intro: aside_trans)
qed

lemma job_destroy_ok:
  assumes "kernel_ok (w_ans s)" and "h_jobs s jid = Some j"
  shows "\<exists>t. job_destroy jid s = (Inr (), t) \<and> aside (s\<lparr>h_jobs := (h_jobs s)(jid := None)\<rparr>) t"
  using procs_destroy_ok [of "s\<lparr>h_jobs := (h_jobs s)(jid := None)\<rparr>" "j_processes j"] assms
  by (simp add: job_destroy_def run_simps)

end
