(* ===== verification/Command_Props.thy ===== *)
theory Command_Props
  imports Daemon_Props Job_Stopping
begin

text \<open>
  What the commands promise: which are refused, what they answer and what they leave alone, the
  fallback of \<open>reload\<close>, and how the daemon ends.
\<close>

section \<open>Refused commands\<close>

text \<open>The contract: how many arguments each command takes.\<close>

fun arity_ok :: "command_type \<Rightarrow> nat \<Rightarrow> bool" where
  "arity_ok START n = (n = 1)"
| "arity_ok STOP n = (n = 1)"
| "arity_ok RESTART n = (n = 1)"
| "arity_ok STATUS n = (n \<le> 1)"
| "arity_ok RELOAD n = (n = 0)"
| "arity_ok TERMINATE n = (n = 0)"
| "arity_ok COMMAND_ERROR n = False"
| "arity_ok (CT_Unknown i) n = False"

fun refusal :: "command_type \<Rightarrow> nat \<Rightarrow> command_status" where
  "refusal COMMAND_ERROR n = TYPE_ERROR"
| "refusal (CT_Unknown i) n = TYPE_ERROR"
| "refusal t n = (if n = 0 then ARGUMENT_ERROR else TOO_MANY_ARGUMENTS)"

lemma parseCommand_answer:
  "\<exists>res t. parseCommand cmd s = (Inr res, t) \<and> t\<lparr>w_sinks := w_sinks s\<rparr> = s \<and>
     (if arity_ok (cmd_type cmd) (length (cmd_args cmd)) then res = None
      else \<exists>r. res = Some r \<and> res_status r = refusal (cmd_type cmd) (length (cmd_args cmd)) \<and> res_message r \<noteq> [])"
  by (cases "cmd_type cmd"; cases "cmd_args cmd"; cases "tl (cmd_args cmd)")
    (simp_all add: parseCommand_def Let_def run_simps PROVIDE_JOB_def PROVIDE_SINGLE_JOB_def PROVIDE_STATUS_def
      PROVIDED_WHILST_TERMINATE_def PROVIDED_WHILST_RELOAD_def)

text \<open>
  C21. The validation of commands. \<open>parseCommand\<close> never fails, changes nothing but the log, and lets a
  command through exactly when its type is one of the six and the number of its arguments is right;
  else it answers with the kind of error the contract names and a text. The command that then waits
  for its answer to be sent has the type it came with if it was let through, and is marked as an error
  otherwise, with everything but the log unchanged, so that a malformed \<open>terminate\<close> cannot end the
  daemon.
\<close>

theorem command_validation:
  assumes on: "onCommand cmd s = (Inr (res, cmd'), t)"
  shows "cmd_args cmd' = cmd_args cmd \<and>
    (\<exists>r u. parseCommand cmd s = (Inr r, u) \<and> u\<lparr>w_sinks := w_sinks s\<rparr> = s \<and>
      (if arity_ok (cmd_type cmd) (length (cmd_args cmd)) then r = None \<and> cmd_type cmd' = cmd_type cmd
       else r = Some res \<and> t = u \<and> cmd_type cmd' = COMMAND_ERROR \<and> res_message res \<noteq> [] \<and>
         res_status res = refusal (cmd_type cmd) (length (cmd_args cmd))))"
proof -
  obtain pr u where u: "parseCommand cmd s = (Inr pr, u)" "u\<lparr>w_sinks := w_sinks s\<rparr> = s"
    "if arity_ok (cmd_type cmd) (length (cmd_args cmd)) then pr = None
      else \<exists>r. pr = Some r \<and> res_status r = refusal (cmd_type cmd) (length (cmd_args cmd)) \<and> res_message r \<noteq> []"
    using parseCommand_answer [of cmd s] by (elim exE conjE)
  show ?thesis
  proof (cases "arity_ok (cmd_type cmd) (length (cmd_args cmd))")
    case True
    with u on show ?thesis
      by (auto simp: onCommand_def bindM_run u(1) returnM_run split: prod.splits sum.splits)
  next
    case False
    with u(2,3) on show ?thesis
      by (auto simp: onCommand_def bindM_run u(1) returnM_run)
  qed
qed

theorem command_validation_witness:
  "\<exists>res cmd' t. onCommand \<lparr>cmd_type = TERMINATE, cmd_args = [''ls'']\<rparr> (example_daemon [] 0) = (Inr (res, cmd'), t) \<and>
     cmd_type cmd' = COMMAND_ERROR \<and> res_status res = TOO_MANY_ARGUMENTS"
proof -
  let ?c = "\<lparr>cmd_type = TERMINATE, cmd_args = [''ls'']\<rparr>"
  obtain res cmd' t where r: "onCommand ?c (example_daemon [] 0) = (Inr (res, cmd'), t)"
    by (simp add: onCommand_def parseCommand_def Let_def run_simps)
  from command_validation [OF r] r show ?thesis by auto
qed

section \<open>Jobs by name\<close>








section \<open>Reloading\<close>

text \<open>
  C19. A reload whose configuration cannot be loaded falls back to the old one: it answers ERROR with the
  reason, and the jobs, the configuration in force and everything else but the log are as before.
\<close>

theorem reload_fallback:
  assumes "getJobConfigs (d_config_env s (d_loads s)) (d_load s (d_loads s)) = Inl (StdExn w)"
  shows "manager_reload s = (Inr \<lparr>res_status = ERROR,
     res_message = ''Failed to reload new config: fallback to old config! Issue: '' @ w\<rparr>,
     s\<lparr>d_loads := Suc (d_loads s), w_sinks := log_sinks (w_logger s)
         (getJobConfigs_log (d_config_env s (d_loads s)) (d_load s (d_loads s))) (w_sinks s)\<rparr>)"
  using assms by (simp add: manager_reload_def load_configs_def respond_def run_simps)

theorem reload_fallback_witness:
  "\<exists>w. manager_reload ((example_daemon [] 0)\<lparr>d_load := \<lambda>n. Inl (StdExn ''bad file'')\<rparr>) = (Inr \<lparr>res_status = ERROR,
     res_message = ''Failed to reload new config: fallback to old config! Issue: bad file''\<rparr>, w)"
  using reload_fallback [of "(example_daemon [] 0)\<lparr>d_load := \<lambda>n. Inl (StdExn ''bad file'')\<rparr>" "''bad file''"]
  by (simp add: getJobConfigs_def)

section \<open>The daemon's state\<close>

definition ends_by :: "command \<Rightarrow> 'n daemon \<Rightarrow> 'n daemon \<Rightarrow> bool" where
  "ends_by command s t \<longleftrightarrow> g_state t = g_state s \<or> cmd_type command = TERMINATE \<and> g_state t = G_TERMINATED"

interpretation eb: world_effect "ends_by command :: 'n daemon \<Rightarrow> 'n daemon \<Rightarrow> bool" for command
  by unfold_locales
    (auto simp: ends_by_def keeps_def run_simps registerEvent_def updateEventInternal_def unregisterEvent_def Let_def)

lemma client_parts_eb:
  "keeps (ends_by command) (mod_client cid f)" "keeps (ends_by command) (set_writer cid w)"
  "keeps (ends_by command) (client_registers cid fd)" "keeps (ends_by command) (client_drop cid fd)"
proof -
  show mc: "keeps (ends_by command) (mod_client cid f)" for cid f
    by (simp add: mod_client_def eb.modify_keeps ends_by_def)
  show "keeps (ends_by command) (set_writer cid w)" "keeps (ends_by command) (client_registers cid fd)"
    "keeps (ends_by command) (client_drop cid fd)"
    unfolding set_writer_def client_registers_def client_drop_def client_close_def
    by (auto intro!: mc eb.surroundings_keeps)
qed

text \<open>
  C23. Serving a client ends the daemon only on request: writing an answer leaves the daemon's state as
  it is, whatever fails, unless the command the answer belongs to is of type \<open>terminate\<close>, and then
  the state can only become TERMINATED.
\<close>

theorem terminate_on_request:
  fixes s :: "'n daemon"
  assumes "cmd_type command \<noteq> TERMINATE"
  shows "g_state (snd (client_handle_write cid command s)) = g_state s"
proof -
  have "keeps (ends_by command :: 'n daemon \<Rightarrow> _) (client_handle_write cid command)"
    unfolding client_handle_write_def using assms
    by (auto intro!: eb.surroundings_keeps client_parts_eb)
  with assms show ?thesis by (simp add: keeps_def ends_by_def)
qed

theorem terminate_on_request_witness:
  "g_state (snd (client_handle_write 0 \<lparr>cmd_type = STATUS, cmd_args = []\<rparr> (example_daemon [] 0))) = G_RUNNING"
  by (subst terminate_on_request) simp_all

text \<open>
  A signal that arrives while \<open>reload\<close> runs is lost: between the return of \<open>reload\<close> and the next
  test of the daemon's state, the state is set to RUNNING, whatever the signal had set it to, so that
  even a request to terminate leaves the daemon polling for events.
\<close>

lemma signal_during_reload_lost:
  "signum \<in> set handled_signals \<Longrightarrow> daemon_run [AcSignal signum, AcStep, AcStep] (PcReloaded, s) =
     Some (PcPoll, (snd (signalHandler signum s))\<lparr>g_state := G_RUNNING\<rparr>)"
  by simp

lemma jobs_destroy_ok:
  assumes "kernel_ok (w_ans s)" and "distinct (map snd es)" and "\<forall>(name, jid) \<in> set es. h_jobs s jid \<noteq> None"
  shows "\<exists>t. forM (\<lambda>(name, jid). job_destroy jid) es s = (Inr (), t) \<and>
     h_jobs t = (\<lambda>jid. if jid \<in> snd ` set es then None else h_jobs s jid)"
  using assms
proof (induction es arbitrary: s)
  case Nil
  then show ?case by (simp add: run_simps)
next
  case (Cons e es)
  obtain name jid where e: "e = (name, jid)" by fastforce
  then obtain j where "h_jobs s jid = Some j" using Cons.prems(3) by auto
  then obtain u where u: "job_destroy jid s = (Inr (), u)" "aside (s\<lparr>h_jobs := (h_jobs s)(jid := None)\<rparr>) u"
    using job_destroy_ok [OF Cons.prems(1)] by blast
  then have "kernel_ok (w_ans u)" "\<forall>(name, jid) \<in> set es. h_jobs u jid \<noteq> None"
    using Cons.prems e by (auto simp: aside_def image_iff)
  with Cons.IH [of u] Cons.prems(2) obtain t where "forM (\<lambda>(name, jid). job_destroy jid) es u = (Inr (), t)"
    "h_jobs t = (\<lambda>jid. if jid \<in> snd ` set es then None else h_jobs u jid)" by auto
  with u e show ?case by (auto simp: run_simps aside_def)
qed

text \<open>
  The end of the shutdown: once every job the destructor waits for is at rest, the daemon returns from
  \<open>main\<close> after one step for each of them and one more; its status tells whether an exception ended the
  loop, and every job has been destroyed.
\<close>

lemma shutdown_completes:
  assumes "kernel_ok (w_ans s)" and ok: "heap_ok s" and "\<forall>(name, jid) \<in> set es. job_at_rest jid s"
  shows "\<exists>t. daemon_run (replicate (Suc (length es)) AcStep) (PcDrain failed es, s) =
     Some (PcReturned (if failed = None then 0 else 1), t) \<and> h_jobs t = (\<lambda>jid. None)"
  using assms(3)
proof (induction es)
  case Nil
  have entry: "\<forall>(name, jid) \<in> set (m_jobs s). h_jobs s jid \<noteq> None"
    using ok heap_entries(3) [OF ok] by (fastforce simp: heap_ok_def)
  obtain t where t: "forM (\<lambda>(name, jid). job_destroy jid) (m_jobs s) s = (Inr (), t)"
    "h_jobs t = (\<lambda>jid. if jid \<in> snd ` set (m_jobs s) then None else h_jobs s jid)"
    using jobs_destroy_ok [OF assms(1) heap_entries(2) [OF ok] entry] by blast
  have "jid \<in> snd ` set (m_jobs s)" if "h_jobs s jid = Some j" for jid j
  proof -
    have "um_find (c_name (j_config j)) (m_jobs s) = Some jid" using ok that by (simp add: heap_ok_def)
    with heap_entries(3) [OF ok] have "(c_name (j_config j), jid) \<in> set (m_jobs s)" by simp
    then show ?thesis by force
  qed
  then have "h_jobs t jid = None" for jid by (cases "h_jobs s jid") (auto simp: t(2))
  then have "h_jobs t = (\<lambda>jid. None)" by auto
  with t(1) show ?case
    by (cases failed) (simp_all add: finish_def in_destructor_def manager_members_destroy_def run_simps)
next
  case (Cons e es)
  then show ?case by (cases e) auto
qed

end
