(* ===== verification/Job_Update.thy ===== *)
theory Job_Update
  imports Job_Stopping Job_Refinement
begin

text \<open>
  \<open>JobManager::update\<close>, \<^verbatim>\<open>taskmasterd/src/jobs/JobManager.cpp\<close>: what a pass over the jobs does
  with those that are marked for removal or replacement, and that it leaves the others alone.
\<close>

text \<open>What starting a job leaves alone: the maps of the manager and the surroundings' behaviour.\<close>

definition same_setup :: "'n daemon \<Rightarrow> 'n daemon \<Rightarrow> bool" where
  "same_setup s t \<longleftrightarrow> m_config t = m_config s \<and> w_ans t = w_ans s \<and> w_wordexp t = w_wordexp s \<and> w_next s \<le> w_next t"

definition same_maps :: "'n daemon \<Rightarrow> 'n daemon \<Rightarrow> bool" where
  "same_maps s t \<longleftrightarrow> same_setup s t \<and> m_jobs t = m_jobs s"

interpretation sm: job_effect "same_maps :: 'n daemon \<Rightarrow> 'n daemon \<Rightarrow> bool"
  by unfold_locales
    (auto simp: same_maps_def same_setup_def keeps_def run_simps registerEvent_def updateEventInternal_def
      unregisterEvent_def fresh_id_def Let_def)

lemma job_start_same: "job_start jid s = (r, t) \<Longrightarrow> same_maps s t"
  using keepsD [OF sm.job_start_R] by blast

lemma job_destroy_same: "job_destroy jid s = (r, t) \<Longrightarrow> same_maps s t"
  using keepsD [OF sm.job_heap_R(2)] by blast

text \<open>A configuration whose job can be started: its command has a word and \<open>numprocs\<close> is not negative.\<close>

definition launchable :: "(string \<Rightarrow> string list option) \<Rightarrow> jobconfig \<Rightarrow> bool" where
  "launchable wordexp c \<longleftrightarrow> split_shell wordexp (c_cmd c) \<noteq> [] \<and> 0 \<le> c_numprocs c"

text \<open>The contract for a job that \<open>update\<close> puts in the place of another.\<close>

definition renewed :: "(string \<Rightarrow> string list option) \<Rightarrow> jobconfig \<Rightarrow> job \<Rightarrow> bool" where
  "renewed wordexp c j \<longleftrightarrow> (if c_autostart c
     then j_config j = c \<and> j_state j = J_STARTING \<and> length (j_processes j) = nat (c_numprocs c) \<and>
       (\<forall>p \<in> set (j_processes j). p_state p = P_STARTING \<and> p_restarts p = 0)
     else j = job_new wordexp c)"

lemma createJob_ok:
  assumes ok: "kernel_ok (w_ans s)" and c: "um_find name (m_config s) = Some c" "launchable (w_wordexp s) c"
    and new: "um_find name (m_jobs s) = None"
  shows "\<exists>t j. createJob name s = (Inr (), t) \<and> same_setup s t \<and> w_next s < w_next t \<and>
     m_jobs t = um_emplace name (w_next s) (m_jobs s) \<and> h_jobs t = (h_jobs s)(w_next s \<mapsto> j) \<and>
     renewed (w_wordexp s) c j"
proof -
  let ?j = "job_new (w_wordexp s) c" and ?jid = "w_next s"
  let ?s = "s\<lparr>w_next := Suc ?jid, h_jobs := (h_jobs s)(?jid \<mapsto> ?j), m_jobs := um_emplace name ?jid (m_jobs s)\<rparr>"
  have run: "createJob name s = whenM (c_autostart c) (job_start ?jid) ?s"
    using c(1) new by (simp add: createJob_def config_at_def emplace_job_def job_alloc_def fresh_id_def set_jobs_def run_simps)
  show ?thesis
  proof (cases "c_autostart c")
    case True
    obtain t j' where t: "job_start ?jid ?s = (Inr (), t)" "h_jobs t = (h_jobs ?s)(?jid \<mapsto> j')" "j_state j' = J_STARTING"
      "j_config j' = c" "length (j_processes j') = nat (c_numprocs c)"
      "\<forall>i < length (j_processes j'). launched c i (group_of (j_processes j') i) (j_processes j' ! i)"
      using job_first_start [of ?s ?jid ?j] ok c(2) by (auto simp: job_new_def launchable_def)
    have "renewed (w_wordexp s) c j'"
      using t True by (auto simp: renewed_def launched_def in_set_conv_nth)
    with t True job_start_same [OF t(1)] show ?thesis
      by (auto simp: run whenM_def same_maps_def same_setup_def)
  next
    case False
    then show ?thesis by (auto simp: run run_simps same_setup_def renewed_def)
  qed
qed

section \<open>One visit\<close>

text \<open>The contract of a visit of the job \<open>jid\<close> named \<open>name\<close>, between the states before and after.\<close>

definition updated :: "'n daemon \<Rightarrow> 'n daemon \<Rightarrow> string \<Rightarrow> nat \<Rightarrow> bool" where
  "updated s t name jid \<longleftrightarrow> (case h_jobs s jid of None \<Rightarrow> False | Some j \<Rightarrow>
     if j_state j = J_REMOVE then um_find name (m_jobs t) = None \<and> h_jobs t jid = None
     else if j_state j = J_REPLACE then h_jobs t jid = None \<and> (\<exists>jid' c j'. um_find name (m_jobs t) = Some jid' \<and>
       w_next s \<le> jid' \<and> jid' < w_next t \<and> h_jobs t jid' = Some j' \<and> um_find name (m_config s) = Some c \<and>
       renewed (w_wordexp s) c j')
     else um_find name (m_jobs t) = Some jid \<and> h_jobs t jid = Some j)"

text \<open>What a visit needs: the job a REPLACE puts in place is in the configuration and can be started.\<close>

definition renewable :: "'n daemon \<Rightarrow> string \<Rightarrow> nat \<Rightarrow> bool" where
  "renewable s name jid \<longleftrightarrow> um_find name (m_jobs s) = Some jid \<and> jid < w_next s \<and> (\<exists>j. h_jobs s jid = Some j \<and>
     (j_state j = J_REPLACE \<longrightarrow> (\<exists>c. um_find name (m_config s) = Some c \<and> launchable (w_wordexp s) c)))"

text \<open>The visit touches no other name and no other object that exists.\<close>

definition elsewhere_same :: "'n daemon \<Rightarrow> 'n daemon \<Rightarrow> string set \<Rightarrow> nat set \<Rightarrow> bool" where
  "elsewhere_same s t names jids \<longleftrightarrow> same_setup s t \<and>
     (\<forall>n. n \<notin> names \<longrightarrow> um_find n (m_jobs t) = um_find n (m_jobs s)) \<and>
     (\<forall>k. k < w_next s \<longrightarrow> k \<notin> jids \<longrightarrow> h_jobs t k = h_jobs s k)"

lemma erase_job_ok:
  assumes "kernel_ok (w_ans s)" and "h_jobs s jid = Some j"
  shows "\<exists>t. erase_job name jid s = (Inr (), t) \<and> m_jobs t = um_erase name (m_jobs s) \<and>
     h_jobs t = (h_jobs s)(jid := None) \<and> same_setup s t"
proof -
  let ?s = "s\<lparr>m_jobs := um_erase name (m_jobs s)\<rparr>"
  obtain t where t: "job_destroy jid ?s = (Inr (), t)" "aside (?s\<lparr>h_jobs := (h_jobs ?s)(jid := None)\<rparr>) t"
    using job_destroy_ok [of ?s jid j] assms by auto
  with job_destroy_same [OF t(1)] show ?thesis
    by (intro exI [of _ t]) (simp add: erase_job_def run_simps aside_def same_maps_def same_setup_def)
qed

lemma update_job_ok:
  assumes ok: "kernel_ok (w_ans s)" and job: "renewable s name jid"
  shows "\<exists>t. update_job name jid s = (Inr (), t) \<and> updated s t name jid \<and> elsewhere_same s t {name} {jid}"
proof -
  from job obtain j where j: "h_jobs s jid = Some j" "um_find name (m_jobs s) = Some jid" "jid < w_next s"
    and c: "j_state j = J_REPLACE \<Longrightarrow> \<exists>c. um_find name (m_config s) = Some c \<and> launchable (w_wordexp s) c"
    by (auto simp: renewable_def)
  obtain u where u: "erase_job name jid s = (Inr (), u)" "m_jobs u = um_erase name (m_jobs s)"
    "h_jobs u = (h_jobs s)(jid := None)" "same_setup s u"
    using erase_job_ok [OF ok j(1)] by blast
  consider "j_state j = J_REMOVE" | "j_state j = J_REPLACE" | "j_state j \<noteq> J_REMOVE" "j_state j \<noteq> J_REPLACE" by blast
  then show ?thesis
  proof cases
    case 1
    with u j show ?thesis
      by (intro exI [of _ u]) (simp add: update_job_def run_simps updated_def elsewhere_same_def um.find_erase)
  next
    case 2
    with c obtain c where c: "um_find name (m_config s) = Some c" "launchable (w_wordexp s) c" by blast
    obtain t j' where t: "createJob name u = (Inr (), t)" "same_setup u t" "w_next u < w_next t"
      "m_jobs t = um_emplace name (w_next u) (m_jobs u)" "h_jobs t = (h_jobs u)(w_next u \<mapsto> j')" "renewed (w_wordexp u) c j'"
      using createJob_ok [of u name c] ok c u by (auto simp: same_setup_def um.find_erase)
    have "update_job name jid s = (Inr (), t)" using 2 j(1) u(1) t(1) by (simp add: update_job_def run_simps)
    moreover have "updated s t name jid"
      using 2 j u t c(1) by (auto simp: updated_def same_setup_def um.replace_find)
    moreover have "elsewhere_same s t {name} {jid}"
      using j(3) u t by (auto simp: elsewhere_same_def same_setup_def um.replace_find)
    ultimately show ?thesis by blast
  next
    case 3
    with j show ?thesis
      by (intro exI [of _ s]) (simp add: update_job_def run_simps updated_def elsewhere_same_def same_setup_def)
  qed
qed

section \<open>The loop\<close>

lemma updated_later:
  assumes "updated s u name jid" and "elsewhere_same u t names jids" and "same_setup s u"
    and "name \<notin> names" and "jid \<notin> jids" and "jid < w_next s" and "\<forall>k \<in> jids. k < w_next s"
  shows "updated s t name jid"
proof -
  have same: "um_find name (m_jobs t) = um_find name (m_jobs u)" "w_next s \<le> w_next u" "w_next u \<le> w_next t"
    "h_jobs t jid = h_jobs u jid"
    using assms(2-6) by (auto simp: elsewhere_same_def same_setup_def)
  have new: "h_jobs t jid' = h_jobs u jid'" if "w_next s \<le> jid'" "jid' < w_next u" for jid'
    using assms(2,7) that by (force simp: elsewhere_same_def)
  show ?thesis
    using assms(1) same unfolding updated_def
    by (auto split: option.splits if_splits) (metis new le_trans less_le_trans)+
qed

lemma updated_before:
  assumes "updated u t name jid" and "elsewhere_same s u names jids" and "name \<notin> names" and "jid \<notin> jids" and "jid < w_next s"
  shows "updated s t name jid"
proof -
  have "h_jobs u jid = h_jobs s jid" "m_config u = m_config s" "w_wordexp u = w_wordexp s" "w_next s \<le> w_next u"
    using assms(2,4,5) by (auto simp: elsewhere_same_def same_setup_def)
  with assms(1) show ?thesis
    unfolding updated_def by (auto split: option.splits if_splits intro: le_trans)
qed

lemma renewable_later:
  assumes "renewable s name jid" and "elsewhere_same s u names jids" and "name \<notin> names" and "jid \<notin> jids"
  shows "renewable u name jid"
  using assms by (auto simp: renewable_def elsewhere_same_def same_setup_def)

lemma update_loop:
  assumes "kernel_ok (w_ans s)" and "distinct (map fst es)" and "distinct (map snd es)"
    and "\<forall>(name, jid) \<in> set es. renewable s name jid"
  shows "\<exists>t. forM (\<lambda>(name, jid). update_job name jid) es s = (Inr (), t) \<and>
     (\<forall>(name, jid) \<in> set es. updated s t name jid) \<and> elsewhere_same s t (fst ` set es) (snd ` set es)"
  using assms
proof (induction es arbitrary: s)
  case Nil
  then show ?case by (simp add: run_simps elsewhere_same_def same_setup_def)
next
  case (Cons e es)
  obtain name jid where e: "e = (name, jid)" by fastforce
  obtain u where u: "update_job name jid s = (Inr (), u)" "updated s u name jid" "elsewhere_same s u {name} {jid}"
    using update_job_ok [OF Cons.prems(1), of name jid] Cons.prems(4) e by auto
  have fresh: "name \<notin> fst ` set es" "jid \<notin> snd ` set es" using Cons.prems(2,3) e by auto
  have tail: "renewable u n k" "n \<noteq> name" "k \<noteq> jid" "k < w_next s" if "(n, k) \<in> set es" for n k
  proof -
    show n: "n \<noteq> name" "k \<noteq> jid" using that fresh by force+
    have r: "renewable s n k" using that Cons.prems(4) by auto
    with renewable_later [OF r u(3)] n show "renewable u n k" "k < w_next s" by (auto simp: renewable_def)
  qed
  have su: "same_setup s u" using u(3) by (simp add: elsewhere_same_def)
  then have "kernel_ok (w_ans u)" using Cons.prems(1) by (simp add: same_setup_def)
  then obtain t where t: "forM (\<lambda>(name, jid). update_job name jid) es u = (Inr (), t)"
    "\<forall>(name, jid) \<in> set es. updated u t name jid" "elsewhere_same u t (fst ` set es) (snd ` set es)"
    using Cons.IH [of u] Cons.prems(2,3) tail(1) by auto
  have "jid < w_next s" using Cons.prems(4) e by (simp add: renewable_def)
  then have "updated s t name jid"
    using updated_later [OF u(2) t(3) su fresh] tail(4) by force
  moreover have "updated s t n k" if "(n, k) \<in> set es" for n k
    using updated_before [OF _ u(3)] t(2) tail [OF that] that by auto
  moreover have "elsewhere_same s t (fst ` set (e # es)) (snd ` set (e # es))"
    using u(3) t(3) e by (auto simp: elsewhere_same_def same_setup_def)
  ultimately show ?case
    using u(1) t(1) e by (auto simp: run_simps)
qed

lemma manager_update_ok:
  assumes "kernel_ok (w_ans s)" and ok: "heap_ok s"
    and "\<forall>name jid j. um_find name (m_jobs s) = Some jid \<longrightarrow> h_jobs s jid = Some j \<longrightarrow> j_state j = J_REPLACE \<longrightarrow>
       (\<exists>c. um_find name (m_config s) = Some c \<and> launchable (w_wordexp s) c)"
  shows "\<exists>t. manager_update s = (Inr (), t) \<and> same_setup s t \<and>
     (\<forall>name jid. um_find name (m_jobs s) = Some jid \<longrightarrow> updated s t name jid) \<and>
     (\<forall>name. um_find name (m_jobs s) = None \<longrightarrow> um_find name (m_jobs t) = None)"
proof -
  note entries = heap_entries [OF ok]
  have ren: "renewable s name jid" if "um_find name (m_jobs s) = Some jid" for name jid
    using ok assms(3) that unfolding heap_ok_def renewable_def by blast
  have "\<forall>(name, jid) \<in> set (m_jobs s). renewable s name jid"
    using ren entries(3) by blast
  then obtain t where t: "forM (\<lambda>(name, jid). update_job name jid) (m_jobs s) s = (Inr (), t)"
    "\<forall>(name, jid) \<in> set (m_jobs s). updated s t name jid"
    "elsewhere_same s t (fst ` set (m_jobs s)) (snd ` set (m_jobs s))"
    using update_loop [OF assms(1) entries(1,2)] by blast
  have "um_find name (m_jobs t) = None" if "um_find name (m_jobs s) = None" for name
    using t(3) that by (simp add: elsewhere_same_def um_find_None)
  moreover have "updated s t name jid" if "um_find name (m_jobs s) = Some jid" for name jid
    using t(2) entries(3) that by blast
  moreover have "same_setup s t" using t(3) by (simp add: elsewhere_same_def)
  ultimately show ?thesis
    using t(1) by (auto simp: manager_update_def run_simps)
qed

text \<open>
  C12. A pass of \<open>update\<close>: on a kernel whose calls succeed, when the configuration in force has a
  launchable entry for every job marked REPLACE, \<open>update\<close> returns; every job marked REMOVE is gone from
  the map and destroyed; every job marked REPLACE is destroyed and its name leads to a new job with
  the configuration in force, started with all its processes exactly if it is to start by itself;
  every other job is the same object in the same state; and no name is added.
\<close>

theorem update_settles:
  assumes "kernel_ok (w_ans s)" and ok: "heap_ok s"
    and "\<forall>name jid j. um_find name (m_jobs s) = Some jid \<longrightarrow> h_jobs s jid = Some j \<longrightarrow> j_state j = J_REPLACE \<longrightarrow>
       (\<exists>c. um_find name (m_config s) = Some c \<and> launchable (w_wordexp s) c)"
  shows "\<exists>t. manager_update s = (Inr (), t) \<and>
     (\<forall>name jid. um_find name (m_jobs s) = Some jid \<longrightarrow> updated s t name jid) \<and>
     (\<forall>name. um_find name (m_jobs s) = None \<longrightarrow> um_find name (m_jobs t) = None)"
  using manager_update_ok [OF assms] by blast

theorem update_settles_witness:
  "\<exists>t jid j. manager_update (example_at (example_job J_REPLACE []) 0) = (Inr (), t) \<and> h_jobs t 0 = None \<and>
     um_find ''ls'' (m_jobs t) = Some jid \<and> h_jobs t jid = Some j \<and> j_state j = J_STARTING \<and> length (j_processes j) = 1"
proof -
  let ?s = "example_at (example_job J_REPLACE []) 0"
  have c: "launchable (w_wordexp ?s) ls_config" "c_autostart ls_config" "c_numprocs ls_config = 1"
    by (simp_all add: launchable_def split_shell_def ls_config_def example_at_def)
  have find: "um_find n [(''ls'', v)] = Some x \<longleftrightarrow> n = ''ls'' \<and> x = v" for n and v x :: 'a
    by (auto simp: um_find_def)
  have "heap_ok ?s"
    by (auto simp: heap_ok_def timers_own_def um_find_def um_ok_def example_at_def example_job_def ls_config_def split: if_splits)
  from update_settles [OF _ this] obtain t where "manager_update ?s = (Inr (), t)" "updated ?s t ''ls'' 0"
    using c(1) by (auto simp: good_kernel_ok find)
  with c show ?thesis by (auto simp: updated_def renewed_def find)
qed

end
