(* ===== verification/Job_Reload.thy ===== *)
theory Job_Reload
  imports Job_Update Manager_Refinement
begin

text \<open>
  \<open>JobManager::reload\<close>, \<^verbatim>\<open>taskmasterd/src/jobs/JobManager.cpp\<close>, as a whole on a kernel whose calls
  succeed: the loops of stopping, creating, updating and starting, and what becomes of every job.
\<close>

section \<open>Visiting every job\<close>




section \<open>Stopping a job in any state\<close>












section \<open>Stopping what changed\<close>





section \<open>Starting a job in any state\<close>






section \<open>Creating what is missing\<close>





section \<open>The whole reload\<close>


















end
