(* ===== verification/Descriptor_Frame.thy ===== *)
theory Descriptor_Frame
  imports Job_Update
begin

text \<open>
  Which descriptors the operations of the daemon touch in the event registry: those of timers, of
  clients, of the listening socket and those the kernel has just opened, and no other. So the closures of
  the children stay registered while timers are replaced, connections closed and other children reaped.
\<close>

section \<open>Descriptors out of reach\<close>

text \<open>The kernel gives out no descriptor of \<open>F\<close> for a new timer or a new child: they are in use.\<close>

definition fresh_answers :: "int set \<Rightarrow> (nat \<Rightarrow> syscall \<Rightarrow> int) \<Rightarrow> bool" where
  "fresh_answers F ans \<longleftrightarrow> (\<forall>n. ans n SysTimerfdCreate \<notin> F \<and> (\<forall>pid f. ans n (SysPidfdOpen pid f) \<notin> F))"

definition timer_apart :: "int set \<Rightarrow> 'tc timer option \<Rightarrow> bool" where
  "timer_apart F u \<longleftrightarrow> (\<forall>t. u = Some t \<longrightarrow> t_fd t \<notin> F)"

definition job_apart :: "int set \<Rightarrow> job \<Rightarrow> bool" where
  "job_apart F j \<longleftrightarrow> (\<forall>p \<in> set (j_processes j). timer_apart F (p_timer p))"

definition out_of_reach :: "int set \<Rightarrow> 'n daemon \<Rightarrow> bool" where
  "out_of_reach F s \<longleftrightarrow> fresh_answers F (w_ans s) \<and> (\<forall>jid j. h_jobs s jid = Some j \<longrightarrow> job_apart F j) \<and>
     (\<forall>cid c. h_clients s cid = Some c \<longrightarrow> cl_fd c \<notin> F) \<and> s_fd s \<notin> F"

text \<open>The relation every operation keeps.\<close>

definition leaves :: "int set \<Rightarrow> 'n daemon \<Rightarrow> 'n daemon \<Rightarrow> bool" where
  "leaves F s t \<longleftrightarrow> (out_of_reach F s \<longrightarrow> out_of_reach F t \<and>
     (\<forall>fd \<in> F. em_read_callbacks t fd = em_read_callbacks s fd))"

interpretation lv: effect_order "leaves F :: 'n daemon \<Rightarrow> 'n daemon \<Rightarrow> bool" for F
  by unfold_locales (auto simp: leaves_def)

section \<open>Primitives\<close>

lemma leaves_surroundings:
  "keeps (leaves F) (sys c)" "keeps (leaves F) (logM ty msg)" "keeps (leaves F) errno_text" "keeps (leaves F) fresh_id"
  by (auto simp: keeps_def leaves_def out_of_reach_def run_simps)

lemma leaves_registry:
  "fd \<notin> F \<Longrightarrow> keeps (leaves F) (registerEvent fd r w)" "fd \<notin> F \<Longrightarrow> keeps (leaves F) (unregisterEvent fd)"
  by (auto simp: keeps_def leaves_def out_of_reach_def run_simps registerEvent_def updateEventInternal_def
      unregisterEvent_def Let_def)

lemma leaves_mod_job:
  assumes "\<And>j. job_apart F j \<Longrightarrow> job_apart F (f j)"
  shows "keeps (leaves F) (mod_job jid f)"
  using assms by (auto simp: keeps_def leaves_def out_of_reach_def run_simps)

lemma job_apart_upd:
  assumes "job_apart F j" and "\<And>p. timer_apart F (p_timer p) \<Longrightarrow> timer_apart F (p_timer (f p))"
  shows "job_apart F (upd_proc i f j)"
proof (cases "i < length (j_processes j)")
  case True
  then have "timer_apart F (p_timer (f (j_processes j ! i)))" using assms by (simp add: job_apart_def)
  with assms(1) show ?thesis
    by (auto simp: job_apart_def upd_proc_def dest: set_update_subset_insert [THEN subsetD])
qed (use assms(1) in \<open>simp add: upd_proc_def list_update_beyond\<close>)

lemma leaves_mod_proc:
  assumes "\<And>p. timer_apart F (p_timer p) \<Longrightarrow> timer_apart F (p_timer (f p))"
  shows "keeps (leaves F) (mod_proc jid i f)"
  unfolding mod_proc_def by (rule leaves_mod_job) (rule job_apart_upd [OF _ assms])

text \<open>What the result of a program tells about descriptors, as long as they are out of reach.\<close>

lemma leaves_bind_post:
  fixes m :: "('n, 'a) dprog"
  assumes "keeps (leaves F) m" and "\<And>s x u. out_of_reach F s \<Longrightarrow> m s = (Inr x, u) \<Longrightarrow> Q x"
    and "\<And>x. Q x \<Longrightarrow> keeps (leaves F) (f x)"
  shows "keeps (leaves F) (bindM m f)"
proof (rule keepsI)
  fix s
  obtain r u where run: "m s = (r, u)" by fastforce
  have su: "leaves F s u" by (rule keepsD [OF assms(1) run])
  show "leaves F s (snd (bindM m f s))"
  proof (cases "out_of_reach F s")
    case True
    then have "leaves F u (snd (f x u))" if "r = Inr x" for x
      using assms(3) [OF assms(2) [OF True]] run that by (simp add: keeps_def)
    with su show ?thesis
      by (auto simp: bindM_run run split: sum.split intro: lv.eff_trans)
  qed (simp add: leaves_def)
qed

lemma leaves_get_job:
  assumes "\<And>j. job_apart F j \<Longrightarrow> keeps (leaves F) (f j)"
  shows "keeps (leaves F) (bindM (get_job jid) f)"
  by (rule leaves_bind_post [OF _ _ assms])
    (auto simp: keeps_def run_simps lv.eff_refl out_of_reach_def split: option.splits)

lemma leaves_get_proc:
  assumes "\<And>p. timer_apart F (p_timer p) \<Longrightarrow> keeps (leaves F) (f p)"
  shows "keeps (leaves F) (bindM (get_proc jid i) f)"
  by (rule leaves_bind_post [OF _ _ assms])
    (auto simp: keeps_def run_simps lv.eff_refl out_of_reach_def job_apart_def split: option.splits if_splits)

lemma leaves_get_client:
  assumes "\<And>c. cl_fd c \<notin> F \<Longrightarrow> keeps (leaves F) (f c)"
  shows "keeps (leaves F) (bindM (get_client cid) f)"
  by (rule leaves_bind_post [OF _ _ assms])
    (auto simp: keeps_def run_simps lv.eff_refl out_of_reach_def split: option.splits)

section \<open>Timers\<close>

lemmas leaves_base = lv.combinator_keeps leaves_surroundings leaves_registry lv.modify_keeps

lemma leaves_fd_destroy: "keeps (leaves F) (fd_destroy fd)"
  unfolding fd_destroy_def by (auto intro!: leaves_base)

lemma leaves_timer_release: "timer_apart F u \<Longrightarrow> keeps (leaves F) (timer_release u)"
  unfolding timer_release_def timer_destroy_def timer_apart_def
  by (auto intro!: leaves_base leaves_fd_destroy split: option.split)

lemma leaves_timer_start:
  fixes f :: "'tc timer \<Rightarrow> ('n, 'a) dprog"
  assumes "t_fd t \<notin> F \<and> (\<forall>t'. t_fd t' \<notin> F \<longrightarrow> keeps (leaves F) (f t'))"
  shows "keeps (leaves F) (bindM (timer_start cb t) f)"
proof (rule leaves_bind_post [where Q = "\<lambda>t'. t_fd t' \<notin> F"])
  show "keeps (leaves F) (timer_start cb t)"
    unfolding timer_start_def using assms by (auto intro!: leaves_base)
  show "t_fd x \<notin> F" if "out_of_reach F s" "timer_start cb t s = (Inr x, u)" for s :: "'n daemon" and x u
    using timer_start_ok(1) [OF that(2)] assms by simp
qed (use assms in simp)

lemma leaves_timer_new:
  fixes f :: "'tc timer \<Rightarrow> ('n, 'a) dprog"
  assumes "\<And>t. t_fd t \<notin> F \<Longrightarrow> keeps (leaves F) (f t)"
  shows "keeps (leaves F) (bindM (timer_new interval cb) f)"
proof (rule leaves_bind_post [where Q = "\<lambda>t. t_fd t \<notin> F"])
  show "keeps (leaves F) (timer_new interval cb)"
    unfolding timer_new_def by (auto intro!: leaves_base)
  show "t_fd x \<notin> F" if "out_of_reach F s" "timer_new interval cb s = (Inr x, u)" for s :: "'n daemon" and x u
    using that by (auto simp: timer_new_def run_simps out_of_reach_def fresh_answers_def split: if_splits)
qed (use assms in simp)

lemma leaves_proc_timer:
  "keeps (leaves F) (proc_reset_timer jid i interval cb)" "keeps (leaves F) (proc_clear_timer jid i)"
  "keeps (leaves F) (proc_start_timer jid i)"
proof -
  show "keeps (leaves F) (proc_reset_timer jid i interval cb)" "keeps (leaves F) (proc_clear_timer jid i)"
    unfolding proc_reset_timer_def proc_clear_timer_def
    by (auto intro!: leaves_timer_new leaves_get_proc leaves_base leaves_mod_proc leaves_timer_release
        simp: timer_apart_def)
  show "keeps (leaves F) (proc_start_timer jid i)"
    unfolding proc_start_timer_def
  proof (rule leaves_get_proc)
    fix p :: process
    assume "timer_apart F (p_timer p)"
    then show "keeps (leaves F) (case p_timer p of None \<Rightarrow> throwM (Undefined ''no timer'')
      | Some t \<Rightarrow> bindM (timer_start (CbTimer jid i (t_id t)) t) (\<lambda>t'. mod_proc jid i (\<lambda>p. p\<lparr>p_timer := Some t'\<rparr>)))"
      by (cases "p_timer p") (auto intro!: leaves_timer_start leaves_mod_proc lv.throw_keeps simp: timer_apart_def)
  qed
qed

section \<open>Processes and jobs\<close>

lemma leaves_child: "keeps (leaves F) (process_child pgid path argv env config)"
  unfolding process_child_def child_drop_privileges_def child_redirect_def dupPath_def
  by (auto intro!: leaves_base split: option.split)

lemma leaves_pidfd_open:
  assumes "\<And>fd. fd \<notin> F \<Longrightarrow> keeps (leaves F) (f fd)"
  shows "keeps (leaves F) (bindM (pidfd_open pid flags) f)"
  by (rule leaves_bind_post [OF _ _ assms])
    (auto simp: pidfd_open_def leaves_surroundings run_simps out_of_reach_def fresh_answers_def)

lemma leaves_process_start: "keeps (leaves F) (process_start jid i path argv env config)"
  unfolding process_start_def process_parent_def
  by (auto intro!: leaves_base leaves_proc_timer leaves_pidfd_open leaves_mod_proc leaves_child leaves_get_proc)

lemma leaves_states:
  "keeps (leaves F) (set_job_state jid st)" "keeps (leaves F) (set_proc_state jid i pst)"
  unfolding set_job_state_def set_proc_state_def
  by (auto intro!: leaves_mod_job leaves_mod_proc simp: job_apart_def)

lemma leaves_job_proc_start: "keeps (leaves F) (job_proc_start jid i)"
  unfolding job_proc_start_def by (auto intro!: leaves_get_job leaves_base leaves_process_start split: list.split)

lemma leaves_on_stop: "keeps (leaves F) (manager_on_stop name)" "keeps (leaves F) (job_on_stop jid i)"
proof -
  show m: "keeps (leaves F) (manager_on_stop name)" for name
    unfolding manager_on_stop_def by (auto intro!: leaves_base leaves_get_job leaves_states split: option.split)
  show "keeps (leaves F) (job_on_stop jid i)"
    unfolding job_on_stop_def
    by (auto intro!: leaves_base leaves_get_job leaves_get_proc leaves_states leaves_job_proc_start m split: job_state.split)
qed

lemma leaves_on_exit: "keeps (leaves F) (job_on_exit jid i code)"
  unfolding job_on_exit_def job_settle_def proc_add_restart_def Let_def
  by (auto intro!: leaves_base leaves_get_job leaves_get_proc leaves_states leaves_job_proc_start leaves_mod_proc
      split: restart_policy.split)

lemma leaves_stop: "keeps (leaves F) (process_stop jid i timeout sig)" "keeps (leaves F) (job_stop jid)"
proof -
  show p: "keeps (leaves F) (process_stop jid i timeout sig)" for i timeout sig
    unfolding process_stop_def pidfd_send_signal_def
    by (auto intro!: leaves_base leaves_get_proc leaves_states leaves_on_stop leaves_proc_timer split: option.split)
  show "keeps (leaves F) (job_stop jid)"
    unfolding job_stop_def
    by (auto intro!: leaves_base leaves_get_job leaves_states leaves_on_stop p split: job_state.split)
qed

lemma leaves_kill: "keeps (leaves F) manager_kill"
  unfolding manager_kill_def by (auto intro!: leaves_base leaves_stop)

text \<open>The end of a child touches only its own descriptor.\<close>

lemma leaves_state_change:
  fixes s :: "'n daemon"
  assumes "h_jobs s jid = Some j" and "i < length (j_processes j)" and "p_fd (j_processes j ! i) \<notin> F"
  shows "leaves F s (snd (process_on_state_change jid i s))"
proof -
  have "keeps (leaves F :: 'n daemon \<Rightarrow> _) (process_on_exit jid i status)"
    "keeps (leaves F :: 'n daemon \<Rightarrow> _) (process_on_forced_exit jid i status)" for status
    unfolding process_on_exit_def process_on_forced_exit_def
    by (auto intro!: leaves_base leaves_get_proc leaves_states leaves_on_stop leaves_on_exit split: process_state.split)
  then have rest: "keeps (leaves F :: 'n daemon \<Rightarrow> _) (bindM (waitpid (p_pid p)) (\<lambda>(result, status).
     if result = -1
     then bindM errno_text (\<lambda>err.
            throwM (StdExn (''waitpid failed for process '' @ quoted (p_name p) @ '': '' @ err)))
     else seqM (proc_clear_timer jid i)
         (seqM (unregisterEvent (p_fd p))
         (if WIFEXITED status then process_on_exit jid i status
          else if WIFSIGNALED status then process_on_forced_exit jid i status
          else set_proc_state jid i P_UNKNOWN))))" if "p_fd p \<notin> F" for p :: process
    unfolding waitpid_def using that
    by (auto intro!: leaves_base leaves_proc_timer leaves_states)
  from rest [OF assms(3)] show ?thesis
    using assms(1,2) unfolding keeps_def
    by (simp add: process_on_state_change_def bindM_run [of "get_proc jid i"] get_proc_run)
qed

section \<open>The server\<close>

lemma leaves_server_destroy: "keeps (leaves F :: 'n daemon \<Rightarrow> _) server_destroy"
proof -
  have "leaves F s (s\<lparr>h_clients := (h_clients s)(cid := None)\<rparr>)" for cid and s :: "'n daemon"
    by (auto simp: leaves_def out_of_reach_def)
  then have client: "keeps (leaves F :: 'n daemon \<Rightarrow> _) (client_destroy cid)" for cid
    unfolding client_destroy_def
    by (auto intro!: lv.noexcept_keeps leaves_get_client leaves_base leaves_fd_destroy)
  have "leaves F s (s\<lparr>s_clients := []\<rparr>)" for s :: "'n daemon"
    by (auto simp: leaves_def out_of_reach_def)
  with client have "keeps (leaves F :: 'n daemon \<Rightarrow> _) (seqM (unregisterEvent fd) (bindM (getsM s_clients) (\<lambda>cids.
     seqM (modifyM (\<lambda>s. s\<lparr>s_clients := []\<rparr>)) (seqM (forM client_destroy cids) (fd_destroy fd)))))" if "fd \<notin> F" for fd
    using that by (auto intro!: leaves_base leaves_fd_destroy)
  then show ?thesis
    unfolding server_destroy_def
    by (intro lv.noexcept_keeps leaves_bind_post [OF lv.gets_keeps, where Q = "\<lambda>fd. fd \<notin> F"])
      (auto simp: getsM_run out_of_reach_def)
qed

end
