(* ===== verification/Shutdown.thy ===== *)
theory Shutdown
  imports Command_Props Job_Reload Descriptor_Frame
begin

text \<open>
  The graceful shutdown, \<^verbatim>\<open>~Server\<close>, \<^verbatim>\<open>JobManager::kill\<close> and the wait of \<^verbatim>\<open>~JobManager\<close>: all jobs are told
  to stop, and once their children have ended, in whatever order, the daemon returns from \<^verbatim>\<open>main\<close>.
\<close>

section \<open>Children and their descriptors\<close>








section \<open>Telling the jobs to stop\<close>










section \<open>Closing the connections\<close>




section \<open>A child ends\<close>










section \<open>The wait\<close>







section \<open>The shutdown\<close>







end
