(* ===== verification/Exception_Logic.thy ===== *)
theory Exception_Logic
  imports Prelude
begin

text \<open>
  A Hoare logic for state-passing programs with exceptions, for the statement that no handler reaches a
  destroyed object.
\<close>

text \<open>The undefined behaviour of reaching a destroyed object.\<close>

definition dangling :: "exn \<Rightarrow> bool" where
  "dangling e \<longleftrightarrow> e \<in> Undefined ` {''job destroyed'', ''process destroyed'', ''client destroyed'', ''timer destroyed'', ''no timer''}"

lemma dangling_simps [simp]:
  "\<not> dangling (StdExn w)" "\<not> dangling (Aborts w)" "\<not> dangling (Exits n)" "\<not> dangling Replaced"
  "\<not> dangling (Undefined ''signed overflow'')" "\<not> dangling (Undefined ''end iterator'')"
  "\<not> dangling (Undefined ''unreachable'')" "\<not> dangling (Undefined ''float to u32 conversion out of range'')"
  by (auto simp: dangling_def)

text \<open>
  Started in \<open>P\<close>, the program reaches no destroyed object; it returns in \<open>Q\<close>, and a \<open>std::exception\<close> leaves
  it in \<open>E\<close>. What holds after an exception that nothing catches does not matter.
\<close>

definition spec :: "('s \<Rightarrow> bool) \<Rightarrow> ('s, 'a) prog \<Rightarrow> ('a \<Rightarrow> 's \<Rightarrow> bool) \<Rightarrow> ('s \<Rightarrow> bool) \<Rightarrow> bool" where
  "spec P m Q E \<longleftrightarrow> (\<forall>s. P s \<longrightarrow> (case m s of (r, t) \<Rightarrow>
     (case r of Inr x \<Rightarrow> Q x t | Inl e \<Rightarrow> \<not> dangling e \<and> (\<forall>w. e = StdExn w \<longrightarrow> E t))))"

lemma specI:
  assumes "\<And>s r t. P s \<Longrightarrow> m s = (r, t) \<Longrightarrow>
    (case r of Inr x \<Rightarrow> Q x t | Inl e \<Rightarrow> \<not> dangling e \<and> (\<forall>w. e = StdExn w \<longrightarrow> E t))"
  shows "spec P m Q E"
  using assms unfolding spec_def by (auto split: prod.split)

lemma specD:
  assumes "spec P m Q E" and "P s" and "m s = (r, t)"
  shows "case r of Inr x \<Rightarrow> Q x t | Inl e \<Rightarrow> \<not> dangling e \<and> (\<forall>w. e = StdExn w \<longrightarrow> E t)"
  using assms unfolding spec_def by fastforce

lemma spec_conseq:
  assumes "spec P' m Q' E'" and "\<And>s. P s \<Longrightarrow> P' s" and "\<And>x s. Q' x s \<Longrightarrow> Q x s" and "\<And>s. E' s \<Longrightarrow> E s"
  shows "spec P m Q E"
  by (rule specI) (use specD [OF assms(1)] assms(2-4) in \<open>fastforce split: sum.splits\<close>)

lemma spec_pre: "spec P' m Q E \<Longrightarrow> (\<And>s. P s \<Longrightarrow> P' s) \<Longrightarrow> spec P m Q E"
  by (rule spec_conseq)

lemma spec_assume: "(b \<Longrightarrow> spec P m Q E) \<Longrightarrow> spec (\<lambda>s. P s \<and> b) m Q E"
  by (cases b) (simp_all add: spec_def)

lemma spec_return: "(\<And>s. P s \<Longrightarrow> Q x s) \<Longrightarrow> spec P (returnM x) Q E"
  by (simp add: spec_def returnM_run)

lemma spec_throw: "(\<And>s w. P s \<Longrightarrow> e = StdExn w \<Longrightarrow> E s) \<Longrightarrow> \<not> dangling e \<Longrightarrow> spec P (throwM e) Q E"
  by (auto simp: spec_def throwM_run)

lemma spec_modify: "(\<And>s. P s \<Longrightarrow> Q () (f s)) \<Longrightarrow> spec P (modifyM f) Q E"
  by (simp add: spec_def modifyM_run)

lemma spec_bind:
  assumes "spec P m Q E" and "\<And>x. spec (Q x) (f x) R E"
  shows "spec P (bindM m f) R E"
proof (rule specI)
  fix s r t
  assume s: "P s" and run: "bindM m f s = (r, t)"
  obtain x u where m: "m s = (x, u)" by fastforce
  note q = specD [OF assms(1) s m]
  show "case r of Inr x \<Rightarrow> R x t | Inl e \<Rightarrow> \<not> dangling e \<and> (\<forall>w. e = StdExn w \<longrightarrow> E t)"
  proof (cases x)
    case (Inl e)
    with q m run show ?thesis by (auto simp: bindM_run)
  next
    case (Inr y)
    with q have "Q y u" by simp
    moreover have "f y u = (r, t)" using Inr m run by (simp add: bindM_run)
    ultimately show ?thesis by (rule specD [OF assms(2)])
  qed
qed

lemma spec_seq: "spec P m (\<lambda>_. Q) E \<Longrightarrow> spec Q n R E \<Longrightarrow> spec P (seqM m n) R E"
  unfolding seqM_def by (rule spec_bind)

lemma spec_gets: "(\<And>x. spec (\<lambda>s. P s \<and> x = f s) (g x) R E) \<Longrightarrow> spec P (bindM (getsM f) g) R E"
  by (rule spec_bind [where Q = "\<lambda>x s. P s \<and> x = f s"]) (simp_all add: spec_def getsM_run)

lemma spec_when: "(b \<Longrightarrow> spec P m (\<lambda>_. Q) E) \<Longrightarrow> (\<And>s. \<not> b \<Longrightarrow> P s \<Longrightarrow> Q s) \<Longrightarrow> spec P (whenM b m) (\<lambda>_. Q) E"
  by (cases b) (simp_all add: whenM_def spec_return)

lemma spec_if: "(b \<Longrightarrow> spec P m Q E) \<Longrightarrow> (\<not> b \<Longrightarrow> spec P n Q E) \<Longrightarrow> spec P (if b then m else n) Q E"
  by simp

lemma spec_try:
  assumes "spec P m Q E" and "\<And>w. spec E (h w) Q F"
  shows "spec P (tryM m h) Q F"
proof (rule specI)
  fix s r t
  assume s: "P s" and run: "tryM m h s = (r, t)"
  obtain x u where m: "m s = (x, u)" by fastforce
  note q = specD [OF assms(1) s m]
  show "case r of Inr x \<Rightarrow> Q x t | Inl e \<Rightarrow> \<not> dangling e \<and> (\<forall>w. e = StdExn w \<longrightarrow> F t)"
  proof (cases "\<exists>w. x = Inl (StdExn w)")
    case True
    then obtain w where "x = Inl (StdExn w)" ..
    with q m run have "E u" "h w u = (r, t)" by (auto simp: tryM_run)
    then show ?thesis by (rule specD [OF assms(2)])
  next
    case False
    with q m run show ?thesis by (auto simp: tryM_run split: sum.splits exn.splits)
  qed
qed

lemma spec_unwind:
  assumes "spec P m Q E" and "spec E c (\<lambda>_. E) E"
  shows "spec P (unwindM m c) Q E"
proof (rule specI)
  fix s r t
  assume s: "P s" and run: "unwindM m c s = (r, t)"
  obtain x u where m: "m s = (x, u)" by fastforce
  note q = specD [OF assms(1) s m]
  show "case r of Inr x \<Rightarrow> Q x t | Inl e \<Rightarrow> \<not> dangling e \<and> (\<forall>w. e = StdExn w \<longrightarrow> E t)"
  proof (cases "\<exists>w. x = Inl (StdExn w)")
    case True
    then obtain w where w: "x = Inl (StdExn w)" ..
    obtain y v where c: "c u = (y, v)" by fastforce
    from q w have "E u" by simp
    from specD [OF assms(2) this c] run m w c show ?thesis
      by (auto simp: unwindM_def seqM_run noexceptM_run throwM_run split: sum.splits exn.splits)
  next
    case False
    with q m run show ?thesis by (auto simp: unwindM_def split: sum.splits exn.splits)
  qed
qed

lemma spec_noexcept: "spec P m Q E \<Longrightarrow> spec P (noexceptM m) Q F"
  unfolding spec_def by (fastforce simp: noexceptM_run split: prod.splits sum.splits exn.splits)

lemma spec_for:
  assumes "\<And>x. x \<in> set xs \<Longrightarrow> spec P (f x) (\<lambda>_. P) E"
  shows "spec P (forM f xs) (\<lambda>_. P) E"
  using assms by (induction xs) (auto intro: spec_return spec_seq)

text \<open>A loop whose invariant speaks of what is still to be visited.\<close>

lemma spec_for_rest:
  assumes "\<And>x ys. x \<in> set xs \<Longrightarrow> set ys \<subseteq> set xs \<Longrightarrow> spec (P (x # ys)) (f x) (\<lambda>_. P ys) E"
  shows "spec (P xs) (forM f xs) (\<lambda>_. P []) E"
  using assms
proof (induction xs)
  case (Cons x xs)
  have "spec (P xs) (forM f xs) (\<lambda>_. P []) E"
    by (rule Cons.IH) (use Cons.prems in auto)
  moreover have "spec (P (x # xs)) (f x) (\<lambda>_. P xs) E"
    by (rule Cons.prems) auto
  ultimately show ?case by (auto intro: spec_seq)
qed (auto intro: spec_return)

lemma spec_option:
  assumes "x = None \<Longrightarrow> spec P m Q E" and "\<And>y. x = Some y \<Longrightarrow> spec P (f y) Q E"
  shows "spec P (case x of None \<Rightarrow> m | Some y \<Rightarrow> f y) Q E"
  using assms by (cases x) auto

text \<open>What holds before a program that keeps a relation, and is carried over by it.\<close>

lemma spec_frame:
  assumes "spec P m Q E" and "keeps R m" and "\<And>s t. R s t \<Longrightarrow> F s \<Longrightarrow> F t"
  shows "spec (\<lambda>s. P s \<and> F s) m (\<lambda>x s. Q x s \<and> F s) (\<lambda>s. E s \<and> F s)"
proof (rule specI)
  fix s r t
  assume s: "P s \<and> F s" and m: "m s = (r, t)"
  have "F t" using s assms(3) [OF keepsD [OF assms(2) m]] by blast
  with specD [OF assms(1) _ m] s
  show "case r of Inr x \<Rightarrow> Q x t \<and> F t | Inl e \<Rightarrow> \<not> dangling e \<and> (\<forall>w. e = StdExn w \<longrightarrow> E t \<and> F t)"
    by (auto split: sum.splits)
qed

end
