(* ===== verification/Object_Safety.thy ===== *)
theory Object_Safety
  imports Manager_Refinement Exception_Logic
begin

text \<open>
  No callback outlives its object. The event manager's closures hold references to clients, processes
  and timers. Here stands the invariant, that every closure in the registry refers to a live object that
  owns the descriptor, with the proof that the operations of timers and the start of a process keep it as
  long as the daemon's resources suffice to create children. Theories \<^verbatim>\<open>Job_Safety\<close> and
  \<^verbatim>\<open>Daemon_Safety\<close> go on with jobs and the daemon.
\<close>

section \<open>What holds of the objects\<close>

text \<open>The calls that need resources succeed; those on a connection or a child may fail.\<close>

definition resources_ok :: "(nat \<Rightarrow> syscall \<Rightarrow> int) \<Rightarrow> bool" where
  "resources_ok ans \<longleftrightarrow> (\<forall>n. 0 < ans n SysFork \<and> ans n SysTimerfdCreate \<noteq> -1 \<and>
     (\<forall>fd a b. ans n (SysTimerfdSettime fd a b) \<noteq> -1) \<and> (\<forall>fd. ans n (SysReadTimer fd) = 8) \<and>
     (\<forall>pid f. ans n (SysPidfdOpen pid f) \<noteq> -1) \<and> (\<forall>fd r w. ans n (SysEpollAdd fd r w) \<noteq> -1) \<and>
     (\<forall>fd. ans n (SysEpollDel fd) \<noteq> -1))"

text \<open>The YAML library reports failures by exceptions derived from \<open>std::exception\<close>, as it documents.\<close>

definition throws_std :: "exn + 'a \<Rightarrow> bool" where
  "throws_std r \<longleftrightarrow> (\<forall>e. r = Inl e \<longrightarrow> (\<exists>w. e = StdExn w))"

definition config_env_ok :: "'n config_env \<Rightarrow> bool" where
  "config_env_ok E \<longleftrightarrow> (\<forall>x. throws_std (y_as_string E x) \<and> throws_std (y_as_i32 E x) \<and> throws_std (y_as_bool E x) \<and>
     throws_std (y_as_i32s E x) \<and> (\<forall>k. throws_std (y_index E x k))) \<and> (\<forall>p. throws_std (fs_exists E p))"

definition yaml_ok :: "(nat \<Rightarrow> 'n config_env) \<Rightarrow> (nat \<Rightarrow> exn + 'n) \<Rightarrow> bool" where
  "yaml_ok Es load \<longleftrightarrow> (\<forall>n. throws_std (load n) \<and> config_env_ok (Es n))"

definition proc_at :: "'n daemon \<Rightarrow> nat \<Rightarrow> nat \<Rightarrow> process option" where
  "proc_at s jid i = (case h_jobs s jid of None \<Rightarrow> None
     | Some j \<Rightarrow> if i < length (j_processes j) then Some (j_processes j ! i) else None)"

text \<open>The closure is in the registry, for either kind of event.\<close>

definition watched :: "'n daemon \<Rightarrow> int \<Rightarrow> callback \<Rightarrow> bool" where
  "watched s fd cb \<longleftrightarrow> em_read_callbacks s fd = Some (Some cb) \<or> em_write_callbacks s fd = Some (Some cb)"

definition live_states :: "process_state set" where
  "live_states = {P_STARTING, P_RUNNING, P_STOPPING}"

text \<open>The object a closure refers to is there, and is the owner of the descriptor.\<close>

fun callback_ok :: "'n daemon \<Rightarrow> int \<Rightarrow> callback \<Rightarrow> bool" where
  "callback_ok s fd CbAccept = True"
| "callback_ok s fd (CbClientRead cid) = (\<exists>c. h_clients s cid = Some c \<and> cl_fd c = fd \<and> fd \<noteq> -1)"
| "callback_ok s fd (CbClientWrite cid cmd) = (\<exists>c. h_clients s cid = Some c \<and> cl_fd c = fd \<and> fd \<noteq> -1)"
| "callback_ok s fd (CbProcess jid i) =
     (\<exists>p. proc_at s jid i = Some p \<and> p_fd p = fd \<and> p_state p \<in> live_states)"
| "callback_ok s fd (CbTimer jid i tid) =
     (\<exists>p t. proc_at s jid i = Some p \<and> p_timer p = Some t \<and> t_id t = tid \<and> t_fd t = fd \<and> t_state t = T_RUNNING)"

definition callbacks_ok :: "'n daemon \<Rightarrow> bool" where
  "callbacks_ok s \<longleftrightarrow> (\<forall>fd cb. watched s fd cb \<longrightarrow> callback_ok s fd cb)"

definition unwatched :: "nat \<Rightarrow> nat \<Rightarrow> 'n daemon \<Rightarrow> bool" where
  "unwatched jid i s \<longleftrightarrow> (\<forall>fd. \<not> watched s fd (CbProcess jid i))"

text \<open>
  The states in which a job may be destroyed, or come to be: then no child of it is watched. In the
  middle of a start the jobs in \<open>X\<close> are exempt.
\<close>

definition idle_states :: "job_state set" where
  "idle_states = {J_EMPTY, J_STOPPED, J_REPLACE, J_REMOVE}"

definition idle_ok :: "nat set \<Rightarrow> 'n daemon \<Rightarrow> bool" where
  "idle_ok X s \<longleftrightarrow> (\<forall>jid j. h_jobs s jid = Some j \<longrightarrow> j_state j \<in> idle_states \<longrightarrow> jid \<notin> X \<longrightarrow>
     (\<forall>i. unwatched jid i s))"

definition clients_ok :: "'n daemon \<Rightarrow> bool" where
  "clients_ok s \<longleftrightarrow> distinct (s_clients s) \<and> (\<forall>cid \<in> set (s_clients s). h_clients s cid \<noteq> None) \<and>
     (\<forall>cid c. h_clients s cid = Some c \<longrightarrow> cid < w_next s)"

definition frame_ok :: "nat set \<Rightarrow> 'n daemon \<Rightarrow> bool" where
  "frame_ok X s \<longleftrightarrow> resources_ok (w_ans s) \<and> yaml_ok (d_config_env s) (d_load s) \<and> heap_ok s \<and> clients_ok s \<and> idle_ok X s"

definition objects_ok :: "nat set \<Rightarrow> 'n daemon \<Rightarrow> bool" where
  "objects_ok X s \<longleftrightarrow> frame_ok X s \<and> callbacks_ok s"

lemma objects_ok_parts:
  assumes "objects_ok X s"
  shows "resources_ok (w_ans s)" "heap_ok s" "clients_ok s" "idle_ok X s" "callbacks_ok s" "frame_ok X s"
    "yaml_ok (d_config_env s) (d_load s)"
  using assms by (simp_all add: objects_ok_def frame_ok_def)

section \<open>What leaves the objects alone\<close>

definition same_objects :: "'n daemon \<Rightarrow> 'n daemon \<Rightarrow> bool" where
  "same_objects s t \<longleftrightarrow> h_jobs t = h_jobs s \<and> m_jobs t = m_jobs s \<and> m_config t = m_config s \<and>
     h_clients t = h_clients s \<and> s_clients t = s_clients s \<and> em_read_callbacks t = em_read_callbacks s \<and>
     em_write_callbacks t = em_write_callbacks s \<and> w_ans t = w_ans s \<and> w_next s \<le> w_next t \<and>
     d_config_env t = d_config_env s \<and> d_load t = d_load s"

text \<open>Assertions that speak of the objects only.\<close>

definition of_objects :: "('n daemon \<Rightarrow> bool) \<Rightarrow> bool" where
  "of_objects P \<longleftrightarrow> (\<forall>s t. same_objects s t \<longrightarrow> P s \<longrightarrow> P t)"

lemma of_objectsD: "of_objects P \<Longrightarrow> same_objects s t \<Longrightarrow> P s \<Longrightarrow> P t"
  by (auto simp: of_objects_def)

lemma heap_ok_same:
  assumes "h_jobs t = h_jobs s" "m_jobs t = m_jobs s" "m_config t = m_config s" "w_next s \<le> w_next t" "heap_ok s"
  shows "heap_ok t"
  using assms(4,5) unfolding heap_ok_def assms(1-3) by (meson less_le_trans)

lemma clients_ok_same:
  assumes "h_clients t = h_clients s" "s_clients t = s_clients s" "w_next s \<le> w_next t" "clients_ok s"
  shows "clients_ok t"
  using assms(3,4) unfolding clients_ok_def assms(1,2) by (meson less_le_trans)

lemma same_objects_parts:
  assumes "same_objects s t"
  shows "proc_at t = proc_at s" "watched t = watched s" "callbacks_ok t = callbacks_ok s" "idle_ok X t = idle_ok X s"
    "unwatched jid i t = unwatched jid i s" "heap_ok s \<Longrightarrow> heap_ok t" "clients_ok s \<Longrightarrow> clients_ok t"
proof -
  show p: "proc_at t = proc_at s" "watched t = watched s"
    using assms by (auto simp: same_objects_def proc_at_def watched_def fun_eq_iff)
  have "callback_ok t fd cb = callback_ok s fd cb" for fd cb
    using assms p by (cases cb) (auto simp: same_objects_def)
  with p assms show "callbacks_ok t = callbacks_ok s" "idle_ok X t = idle_ok X s" "unwatched jid i t = unwatched jid i s"
    by (auto simp: callbacks_ok_def idle_ok_def unwatched_def same_objects_def)
  show "heap_ok s \<Longrightarrow> heap_ok t" "clients_ok s \<Longrightarrow> clients_ok t"
    using heap_ok_same [of t s] clients_ok_same [of t s] assms by (simp_all add: same_objects_def)
qed

definition live :: "nat \<Rightarrow> nat \<Rightarrow> 'n daemon \<Rightarrow> bool" where
  "live jid i s \<longleftrightarrow> proc_at s jid i \<noteq> None"

definition job_is :: "nat \<Rightarrow> (job \<Rightarrow> bool) \<Rightarrow> 'n daemon \<Rightarrow> bool" where
  "job_is jid C s \<longleftrightarrow> (\<exists>j. h_jobs s jid = Some j \<and> C j)"

lemma of_objects_intros [intro]:
  "of_objects (objects_ok X)" "of_objects (live jid i)" "of_objects (unwatched jid i)" "of_objects (job_is jid C)"
  "of_objects (\<lambda>s. proc_at s jid i = x)" "of_objects (\<lambda>s. h_jobs s jid = y)" "of_objects (\<lambda>s. h_clients s cid = z)"
  "of_objects (\<lambda>s. b)" "of_objects (\<lambda>s. um_find name (m_jobs s) = v)"
  by (auto simp: of_objects_def objects_ok_def frame_ok_def live_def job_is_def same_objects_parts)
    (auto simp: same_objects_def)

lemma of_objects_conj [intro]: "of_objects P \<Longrightarrow> of_objects Q \<Longrightarrow> of_objects (\<lambda>s. P s \<and> Q s)"
  by (auto simp: of_objects_def)

lemma of_objects_disj [intro]: "of_objects P \<Longrightarrow> of_objects Q \<Longrightarrow> of_objects (\<lambda>s. P s \<or> Q s)"
  by (auto simp: of_objects_def)

lemma of_objects_all [intro]: "(\<And>x. of_objects (P x)) \<Longrightarrow> of_objects (\<lambda>s. \<forall>x. P x s)"
  "(\<And>x. x \<in> A \<Longrightarrow> of_objects (P x)) \<Longrightarrow> of_objects (\<lambda>s. \<forall>x \<in> A. P x s)"
  by (auto simp: of_objects_def)

interpretation so: effect_order same_objects
  by unfold_locales (auto simp: same_objects_def)

text \<open>A program that leaves the objects alone and reaches no destroyed one.\<close>

definition calm :: "('n, 'a) dprog \<Rightarrow> bool" where
  "calm m \<longleftrightarrow> (\<forall>s r t. m s = (r, t) \<longrightarrow> same_objects s t \<and> (\<forall>e. r = Inl e \<longrightarrow> \<not> dangling e))"

lemma calmD: "calm m \<Longrightarrow> m s = (r, t) \<Longrightarrow> same_objects s t \<and> (\<forall>e. r = Inl e \<longrightarrow> \<not> dangling e)"
  by (simp add: calm_def)

lemma spec_calm: "calm m \<Longrightarrow> of_objects P \<Longrightarrow> spec P m (\<lambda>_. P) P"
  by (rule specI) (auto dest: calmD of_objectsD split: sum.split)

lemma spec_calm_bind:
  assumes "calm m" and "of_objects P" and "\<And>s. P s \<Longrightarrow> E s" and "\<And>x. spec P (f x) R E"
  shows "spec P (bindM m f) R E"
  by (rule spec_bind [OF spec_conseq [OF spec_calm [OF assms(1,2)]] assms(4)]) (use assms(3) in auto)

lemma spec_calm_end:
  assumes "calm m" and "of_objects P" and "\<And>s. P s \<Longrightarrow> Q s" and "\<And>s. P s \<Longrightarrow> E s"
  shows "spec P m (\<lambda>_. Q) E"
  by (rule spec_conseq [OF spec_calm [OF assms(1,2)]]) (use assms(3,4) in auto)

lemma calm_bind:
  assumes "calm m" and "\<And>x. calm (f x)"
  shows "calm (bindM m f)"
  unfolding calm_def
proof (intro allI impI)
  fix s r t
  assume run: "bindM m f s = (r, t)"
  obtain x u where m: "m s = (x, u)" by fastforce
  note u = calmD [OF assms(1) m]
  show "same_objects s t \<and> (\<forall>e. r = Inl e \<longrightarrow> \<not> dangling e)"
  proof (cases x)
    case (Inr y)
    with run m have "f y u = (r, t)" by (simp add: bindM_run)
    from calmD [OF assms(2) this] u show ?thesis by (blast intro: so.eff_trans)
  qed (use run m u in \<open>auto simp: bindM_run\<close>)
qed

lemma calm_seq: "calm m \<Longrightarrow> calm n \<Longrightarrow> calm (seqM m n)"
  unfolding seqM_def by (rule calm_bind)

lemma calm_small:
  "calm (returnM x)" "\<not> dangling e \<Longrightarrow> calm (throwM e)" "calm (getsM f)" "calm (logM ty msg)" "calm (sys c)"
  "calm fresh_id" "calm errno_text" "calm n \<Longrightarrow> calm (whenM b n)" "calm m \<Longrightarrow> calm k \<Longrightarrow> calm (if b then m else k)"
  unfolding calm_def by (auto simp: run_simps same_objects_def)

lemma calm_try:
  assumes "calm m" and "\<And>w. calm (h w)"
  shows "calm (tryM m h)"
  unfolding calm_def
proof (intro allI impI)
  fix s r t
  assume run: "tryM m h s = (r, t)"
  obtain x u where m: "m s = (x, u)" by fastforce
  note u = calmD [OF assms(1) m]
  show "same_objects s t \<and> (\<forall>e. r = Inl e \<longrightarrow> \<not> dangling e)"
  proof (cases "\<exists>w. x = Inl (StdExn w)")
    case True
    then obtain w where "x = Inl (StdExn w)" ..
    with run m have "h w u = (r, t)" by (simp add: tryM_run)
    from calmD [OF assms(2) this] u show ?thesis by (blast intro: so.eff_trans)
  next
    case False
    with run m u show ?thesis by (auto simp: tryM_run split: sum.splits exn.splits)
  qed
qed

lemma calm_noexcept: "calm m \<Longrightarrow> calm (noexceptM m)"
  unfolding calm_def by (fastforce simp: noexceptM_run split: prod.splits sum.splits exn.splits)

lemmas calm_intros = calm_seq calm_bind calm_small calm_try calm_noexcept


section \<open>Reading and updating\<close>

definition proc_is :: "nat \<Rightarrow> nat \<Rightarrow> (process \<Rightarrow> bool) \<Rightarrow> 'n daemon \<Rightarrow> bool" where
  "proc_is jid i K s \<longleftrightarrow> (\<exists>p. proc_at s jid i = Some p \<and> K p)"

lemma proc_is_objects [intro]: "of_objects (proc_is jid i K)"
  by (auto simp: of_objects_def proc_is_def same_objects_parts)

lemma proc_is_live: "proc_is jid i K s \<Longrightarrow> live jid i s" "live jid i s \<longleftrightarrow> proc_is jid i (\<lambda>p. True) s"
  by (auto simp: proc_is_def live_def)

lemma spec_get_job:
  assumes "\<And>j. spec (\<lambda>s. P s \<and> h_jobs s jid = Some j) (f j) R E" and "\<And>s. P s \<Longrightarrow> h_jobs s jid \<noteq> None"
  shows "spec P (bindM (get_job jid) f) R E"
proof (rule spec_bind [OF _ assms(1)])
  show "spec P (get_job jid) (\<lambda>j s. P s \<and> h_jobs s jid = Some j) E"
    using assms(2) by (fastforce simp: spec_def get_job_run split: option.splits)
qed

lemma spec_get_proc:
  assumes "\<And>p. spec (\<lambda>s. P s \<and> proc_at s jid i = Some p) (f p) R E" and "\<And>s. P s \<Longrightarrow> live jid i s"
  shows "spec P (bindM (get_proc jid i) f) R E"
proof (rule spec_bind [OF _ assms(1)])
  show "spec P (get_proc jid i) (\<lambda>p s. P s \<and> proc_at s jid i = Some p) E"
    using assms(2) by (fastforce simp: spec_def get_proc_run live_def proc_at_def split: option.splits if_splits)
qed

lemma spec_sys:
  assumes "of_objects P" and "\<And>r n s. P s \<Longrightarrow> r = w_ans s n c \<Longrightarrow> spec P (f r) R E"
  shows "spec P (bindM (sys c) f) R E"
proof (rule spec_bind [where Q = "\<lambda>r s. P s \<and> (\<exists>n. r = w_ans s n c)"])
  have "P t" if "P s" "same_objects s t" for s t using that assms(1) by (auto dest: of_objectsD)
  moreover have "same_objects s (s\<lparr>w_clock := k, w_trace := tr\<rparr>)" for s :: "'a daemon" and k tr
    by (simp add: same_objects_def)
  ultimately show "spec P (sys c) (\<lambda>r s. P s \<and> (\<exists>n. r = w_ans s n c)) E"
    unfolding spec_def sys_run by auto
next
  fix r
  show "spec (\<lambda>s. P s \<and> (\<exists>n. r = w_ans s n c)) (f r) R E"
  proof (rule specI)
    fix s x t
    assume "P s \<and> (\<exists>n. r = w_ans s n c)" and run: "f r s = (x, t)"
    then obtain n where s: "P s" "r = w_ans s n c" by blast
    show "case x of Inr y \<Rightarrow> R y t | Inl e \<Rightarrow> \<not> dangling e \<and> (\<forall>w. e = StdExn w \<longrightarrow> E t)"
      by (rule specD [OF assms(2) [OF s] s(1) run])
  qed
qed

lemma spec_skip:
  assumes "calm m" and "of_objects P" and "spec P n R E" and "\<And>s. P s \<Longrightarrow> E s"
  shows "spec P (seqM m n) R E"
  by (rule spec_seq [OF spec_conseq [OF spec_calm [OF assms(1,2)]] assms(3)]) (use assms(4) in auto)

text \<open>The state with a process changed.\<close>

abbreviation with_proc :: "nat \<Rightarrow> nat \<Rightarrow> (process \<Rightarrow> process) \<Rightarrow> 'n daemon \<Rightarrow> 'n daemon" where
  "with_proc jid i f s \<equiv> s\<lparr>h_jobs := (h_jobs s)(jid := map_option (upd_proc i f) (h_jobs s jid))\<rparr>"

lemma proc_at_with_proc:
  "proc_at (with_proc jid i f s) jid' i' =
     (if jid' = jid \<and> i' = i then map_option f (proc_at s jid i) else proc_at s jid' i')"
  by (auto simp: proc_at_def upd_proc_nth split: option.split)

lemma watched_heap [simp]: "watched (s\<lparr>h_jobs := h\<rparr>) = watched s" "unwatched jid i (s\<lparr>h_jobs := h\<rparr>) = unwatched jid i s"
  by (simp_all add: watched_def unwatched_def fun_eq_iff)

lemma heap_ok_mod_job:
  assumes "heap_ok s"
    and "\<And>j. h_jobs s jid = Some j \<Longrightarrow> c_name (j_config (f j)) = c_name (j_config j) \<and> timers_own jid (f j)"
  shows "heap_ok (s\<lparr>h_jobs := (h_jobs s)(jid := map_option f (h_jobs s jid))\<rparr>)"
  using assms unfolding heap_ok_def by (auto split: if_splits) blast

lemma timers_own_upd:
  assumes "timers_own jid j" and "\<And>p t. p_timer (f p) = Some t \<Longrightarrow> p_timer p = Some t \<or> t_callback t \<in> {TcStartTime jid i, TcStopTime jid i}"
  shows "timers_own jid (upd_proc i f j)"
  using assms unfolding timers_own_def by (auto simp: upd_proc_nth)

lemma frame_with_proc:
  assumes ok: "frame_ok X s"
    and timer: "\<And>p t. p_timer (f p) = Some t \<Longrightarrow> p_timer p = Some t \<or> t_callback t \<in> {TcStartTime jid i, TcStopTime jid i}"
  shows "frame_ok X (with_proc jid i f s)"
proof -
  have "heap_ok (with_proc jid i f s)"
    by (rule heap_ok_mod_job) (use ok timer in \<open>auto simp: frame_ok_def dest: heap_ok_job intro: timers_own_upd\<close>)
  then show ?thesis using ok by (auto simp: frame_ok_def idle_ok_def clients_ok_def)
qed

text \<open>An update that leaves the timer alone, and, unless the process is not watched, the descriptor too.\<close>

lemma objects_set_proc:
  assumes ok: "objects_ok X s" and timer: "\<And>p. p_timer (f p) = p_timer p"
    and live: "unwatched jid i s \<or> (\<forall>p. p_fd (f p) = p_fd p \<and> (p_state p \<in> live_states \<longrightarrow> p_state (f p) \<in> live_states))"
  shows "objects_ok X (with_proc jid i f s)"
proof -
  have "callback_ok (with_proc jid i f s) fd cb" if "watched s fd cb" for fd cb
  proof -
    from ok that have "callback_ok s fd cb" by (simp add: objects_ok_def callbacks_ok_def)
    moreover have "\<not> unwatched jid i s" if "cb = CbProcess jid i"
      using that \<open>watched s fd cb\<close> by (auto simp: unwatched_def)
    ultimately show ?thesis
      using timer live by (cases cb) (auto simp: proc_at_with_proc)
  qed
  moreover have "frame_ok X (with_proc jid i f s)"
    using objects_ok_parts(6) [OF ok] by (rule frame_with_proc) (simp add: timer)
  ultimately show ?thesis by (simp add: objects_ok_def callbacks_ok_def)
qed

section \<open>Registrations\<close>

text \<open>Only registrations of the descriptors in \<open>F\<close> are dropped.\<close>

definition dropped :: "int set \<Rightarrow> 'n daemon \<Rightarrow> 'n daemon \<Rightarrow> bool" where
  "dropped F s t \<longleftrightarrow> d_config_env t = d_config_env s \<and> d_load t = d_load s \<and> h_jobs t = h_jobs s \<and> m_jobs t = m_jobs s \<and> m_config t = m_config s \<and>
     h_clients t = h_clients s \<and> s_clients t = s_clients s \<and> w_ans t = w_ans s \<and> w_next s \<le> w_next t \<and>
     (\<forall>fd cb. watched t fd cb \<longleftrightarrow> fd \<notin> F \<and> watched s fd cb)"

lemma dropped_parts:
  assumes "dropped F s t"
  shows "proc_at t = proc_at s" "watched t fd cb \<longleftrightarrow> fd \<notin> F \<and> watched s fd cb" "unwatched jid i s \<Longrightarrow> unwatched jid i t"
    "w_ans t = w_ans s" "h_jobs t = h_jobs s" "m_jobs t = m_jobs s" "h_clients t = h_clients s" "s_clients t = s_clients s"
  using assms by (auto simp: dropped_def proc_at_def unwatched_def fun_eq_iff)

lemma callback_ok_dropped: "dropped F s t \<Longrightarrow> callback_ok t fd cb = callback_ok s fd cb"
  by (cases cb) (auto simp: dropped_parts)

lemma frame_dropped: "dropped F s t \<Longrightarrow> frame_ok X s \<Longrightarrow> frame_ok X t"
  using heap_ok_same [of t s] clients_ok_same [of t s]
  by (auto simp: frame_ok_def idle_ok_def dropped_parts) (simp_all add: dropped_def)

lemma objects_dropped: "dropped F s t \<Longrightarrow> objects_ok X s \<Longrightarrow> objects_ok X t"
  by (auto simp: objects_ok_def callbacks_ok_def callback_ok_dropped dropped_parts intro: frame_dropped)

lemma dropped_trans: "dropped F s t \<Longrightarrow> dropped G t u \<Longrightarrow> dropped (F \<union> G) s u"
  by (auto simp: dropped_def)

lemma dropped_same: "same_objects s t \<Longrightarrow> dropped {} s t"
  by (auto simp: dropped_def same_objects_def same_objects_parts)

lemma unregister_run:
  assumes "resources_ok (w_ans s)"
  shows "\<exists>t. unregisterEvent fd s = (Inr (), t) \<and> dropped {fd} s t"
  using assms by (auto simp: unregisterEvent_def run_simps resources_ok_def dropped_def watched_def)

text \<open>What a timer's destructor drops.\<close>

definition timer_fds :: "'tc timer option \<Rightarrow> int set" where
  "timer_fds u = (case u of Some t \<Rightarrow> if t_state t = T_RUNNING then {t_fd t} else {} | None \<Rightarrow> {})"

lemma fd_destroy_run: "\<exists>t. fd_destroy fd s = (Inr (), t) \<and> same_objects s t"
  by (simp add: fd_destroy_def run_simps same_objects_def)

lemma timer_release_run:
  fixes s :: "'n daemon"
  assumes "resources_ok (w_ans s)"
  shows "\<exists>t :: 'n daemon. timer_release u s = (Inr (), t) \<and> dropped (timer_fds u) s t"
proof (cases u)
  case None
  then show ?thesis by (simp add: timer_release_def returnM_run timer_fds_def dropped_same so.eff_refl)
next
  case (Some v)
  obtain a :: "'n daemon" where a: "whenM (t_state v = T_RUNNING) (unregisterEvent (t_fd v)) s = (Inr (), a)"
    "dropped (timer_fds u) s a"
    using unregister_run [OF assms, of "t_fd v"]
    by (cases "t_state v = T_RUNNING") (auto simp: Some timer_fds_def whenM_run dropped_same so.eff_refl)
  obtain b where b: "fd_destroy (t_fd v) a = (Inr (), b)" "same_objects a b"
    using fd_destroy_run by blast
  have "dropped (timer_fds u) s b" using dropped_trans [OF a(2) dropped_same [OF b(2)]] by simp
  with a(1) b(1) show ?thesis
    by (simp add: Some timer_release_def timer_destroy_def noexceptM_run seqM_run)
qed


section \<open>Timers\<close>

text \<open>The process's timer is replaced by one that does not run, and the old one is destroyed.\<close>

lemma objects_new_timer:
  assumes ok: "objects_ok X s" and p: "proc_at s jid i = Some p"
    and v: "\<And>t. v = Some t \<Longrightarrow> t_callback t \<in> {TcStartTime jid i, TcStopTime jid i}"
    and t: "dropped (timer_fds (p_timer p)) (with_proc jid i (\<lambda>p. p\<lparr>p_timer := v\<rparr>) s) t"
  shows "objects_ok X t"
proof -
  let ?s = "with_proc jid i (\<lambda>p. p\<lparr>p_timer := v\<rparr>) s"
  have "frame_ok X ?s" by (rule frame_with_proc) (use objects_ok_parts(6) [OF ok] v in auto)
  moreover have "callback_ok t fd cb" if "watched t fd cb" for fd cb
  proof -
    from that t have w: "fd \<notin> timer_fds (p_timer p)" "watched s fd cb" by (auto simp: dropped_parts)
    with ok have "callback_ok s fd cb" by (simp add: objects_ok_def callbacks_ok_def)
    with w p have "callback_ok ?s fd cb"
      by (cases cb) (auto simp: proc_at_with_proc timer_fds_def split: option.splits if_splits)
    with t show ?thesis by (simp add: callback_ok_dropped)
  qed
  ultimately show ?thesis using frame_dropped [OF t] by (simp add: objects_ok_def callbacks_ok_def)
qed

text \<open>Assertions on a process that do not depend on its timer.\<close>

definition timeless :: "(process \<Rightarrow> bool) \<Rightarrow> bool" where
  "timeless K \<longleftrightarrow> (\<forall>p x. K (p\<lparr>p_timer := x\<rparr>) = K p)"

lemma proc_is_new_timer:
  assumes "proc_at s jid i = Some p" and "K p" and "timeless K"
    and "dropped F (with_proc jid i (\<lambda>p. p\<lparr>p_timer := v\<rparr>) s) t"
  shows "proc_is jid i (\<lambda>p. K p \<and> p_timer p = v) t"
  using assms by (auto simp: proc_is_def dropped_parts proc_at_with_proc timeless_def)

lemma clear_timer_spec:
  assumes "timeless K"
  shows "spec (\<lambda>s. objects_ok X s \<and> proc_is jid i K s) (proc_clear_timer jid i)
     (\<lambda>_ s. objects_ok X s \<and> proc_is jid i K s) (\<lambda>_. False)"
proof (rule specI, elim conjE)
  fix s :: "'n daemon" and r t
  assume ok: "objects_ok X s" and "proc_is jid i K s" and run: "proc_clear_timer jid i s = (r, t)"
  then obtain p where p: "proc_at s jid i = Some p" "K p" by (auto simp: proc_is_def)
  let ?s = "with_proc jid i (\<lambda>p. p\<lparr>p_timer := None\<rparr>) s"
  obtain u where u: "timer_release (p_timer p) ?s = (Inr (), u)" "dropped (timer_fds (p_timer p)) ?s u"
    using timer_release_run [of ?s "p_timer p"] objects_ok_parts(1) [OF ok] by auto
  have "get_proc jid i s = (Inr p, s)"
    using p(1) by (auto simp: get_proc_run proc_at_def split: option.splits if_splits)
  with run u(1) have "r = Inr ()" "t = u" by (simp_all add: proc_clear_timer_def bindM_run seqM_run mod_proc_run)
  moreover have "objects_ok X u"
    by (rule objects_new_timer [OF ok p(1) _ u(2)]) simp
  moreover have "proc_is jid i K u"
    using proc_is_new_timer [OF p assms u(2)] unfolding proc_is_def by blast
  ultimately show "case r of Inr x \<Rightarrow> objects_ok X t \<and> proc_is jid i K t
      | Inl e \<Rightarrow> \<not> dangling e \<and> (\<forall>w. e = StdExn w \<longrightarrow> False)"
    by simp
qed

lemma timer_new_run:
  fixes s :: "'n daemon"
  assumes "resources_ok (w_ans s)"
  shows "\<exists>v t. timer_new interval cb s = (Inr v, t) \<and> same_objects s t \<and> t_callback v = cb"
  using assms by (simp add: timer_new_def run_simps resources_ok_def same_objects_def)

lemma reset_timer_spec:
  assumes cb: "cb \<in> {TcStartTime jid i, TcStopTime jid i}" and K: "timeless K"
  shows "spec (\<lambda>s. objects_ok X s \<and> proc_is jid i K s \<and> (U \<longrightarrow> unwatched jid i s)) (proc_reset_timer jid i interval cb)
     (\<lambda>_ s. objects_ok X s \<and> proc_is jid i (\<lambda>p. K p \<and> p_timer p \<noteq> None) s \<and> (U \<longrightarrow> unwatched jid i s)) (\<lambda>_. False)"
proof (rule specI, elim conjE)
  fix s :: "'n daemon" and r t
  assume ok: "objects_ok X s" and "proc_is jid i K s" and un: "U \<longrightarrow> unwatched jid i s"
    and run: "proc_reset_timer jid i interval cb s = (r, t)"
  then obtain p where p: "proc_at s jid i = Some p" "K p" by (auto simp: proc_is_def)
  obtain v s1 where v: "timer_new interval cb s = (Inr v, s1)" "same_objects s s1" "t_callback v = cb"
    using timer_new_run [OF objects_ok_parts(1) [OF ok], of interval cb] by (elim exE conjE)
  have s1: "objects_ok X s1" "proc_at s1 jid i = Some p"
    using of_objectsD [OF of_objects_intros(1) v(2) ok] v(2) p(1) by (simp_all add: same_objects_parts)
  let ?s = "with_proc jid i (\<lambda>p. p\<lparr>p_timer := Some v\<rparr>) s1"
  obtain u where u: "timer_release (p_timer p) ?s = (Inr (), u)" "dropped (timer_fds (p_timer p)) ?s u"
    using timer_release_run [of ?s "p_timer p"] objects_ok_parts(1) [OF s1(1)] by auto
  have "get_proc jid i s1 = (Inr p, s1)"
    using s1(2) by (auto simp: get_proc_run proc_at_def split: option.splits if_splits)
  with run u(1) v(1) have "r = Inr ()" "t = u" by (simp_all add: proc_reset_timer_def bindM_run seqM_run mod_proc_run)
  moreover have "U \<longrightarrow> unwatched jid i u" using un v(2) dropped_parts(3) [OF u(2)] by (simp add: same_objects_parts)
  moreover have "objects_ok X u"
    by (rule objects_new_timer [OF s1 _ u(2)]) (use cb v(3) in auto)
  moreover have "proc_is jid i (\<lambda>p. K p \<and> p_timer p \<noteq> None) u"
    using proc_is_new_timer [OF s1(2) p(2) K u(2)] unfolding proc_is_def by force
  ultimately show "case r of
      Inr x \<Rightarrow> objects_ok X t \<and> proc_is jid i (\<lambda>p. K p \<and> p_timer p \<noteq> None) t \<and> (U \<longrightarrow> unwatched jid i t)
    | Inl e \<Rightarrow> \<not> dangling e \<and> (\<forall>w. e = StdExn w \<longrightarrow> False)"
    by simp
qed

text \<open>The registration of one descriptor for reading.\<close>

definition registered :: "int \<Rightarrow> callback \<Rightarrow> 'n daemon \<Rightarrow> 'n daemon \<Rightarrow> bool" where
  "registered fd cb s t \<longleftrightarrow> d_config_env t = d_config_env s \<and> d_load t = d_load s \<and> h_jobs t = h_jobs s \<and> m_jobs t = m_jobs s \<and> m_config t = m_config s \<and>
     h_clients t = h_clients s \<and> s_clients t = s_clients s \<and> w_ans t = w_ans s \<and> w_next t = w_next s \<and>
     (\<forall>fd' cb'. watched t fd' cb' \<longleftrightarrow> (if fd' = fd then cb' = cb else watched s fd' cb'))"

lemma register_run:
  assumes "resources_ok (w_ans s)"
  shows "\<exists>t. registerEvent fd (Some cb) None s = (Inr (), t) \<and> registered fd cb s t"
  using assms
  by (auto simp: registerEvent_def updateEventInternal_def Let_def run_simps resources_ok_def registered_def watched_def)

lemma registered_parts:
  assumes "registered fd cb s t"
  shows "proc_at t = proc_at s" "watched t fd' cb' \<longleftrightarrow> (if fd' = fd then cb' = cb else watched s fd' cb')"
    "\<forall>i. cb \<noteq> CbProcess jid i \<Longrightarrow> unwatched jid i s \<Longrightarrow> unwatched jid i t" "w_ans t = w_ans s" "h_jobs t = h_jobs s"
    "h_clients t = h_clients s"
  using assms by (auto simp: registered_def proc_at_def unwatched_def fun_eq_iff)

lemma callback_ok_registered: "registered fd cb s t \<Longrightarrow> callback_ok t fd' cb' = callback_ok s fd' cb'"
  by (cases cb') (auto simp: registered_parts)

text \<open>The new closure may only be that of a process when its job is not idle.\<close>

lemma frame_registered:
  assumes "registered fd cb s t" and "frame_ok X s"
    and "\<And>jid i. cb = CbProcess jid i \<Longrightarrow> jid \<in> X \<or> job_is jid (\<lambda>j. j_state j \<notin> idle_states) s"
  shows "frame_ok X t"
proof -
  have "heap_ok t" "clients_ok t" "resources_ok (w_ans t)" "yaml_ok (d_config_env t) (d_load t)"
    using heap_ok_same [of t s] clients_ok_same [of t s] assms(1,2) by (simp_all add: registered_def frame_ok_def)
  moreover have "idle_ok X t"
    unfolding idle_ok_def
  proof (intro allI impI)
    fix jid j i
    assume j: "h_jobs t jid = Some j" "j_state j \<in> idle_states" "jid \<notin> X"
    then have "cb \<noteq> CbProcess jid i" for i
      using assms(1,3) by (fastforce simp: job_is_def registered_parts)
    with j assms(1,2) registered_parts(3) [OF assms(1)] show "unwatched jid i t"
      by (auto simp: frame_ok_def idle_ok_def registered_parts)
  qed
  ultimately show ?thesis by (simp add: frame_ok_def)
qed

lemma start_timer_spec:
  assumes K: "timeless K"
  shows "spec (\<lambda>s. objects_ok X s \<and> proc_is jid i (\<lambda>p. K p \<and> p_timer p \<noteq> None) s \<and> (U \<longrightarrow> unwatched jid i s))
     (proc_start_timer jid i) (\<lambda>_ s. objects_ok X s \<and> proc_is jid i K s \<and> (U \<longrightarrow> unwatched jid i s)) (\<lambda>_. False)"
proof (rule specI, elim conjE)
  fix s :: "'n daemon" and r t
  assume ok: "objects_ok X s" and "proc_is jid i (\<lambda>p. K p \<and> p_timer p \<noteq> None) s" and un: "U \<longrightarrow> unwatched jid i s"
    and run: "proc_start_timer jid i s = (r, t)"
  then obtain p v where p: "proc_at s jid i = Some p" "K p" "p_timer p = Some v" by (auto simp: proc_is_def)
  let ?cb = "CbTimer jid i (t_id v)" and ?c = "SysTimerfdSettime (t_fd v) (t_interval v) (t_interval v)"
  let ?s = "s\<lparr>w_clock := Suc (w_clock s), w_trace := (?c, w_ans s (w_clock s) ?c) # w_trace s\<rparr>"
  have so: "same_objects s ?s" by (simp add: same_objects_def)
  have ok1: "objects_ok X ?s" and p1: "proc_at ?s = proc_at s" "watched ?s = watched s"
    using of_objectsD [OF of_objects_intros(1) so ok] so by (simp_all add: same_objects_parts)
  obtain u where u: "registerEvent (t_fd v) (Some ?cb) None ?s = (Inr (), u)" "registered (t_fd v) ?cb ?s u"
    using register_run [OF objects_ok_parts(1) [OF ok1], of "t_fd v" ?cb] by (elim exE conjE)
  let ?f = "\<lambda>p. p\<lparr>p_timer := Some (v\<lparr>t_state := T_RUNNING\<rparr>)\<rparr>"
  have "get_proc jid i s = (Inr p, s)"
    using p(1) by (auto simp: get_proc_run proc_at_def split: option.splits if_splits)
  moreover have "w_ans s (w_clock s) ?c \<noteq> -1" using objects_ok_parts(1) [OF ok] by (simp add: resources_ok_def)
  ultimately have rt: "r = Inr ()" "t = with_proc jid i ?f u"
    using run u(1) p(3)
    by (simp_all add: proc_start_timer_def timer_start_def bindM_run seqM_run sys_run mod_proc_run returnM_run)
  have "timers_own jid j" if "h_jobs s jid = Some j" for j
    using objects_ok_parts(2) [OF ok] that by (simp add: heap_ok_job)
  with p have own: "t_callback v \<in> {TcStartTime jid i, TcStopTime jid i}"
    by (auto simp: proc_at_def timers_own_def split: option.splits if_splits)
  have "frame_ok X u" by (rule frame_registered [OF u(2) objects_ok_parts(6) [OF ok1]]) simp
  then have "frame_ok X t" unfolding rt(2) by (rule frame_with_proc) (use own in auto)
  have at: "proc_at t jid' i' = (if jid' = jid \<and> i' = i then Some (?f p) else proc_at s jid' i')" for jid' i'
    using p(1) registered_parts(1) [OF u(2)] by (simp only: rt(2) proc_at_with_proc p1 option.map)
  have wt: "watched t fd cb \<longleftrightarrow> (if fd = t_fd v then cb = ?cb else watched s fd cb)" for fd cb
    using registered_parts(2) [OF u(2)] by (simp add: rt(2) p1)
  have hc: "h_clients t = h_clients s" using registered_parts(6) [OF u(2)] by (simp add: rt(2))
  have "callback_ok t fd cb" if w: "watched t fd cb" for fd cb
  proof (cases "fd = t_fd v")
    case True
    with w show ?thesis by (simp add: wt at)
  next
    case False
    with w ok have "callback_ok s fd cb" by (simp add: wt objects_ok_def callbacks_ok_def)
    with False p show ?thesis
      using hc by (cases cb) (auto simp: at)
  qed
  with \<open>frame_ok X t\<close> have "objects_ok X t" by (simp add: objects_ok_def callbacks_ok_def)
  moreover have "proc_is jid i K t" using p K by (simp add: proc_is_def at timeless_def)
  moreover have "U \<longrightarrow> unwatched jid i t" using un by (auto simp: unwatched_def wt)
  ultimately show "case r of Inr x \<Rightarrow> objects_ok X t \<and> proc_is jid i K t \<and> (U \<longrightarrow> unwatched jid i t)
      | Inl e \<Rightarrow> \<not> dangling e \<and> (\<forall>w. e = StdExn w \<longrightarrow> False)"
    by (simp add: rt(1))
qed

section \<open>Starting a process\<close>

text \<open>What a process does to itself leaves the rest of its job alone.\<close>

definition job_core :: "job \<Rightarrow> jobconfig \<times> string list \<times> string list \<times> job_state \<times> nat" where
  "job_core j = (j_config j, j_argv j, j_env j, j_state j, length (j_processes j))"

definition job_same :: "'n daemon \<Rightarrow> 'n daemon \<Rightarrow> bool" where
  "job_same s t \<longleftrightarrow> (\<forall>jid. map_option job_core (h_jobs t jid) = map_option job_core (h_jobs s jid))"

interpretation js: effect_order job_same
  by unfold_locales (auto simp: job_same_def)

lemma quiet_same_jobs: "keeps quiet m \<Longrightarrow> keeps job_same m"
  by (auto simp: keeps_def quiet_def job_same_def)

lemma mod_proc_same: "keeps job_same (mod_proc jid i f)"
  by (rule keepsI) (auto simp: mod_proc_run job_same_def job_core_def option.map_comp comp_def intro!: option.map_cong)

lemmas same_job_intros = js.combinator_keeps mod_proc_same quiet_same_jobs [OF qu.get_R(1)] quiet_same_jobs [OF qu.get_R(2)]
  quiet_same_jobs [OF qu.timer_R(1)] quiet_same_jobs [OF qu.timer_R(2)] quiet_same_jobs [OF qu.timer_R(4)]
  quiet_same_jobs [OF qu.timer_R(5)] quiet_same_jobs [OF qu.sys_R] quiet_same_jobs [OF qu.log_R]
  quiet_same_jobs [OF qu.register_R] quiet_same_jobs [OF qu.unregister_R] quiet_same_jobs [OF qu.errno_text_R]
  quiet_same_jobs [OF qu.child_R]

lemma proc_timer_same: "keeps job_same (proc_reset_timer jid i n cb)" "keeps job_same (proc_clear_timer jid i)"
  "keeps job_same (proc_start_timer jid i)"
  unfolding proc_reset_timer_def proc_clear_timer_def proc_start_timer_def
  by (auto intro!: same_job_intros split: option.split)

lemma process_start_same: "keeps job_same (process_start jid i path argv env config)"
  unfolding process_start_def process_parent_def pidfd_open_def
  by (auto intro!: same_job_intros proc_timer_same)

lemma job_proc_start_same: "keeps job_same (job_proc_start jid i)"
  unfolding job_proc_start_def by (auto intro!: same_job_intros process_start_same split: list.split)

text \<open>Assertions on a job that do not depend on what its processes are doing.\<close>

definition cored :: "(job \<Rightarrow> bool) \<Rightarrow> bool" where
  "cored C \<longleftrightarrow> (\<forall>j j'. job_core j = job_core j' \<longrightarrow> C j \<longrightarrow> C j')"

lemma job_is_same:
  assumes "cored C" and "job_same s t" and "job_is jid C s"
  shows "job_is jid C t"
proof -
  obtain j where j: "h_jobs s jid = Some j" "C j" using assms(3) by (auto simp: job_is_def)
  from assms(2) have "map_option job_core (h_jobs t jid) = Some (job_core j)" using j(1) by (simp add: job_same_def)
  then obtain j' where "h_jobs t jid = Some j'" "job_core j' = job_core j" by auto
  with assms(1) j(2) show ?thesis unfolding cored_def job_is_def by metis
qed

lemma cored_intros [intro]:
  "cored (\<lambda>j. P (j_state j))" "cored (\<lambda>j. Q (j_argv j))" "cored (\<lambda>j. R (j_config j))" "cored (\<lambda>j. L (length (j_processes j)))"
  by (auto simp: cored_def job_core_def)

lemma live_job: "live jid i s \<longleftrightarrow> job_is jid (\<lambda>j. i < length (j_processes j)) s"
  by (auto simp: live_def proc_at_def job_is_def split: option.splits)

lemma proc_is_with_proc:
  "proc_is jid i K (with_proc jid i f s) \<longleftrightarrow> proc_is jid i (\<lambda>p. K (f p)) s"
  by (auto simp: proc_is_def proc_at_with_proc)

lemma spec_mod_proc: "(\<And>s. P s \<Longrightarrow> Q (with_proc jid i f s)) \<Longrightarrow> spec P (mod_proc jid i f) (\<lambda>_. Q) E"
  by (simp add: spec_def mod_proc_run)

lemma spec_mod_job:
  "(\<And>s. P s \<Longrightarrow> Q (s\<lparr>h_jobs := (h_jobs s)(jid := map_option f (h_jobs s jid))\<rparr>)) \<Longrightarrow> spec P (mod_job jid f) (\<lambda>_. Q) E"
  by (simp add: spec_def mod_job_run)

lemma timeless_intros [intro]: "timeless (\<lambda>p. A (p_state p))" "timeless (\<lambda>p. B (p_fd p))" "timeless (\<lambda>p. True)"
  "timeless K \<Longrightarrow> timeless L \<Longrightarrow> timeless (\<lambda>p. K p \<and> L p)"
  by (auto simp: timeless_def)

text \<open>A job that may have children.\<close>

definition may_start :: "nat set \<Rightarrow> nat \<Rightarrow> 'n daemon \<Rightarrow> bool" where
  "may_start X jid = job_is jid (\<lambda>j. jid \<in> X \<or> j_state j \<notin> idle_states)"

lemma may_start_same: "job_same s t \<Longrightarrow> may_start X jid s \<Longrightarrow> may_start X jid t"
  unfolding may_start_def by (rule job_is_same) (auto simp: cored_def job_core_def)

lemma may_start_objects [intro]: "of_objects (may_start X jid)"
  unfolding may_start_def by (rule of_objects_intros)

lemmas of_intros = of_objects_conj of_objects_disj of_objects_intros proc_is_objects may_start_objects

lemma register_process_spec:
  "spec (\<lambda>s. objects_ok X s \<and> proc_is jid i (\<lambda>p. p_state p \<in> live_states \<and> p_fd p = fd) s \<and> may_start X jid s)
     (registerEvent fd (Some (CbProcess jid i)) None) (\<lambda>_. objects_ok X) (\<lambda>_. False)"
proof (rule specI, elim conjE)
  fix s :: "'n daemon" and r t
  assume ok: "objects_ok X s" and p: "proc_is jid i (\<lambda>p. p_state p \<in> live_states \<and> p_fd p = fd) s"
    and job: "may_start X jid s" and run: "registerEvent fd (Some (CbProcess jid i)) None s = (r, t)"
  obtain u where u: "registerEvent fd (Some (CbProcess jid i)) None s = (Inr (), u)" "registered fd (CbProcess jid i) s u"
    using register_run [OF objects_ok_parts(1) [OF ok]] by blast
  have "frame_ok X u"
    by (rule frame_registered [OF u(2) objects_ok_parts(6) [OF ok]]) (use job in \<open>auto simp: may_start_def job_is_def\<close>)
  moreover have "callback_ok u fd' cb" if "watched u fd' cb" for fd' cb
    using that u(2) p ok
    by (auto simp: callback_ok_registered registered_parts proc_is_def objects_ok_def callbacks_ok_def split: if_splits)
  ultimately show "case r of Inr x \<Rightarrow> objects_ok X t | Inl e \<Rightarrow> \<not> dangling e \<and> (\<forall>w. e = StdExn w \<longrightarrow> False)"
    using run u(1) by (auto simp: objects_ok_def callbacks_ok_def)
qed

lemma spec_log: "of_objects P \<Longrightarrow> spec P n R E \<Longrightarrow> spec P (seqM (logM ty msg) n) R E"
proof (rule spec_seq)
  assume "of_objects P"
  moreover have "same_objects s (s\<lparr>w_sinks := k\<rparr>)" for s :: "'n daemon" and k by (simp add: same_objects_def)
  ultimately show "spec P (logM ty msg) (\<lambda>_. P) E"
    unfolding spec_def by (auto simp: logM_run dest: of_objectsD)
qed

text \<open>A process that may be started: no registration refers to it yet.\<close>

definition startable :: "nat set \<Rightarrow> nat \<Rightarrow> nat \<Rightarrow> (process \<Rightarrow> bool) \<Rightarrow> 'n daemon \<Rightarrow> bool" where
  "startable X jid i K s \<longleftrightarrow> objects_ok X s \<and> proc_is jid i K s \<and> unwatched jid i s \<and> may_start X jid s"

lemma startable_objects [intro]: "of_objects (startable X jid i K)"
  unfolding startable_def by (intro of_intros)

lemma startable_mod:
  assumes "\<And>p. p_timer (f p) = p_timer p" and "\<And>p. K p \<Longrightarrow> L (f p)"
  shows "spec (startable X jid i K) (mod_proc jid i f) (\<lambda>_. startable X jid i L) E"
proof (rule spec_mod_proc)
  fix s :: "'n daemon"
  assume s: "startable X jid i K s"
  have "objects_ok X (with_proc jid i f s)" by (rule objects_set_proc) (use s assms(1) in \<open>auto simp: startable_def\<close>)
  moreover have "may_start X jid (with_proc jid i f s)"
    by (rule may_start_same [OF keepsD [OF mod_proc_same mod_proc_run]]) (use s in \<open>simp add: startable_def\<close>)
  ultimately show "startable X jid i L (with_proc jid i f s)"
    using s assms(2) by (auto simp: startable_def proc_is_with_proc) (auto simp: proc_is_def)
qed

lemma startable_timer:
  assumes K: "timeless K"
  shows "cb \<in> {TcStartTime jid i, TcStopTime jid i} \<Longrightarrow> spec (startable X jid i K) (proc_reset_timer jid i n cb)
      (\<lambda>_. startable X jid i (\<lambda>p. K p \<and> p_timer p \<noteq> None)) E"
    and "spec (startable X jid i (\<lambda>p. K p \<and> p_timer p \<noteq> None)) (proc_start_timer jid i) (\<lambda>_. startable X jid i K) E"
proof -
  have same: "job_same s t \<Longrightarrow> may_start X jid s \<Longrightarrow> may_start X jid t" for s t :: "'n daemon"
    by (rule may_start_same)
  show "cb \<in> {TcStartTime jid i, TcStopTime jid i} \<Longrightarrow> spec (startable X jid i K) (proc_reset_timer jid i n cb)
      (\<lambda>_. startable X jid i (\<lambda>p. K p \<and> p_timer p \<noteq> None)) E"
    by (rule spec_conseq [OF spec_frame [OF reset_timer_spec [OF _ K, where X = X and U = True] proc_timer_same(1) same]])
      (simp_all add: startable_def)
  show "spec (startable X jid i (\<lambda>p. K p \<and> p_timer p \<noteq> None)) (proc_start_timer jid i) (\<lambda>_. startable X jid i K) E"
    by (rule spec_conseq [OF spec_frame [OF start_timer_spec [OF K, where X = X and U = True] proc_timer_same(3) same]])
      (simp_all add: startable_def)
qed

lemma process_parent_spec:
  "spec (startable X jid i (\<lambda>p. p_timer p \<noteq> None)) (process_parent jid i pid name) (\<lambda>_. objects_ok X) (\<lambda>_. False)"
  unfolding process_parent_def pidfd_open_def
proof (rule spec_seq [OF startable_mod [where L = "\<lambda>p. p_state p \<in> live_states \<and> p_timer p \<noteq> None"]])
  let ?L = "\<lambda>p. p_state p \<in> live_states"
  show "spec (startable X jid i (\<lambda>p. ?L p \<and> p_timer p \<noteq> None))
     (seqM (proc_start_timer jid i) (seqM (logM LT_Info (''Started process '' @ name @ '' with PID '' @ to_string pid))
       (bindM (sys (SysPidfdOpen pid 0)) (\<lambda>fd. seqM (mod_proc jid i (\<lambda>p. p\<lparr>p_fd := fd\<rparr>))
         (if fd = -1 then bindM errno_text (\<lambda>err.
            throwM (StdExn (''Failed to open pidfd for process '' @ quoted name @ '': '' @ err)))
          else registerEvent fd (Some (CbProcess jid i)) None))))) (\<lambda>_. objects_ok X) (\<lambda>_. False)"
  proof (rule spec_seq, rule startable_timer(2), rule timeless_intros(1), rule spec_log, rule startable_objects,
      rule spec_sys, rule startable_objects)
    fix r n and s :: "'n daemon"
    assume "startable X jid i ?L s" and "r = w_ans s n (SysPidfdOpen pid 0)"
    then have r: "r \<noteq> -1" using objects_ok_parts(1) [of X s] by (simp add: resources_ok_def startable_def)
    have "spec (startable X jid i (\<lambda>p. ?L p \<and> p_fd p = r)) (registerEvent r (Some (CbProcess jid i)) None)
        (\<lambda>_. objects_ok X) (\<lambda>_. False)"
      by (rule spec_pre [OF register_process_spec]) (simp add: startable_def)
    with r show "spec (startable X jid i ?L) (seqM (mod_proc jid i (\<lambda>p. p\<lparr>p_fd := r\<rparr>)) (if r = -1 then bindM errno_text (\<lambda>err.
            throwM (StdExn (''Failed to open pidfd for process '' @ quoted name @ '': '' @ err)))
          else registerEvent r (Some (CbProcess jid i)) None)) (\<lambda>_. objects_ok X) (\<lambda>_. False)"
      by (intro spec_seq [OF startable_mod [where L = "\<lambda>p. ?L p \<and> p_fd p = r"]]) auto
  qed
qed (simp_all add: live_states_def)

lemma process_start_spec:
  "spec (startable X jid i (\<lambda>p. True)) (process_start jid i path argv env config) (\<lambda>_. objects_ok X) (\<lambda>_. False)"
  unfolding process_start_def
proof (rule spec_seq [OF startable_timer(1)], rule timeless_intros(3), blast, rule spec_sys, rule startable_objects)
  let ?P = "startable X jid i (\<lambda>p. True \<and> p_timer p \<noteq> None)"
  fix r n and s :: "'n daemon"
  assume "?P s" and "r = w_ans s n SysFork"
  then have r: "0 < r" using objects_ok_parts(1) [of X s] by (simp add: resources_ok_def startable_def)
  show "spec ?P (seqM (mod_proc jid i (\<lambda>p. p\<lparr>p_pid := r\<rparr>)) (bindM (get_proc jid i) (\<lambda>p.
     if r = -1 then bindM errno_text (\<lambda>err.
            throwM (StdExn (''Fork failed for process '' @ quoted (p_name p) @ '': '' @ err)))
     else if r = 0 then process_child (p_pgid p) path argv env config
     else process_parent jid i r (p_name p)))) (\<lambda>_. objects_ok X) (\<lambda>_. False)"
  proof (rule spec_seq [OF startable_mod [where L = "\<lambda>p. p_timer p \<noteq> None"]])
    show "spec (startable X jid i (\<lambda>p. p_timer p \<noteq> None)) (bindM (get_proc jid i) (\<lambda>p.
       if r = -1 then bindM errno_text (\<lambda>err.
              throwM (StdExn (''Fork failed for process '' @ quoted (p_name p) @ '': '' @ err)))
       else if r = 0 then process_child (p_pgid p) path argv env config
       else process_parent jid i r (p_name p))) (\<lambda>_. objects_ok X) (\<lambda>_. False)"
      by (rule spec_get_proc)
        (use r in \<open>auto simp: startable_def proc_is_def live_def intro: spec_pre [OF process_parent_spec]\<close>)
  qed auto
qed

text \<open>A job without a program to run starts nothing.\<close>

lemma job_proc_start_spec:
  "spec (\<lambda>s. objects_ok X s \<and> live jid i s \<and> unwatched jid i s \<and> job_is jid (\<lambda>j. j_argv j = [] \<or> jid \<in> X \<or> j_state j \<notin> idle_states) s)
     (job_proc_start jid i) (\<lambda>_. objects_ok X) (\<lambda>s. objects_ok X s \<and> job_is jid (\<lambda>j. j_argv j = []) s)"
  unfolding job_proc_start_def
proof (rule spec_get_job)
  let ?P = "\<lambda>s. objects_ok X s \<and> live jid i s \<and> unwatched jid i s \<and>
    job_is jid (\<lambda>j. j_argv j = [] \<or> jid \<in> X \<or> j_state j \<notin> idle_states) s"
  fix j
  show "spec (\<lambda>s. ?P s \<and> h_jobs s jid = Some j) (case j_argv j of
         [] \<Rightarrow> throwM (StdExn ''basic_string: construction from null is not valid'')
       | path # _ \<Rightarrow> process_start jid i path (j_argv j) (j_env j) (j_config j))
     (\<lambda>_. objects_ok X) (\<lambda>s. objects_ok X s \<and> job_is jid (\<lambda>j. j_argv j = []) s)"
  proof (cases "j_argv j")
    case Nil
    then show ?thesis by (auto intro!: spec_throw simp: job_is_def)
  next
    case (Cons path rest)
    have "spec (\<lambda>s. ?P s \<and> h_jobs s jid = Some j) (process_start jid i path (j_argv j) (j_env j) (j_config j))
        (\<lambda>_. objects_ok X) (\<lambda>s. objects_ok X s \<and> job_is jid (\<lambda>j. j_argv j = []) s)"
      by (rule spec_conseq [OF process_start_spec])
        (auto simp: startable_def job_is_def may_start_def Cons proc_is_live(2) [symmetric])
    then show ?thesis by (simp add: Cons)
  qed
qed (auto simp: job_is_def)

end
