(* ===== verification/Job_Safety.thy ===== *)
theory Job_Safety
  imports Object_Safety
begin

text \<open>
  The operations of jobs and the handlers of processes and timers keep every closure in the registry
  referring to a live object, and reach no destroyed one.
\<close>

section \<open>Jobs stay where they are\<close>

definition grows :: "'n daemon \<Rightarrow> 'n daemon \<Rightarrow> bool" where
  "grows s t \<longleftrightarrow> (\<forall>jid j. h_jobs s jid = Some j \<longrightarrow>
     (\<exists>j'. h_jobs t jid = Some j' \<and> length (j_processes j) \<le> length (j_processes j')))"

interpretation gr: effect_order grows
  by unfold_locales (simp add: grows_def, unfold grows_def, meson order_trans)

lemma same_grows:
  fixes m :: "('n, 'a) dprog"
  assumes "keeps job_same m"
  shows "keeps grows m"
proof (rule keepsI)
  fix s :: "'n daemon"
  from assms have "keeps job_same m" .
  then have same: "job_same s (snd (m s))" by (simp add: keeps_def)
  show "grows s (snd (m s))"
    unfolding grows_def
  proof (intro allI impI)
    fix jid j
    assume "h_jobs s jid = Some j"
    with same have "map_option job_core (h_jobs (snd (m s)) jid) = Some (job_core j)" by (simp add: job_same_def)
    then show "\<exists>j'. h_jobs (snd (m s)) jid = Some j' \<and> length (j_processes j) \<le> length (j_processes j')"
      by (auto simp: job_core_def)
  qed
qed

lemma mod_job_grows:
  "(\<And>j. length (j_processes j) \<le> length (j_processes (f j))) \<Longrightarrow> keeps grows (mod_job jid f)"
  by (rule keepsI) (auto simp: mod_job_run grows_def)

lemma set_job_state_grows: "keeps grows (set_job_state jid st)"
  unfolding set_job_state_def by (rule mod_job_grows) simp

lemmas grow_intros = gr.combinator_keeps set_job_state_grows same_grows [OF mod_proc_same] same_grows [OF job_proc_start_same]
  same_grows [OF proc_timer_same(1)] same_grows [OF proc_timer_same(2)] same_grows [OF proc_timer_same(3)]
  same_grows [OF quiet_same_jobs [OF qu.get_R(1)]] same_grows [OF quiet_same_jobs [OF qu.get_R(2)]]
  same_grows [OF quiet_same_jobs [OF qu.sys_R]] same_grows [OF quiet_same_jobs [OF qu.log_R]]
  same_grows [OF quiet_same_jobs [OF qu.small_R(3)]]

lemma manager_on_stop_grows: "keeps grows (manager_on_stop name)"
  unfolding manager_on_stop_def by (auto intro!: grow_intros split: option.split)

lemma job_on_stop_grows: "keeps grows (job_on_stop jid i)"
  unfolding job_on_stop_def by (auto intro!: grow_intros manager_on_stop_grows split: job_state.split)

lemma process_stop_grows: "keeps grows (process_stop jid i n sg)"
  unfolding process_stop_def set_proc_state_def pidfd_send_signal_def
  by (auto intro!: grow_intros job_on_stop_grows split: option.split)

lemma job_stop_grows: "keeps grows (job_stop jid)"
  unfolding job_stop_def by (auto intro!: grow_intros manager_on_stop_grows process_stop_grows split: job_state.split)

lemma job_start_grows: "keeps grows (job_start jid)"
proof -
  have "keeps grows (job_create_process jid n)" for n
    unfolding job_create_process_def Let_def
    by (auto intro!: grow_intros mod_job_grows)
  then have "keeps grows (job_start_processes jid)"
    unfolding job_start_processes_def by (auto intro!: grow_intros)
  moreover have "keeps grows (job_restart_processes jid)"
    unfolding job_restart_processes_def proc_reset_restarts_def by (auto intro!: grow_intros)
  ultimately show ?thesis
    unfolding job_start_def by (auto intro!: grow_intros split: job_state.split)
qed

lemma grows_live: "grows s t \<Longrightarrow> live jid i s \<Longrightarrow> live jid i t"
  by (fastforce simp: grows_def live_job job_is_def)

lemma grows_job: "grows s t \<Longrightarrow> h_jobs s jid \<noteq> None \<Longrightarrow> h_jobs t jid \<noteq> None"
  by (auto simp: grows_def)

section \<open>Jobs\<close>

text \<open>\<open>ok_objects\<close>: between two calls of a job's operations.\<close>

abbreviation ok_objects :: "'n daemon \<Rightarrow> bool" where "ok_objects \<equiv> objects_ok {}"

lemma proc_at_set_state:
  "proc_at (s\<lparr>h_jobs := (h_jobs s)(jid := map_option (\<lambda>j. j\<lparr>j_state := st\<rparr>) (h_jobs s jid))\<rparr>) = proc_at s"
  by (auto simp: proc_at_def fun_eq_iff split: option.split)

lemma objects_set_state:
  assumes ok: "objects_ok X s" and st: "st \<in> idle_states \<and> Y = X \<and> (\<forall>i. unwatched jid i s) \<or> st \<notin> idle_states \<and> X \<subseteq> insert jid Y"
  shows "objects_ok Y (s\<lparr>h_jobs := (h_jobs s)(jid := map_option (\<lambda>j. j\<lparr>j_state := st\<rparr>) (h_jobs s jid))\<rparr>)" (is "objects_ok Y ?t")
proof -
  have "timers_own jid j" if "h_jobs s jid = Some j" for j
    using heap_ok_job [OF objects_ok_parts(2) [OF ok] that] by blast
  then have "heap_ok ?t"
    by (intro heap_ok_mod_job [OF objects_ok_parts(2) [OF ok]]) (simp add: timers_own_def)
  moreover have "idle_ok Y ?t" using objects_ok_parts(4) [OF ok] st by (fastforce simp: idle_ok_def split: if_splits)
  moreover have "callback_ok ?t fd cb = callback_ok s fd cb" for fd cb by (cases cb) (simp_all add: proc_at_set_state)
  ultimately show ?thesis
    using objects_ok_parts [OF ok] by (simp add: objects_ok_def frame_ok_def callbacks_ok_def clients_ok_def)
qed

lemma set_state_spec:
  "st \<notin> idle_states \<Longrightarrow> X \<subseteq> insert jid Y \<Longrightarrow> spec (objects_ok X) (set_job_state jid st) (\<lambda>_. objects_ok Y) E"
  "spec (\<lambda>s. objects_ok X s \<and> (\<forall>i. unwatched jid i s)) (set_job_state jid st)
     (\<lambda>_ s. objects_ok X s \<and> (\<forall>i. unwatched jid i s)) E"
  unfolding set_job_state_def
  by (rule spec_mod_job; use objects_set_state in blast)
    (rule spec_mod_job; elim conjE; use objects_set_state [of X _ st X jid] in \<open>cases "st \<in> idle_states"; auto\<close>)

text \<open>A process of which no registration speaks.\<close>

definition detached :: "nat \<Rightarrow> nat \<Rightarrow> 'n daemon \<Rightarrow> bool" where
  "detached jid i s \<longleftrightarrow> ok_objects s \<and> live jid i s \<and> unwatched jid i s"

lemma detached_objects [intro]: "of_objects (detached jid i)"
  unfolding detached_def by (intro of_intros)

lemma detached_job: "detached jid i s \<Longrightarrow> h_jobs s jid \<noteq> None"
  by (auto simp: detached_def live_job job_is_def)

lemma detached_mod:
  assumes "\<And>p. p_timer (f p) = p_timer p"
  shows "spec (detached jid i) (mod_proc jid i f) (\<lambda>_. detached jid i) E"
  by (rule spec_mod_proc) (auto simp: detached_def proc_is_live(2) proc_is_with_proc intro: objects_set_proc assms)

lemma detached_starts:
  "spec (detached jid i) (seqM (set_job_state jid J_STARTING) (job_proc_start jid i)) (\<lambda>_. ok_objects) ok_objects"
  unfolding set_job_state_def
proof (rule spec_seq, rule spec_mod_job)
  fix s :: "'n daemon"
  let ?t = "s\<lparr>h_jobs := (h_jobs s)(jid := map_option (\<lambda>j. j\<lparr>j_state := J_STARTING\<rparr>) (h_jobs s jid))\<rparr>"
  assume s: "detached jid i s"
  then have "ok_objects ?t" by (intro objects_set_state [of "{}"]) (simp_all add: detached_def idle_states_def)
  moreover have "live jid i ?t" using s by (simp add: detached_def live_def proc_at_set_state)
  moreover have "job_is jid (\<lambda>j. j_argv j = [] \<or> jid \<in> {} \<or> j_state j \<notin> idle_states) ?t"
    using detached_job [OF s] by (auto simp: job_is_def idle_states_def)
  ultimately show "ok_objects ?t \<and> live jid i ?t \<and> unwatched jid i ?t \<and>
      job_is jid (\<lambda>j. j_argv j = [] \<or> jid \<in> {} \<or> j_state j \<notin> idle_states) ?t"
    using s by (simp add: detached_def)
next
  show "spec (\<lambda>s. ok_objects s \<and> live jid i s \<and> unwatched jid i s \<and>
      job_is jid (\<lambda>j. j_argv j = [] \<or> jid \<in> {} \<or> j_state j \<notin> idle_states) s)
     (job_proc_start jid i) (\<lambda>_. ok_objects) ok_objects"
    by (rule spec_conseq [OF job_proc_start_spec]) auto
qed

text \<open>Only a process in a live state can be watched.\<close>

lemma resting_unwatched:
  assumes "callbacks_ok s" and "h_jobs s jid = Some j" and "all_processes_in_states sts j" and "set sts \<inter> live_states = {}"
  shows "unwatched jid i s"
  unfolding unwatched_def
proof
  fix fd
  show "\<not> watched s fd (CbProcess jid i)"
  proof
    assume "watched s fd (CbProcess jid i)"
    with assms(1) have "callback_ok s fd (CbProcess jid i)" unfolding callbacks_ok_def by blast
    with assms(2) obtain p where "p \<in> set (j_processes j)" "p_state p \<in> live_states"
      by (auto simp: proc_at_def intro: nth_mem split: if_splits)
    with assms(3,4) show False by (auto simp: all_processes_in_states_def list_all_iff)
  qed
qed

lemma manager_on_stop_spec:
  "spec (\<lambda>s. ok_objects s \<and> (\<forall>i. unwatched jid i s) \<and> job_is jid (\<lambda>j. c_name (j_config j) = name) s)
     (manager_on_stop name) (\<lambda>_. ok_objects) ok_objects"
proof (rule specI, elim conjE)
  fix s :: "'n daemon" and r t
  assume ok: "ok_objects s" "\<forall>i. unwatched jid i s" and "job_is jid (\<lambda>j. c_name (j_config j) = name) s"
    and run: "manager_on_stop name s = (r, t)"
  then obtain j where j: "h_jobs s jid = Some j" "um_find name (m_jobs s) = Some jid"
    using objects_ok_parts(2) [OF ok(1)] by (auto simp: job_is_def dest: heap_ok_job)
  note set = specD [OF set_state_spec(2) [of "{}" jid _ ok_objects]]
  consider "(r, t) = (Inr (), s)" | st where "set_job_state jid st s = (r, t)"
    using run j by (auto simp: manager_on_stop_def bindM_run getsM_run get_job_run returnM_run split: option.splits if_splits)
  then show "case r of Inr x \<Rightarrow> ok_objects t | Inl e \<Rightarrow> \<not> dangling e \<and> (\<forall>w. e = StdExn w \<longrightarrow> ok_objects t)"
  proof cases
    case 2
    from set [OF _ this] ok show ?thesis by (auto split: sum.splits)
  qed (use ok in simp)
qed

definition config_same :: "'n daemon \<Rightarrow> 'n daemon \<Rightarrow> bool" where
  "config_same s t \<longleftrightarrow> (\<forall>jid. map_option j_config (h_jobs t jid) = map_option j_config (h_jobs s jid))"

lemma set_state_config: "keeps config_same (set_job_state jid st)"
  by (rule keepsI) (auto simp: set_job_state_def mod_job_run config_same_def option.map_comp comp_def intro!: option.map_cong)

lemma config_is_same:
  "config_same s t \<Longrightarrow> job_is jid (\<lambda>j. C (j_config j)) s \<Longrightarrow> job_is jid (\<lambda>j. C (j_config j)) t"
  unfolding config_same_def job_is_def by (metis option.map_disc_iff option.map_sel option.collapse option.sel option.discI)

lemma job_on_stop_spec: "spec (detached jid i) (job_on_stop jid i) (\<lambda>_. ok_objects) ok_objects"
  unfolding job_on_stop_def
proof (rule spec_get_job [OF _ detached_job])
  fix j
  let ?P = "\<lambda>s. detached jid i s \<and> h_jobs s jid = Some j"
  have start: "spec ?P (job_proc_start jid i) (\<lambda>_. ok_objects) ok_objects" if "j_state j = J_STARTING"
    by (rule spec_conseq [OF job_proc_start_spec [of "{}"]])
      (use that in \<open>auto simp: detached_def job_is_def idle_states_def\<close>)
  have settle: "spec ?P (seqM (set_job_state jid J_STOPPED) (manager_on_stop (c_name (j_config j)))) (\<lambda>_. ok_objects) ok_objects"
    if "all_processes_in_states [P_STOPPED] j"
  proof (rule spec_seq)
    let ?N = "job_is jid (\<lambda>k. c_name (j_config k) = c_name (j_config j))"
    show "spec ?P (set_job_state jid J_STOPPED) (\<lambda>_ s. ok_objects s \<and> (\<forall>i. unwatched jid i s) \<and> ?N s) ok_objects"
    proof (rule spec_conseq [OF spec_frame [OF set_state_spec(2) [of "{}" jid] set_state_config, where E = ok_objects and F = ?N]])
      fix s :: "'n daemon"
      assume s: "?P s"
      with that have "unwatched jid k s" for k
        by (intro resting_unwatched [of s jid j "[P_STOPPED]"])
          (auto simp: detached_def live_states_def dest: objects_ok_parts(5))
      with s show "(ok_objects s \<and> (\<forall>i. unwatched jid i s)) \<and> ?N s" by (simp add: detached_def job_is_def)
    qed (auto intro: config_is_same)
  qed (rule manager_on_stop_spec)
  have log: "spec ?P (bindM (get_proc jid i) (\<lambda>p. logM LT_Debug (''Process stopped while job is in a weird state'' @ p_name p
        @ jobStateEnumToString (j_state j)))) (\<lambda>_. ok_objects) ok_objects"
    by (rule spec_get_proc; (rule spec_conseq [OF spec_calm [OF calm_small(4), of ok_objects]])?) (auto simp: detached_def)
  show "spec ?P (case j_state j of
       J_STARTING \<Rightarrow> job_proc_start jid i
     | J_STOPPING \<Rightarrow>
         if \<not> all_processes_in_states [P_STOPPED] j then returnM ()
         else seqM (set_job_state jid J_STOPPED) (manager_on_stop (c_name (j_config j)))
     | _ \<Rightarrow> bindM (get_proc jid i) (\<lambda>p.
         logM LT_Debug (''Process stopped while job is in a weird state'' @ p_name p
           @ jobStateEnumToString (j_state j)))) (\<lambda>_. ok_objects) ok_objects"
    using start settle log by (cases "j_state j") (auto intro: spec_return simp: detached_def)
qed

lemma job_settle_spec: "spec (\<lambda>s. ok_objects s \<and> h_jobs s jid \<noteq> None) (job_settle jid) (\<lambda>_. ok_objects) ok_objects"
  unfolding job_settle_def
proof (rule spec_get_job, rule spec_when)
  fix j
  assume rest: "all_processes_in_states [P_EXITED, P_BACKOFF, P_STOPPED] j"
  show "spec (\<lambda>s. (ok_objects s \<and> h_jobs s jid \<noteq> None) \<and> h_jobs s jid = Some j) (set_job_state jid J_STOPPED)
      (\<lambda>_. ok_objects) ok_objects"
  proof (rule spec_conseq [OF set_state_spec(2)])
    fix s :: "'n daemon"
    assume s: "(ok_objects s \<and> h_jobs s jid \<noteq> None) \<and> h_jobs s jid = Some j"
    have "unwatched jid k s" for k
      by (rule resting_unwatched [OF objects_ok_parts(5) _ rest]) (use s in \<open>auto simp: live_states_def\<close>)
    with s show "ok_objects s \<and> (\<forall>i. unwatched jid i s)" by blast
  qed auto
qed auto

lemma job_on_exit_spec: "spec (detached jid i) (job_on_exit jid i code) (\<lambda>_. ok_objects) ok_objects"
proof -
  have settle: "spec (detached jid i) (job_settle jid) (\<lambda>_. ok_objects) ok_objects"
    by (rule spec_pre [OF job_settle_spec]) (use detached_job in \<open>auto simp: detached_def\<close>)
  have add: "spec (detached jid i) (proc_add_restart jid i) (\<lambda>_. detached jid i) ok_objects"
    unfolding proc_add_restart_def
    by (rule spec_get_proc; (rule spec_if; (rule spec_throw)?)?)
      (auto simp: detached_def [of jid i] intro: spec_pre [OF detached_mod])
  have log: "spec (detached jid i) (whenM b (logM ty msg)) (\<lambda>_. detached jid i) ok_objects" for b ty msg
    by (rule spec_conseq [OF spec_calm [of _ "detached jid i"]]) (auto intro: calm_small simp: detached_def)
  show ?thesis
    unfolding job_on_exit_def Let_def
  proof (rule spec_get_job [OF _ detached_job], rule spec_get_proc)
    fix j p
    let ?P = "\<lambda>s. (detached jid i s \<and> h_jobs s jid = Some j) \<and> proc_at s jid i = Some p"
    let ?again = "seqM (set_job_state jid J_STARTING) (job_proc_start jid i)"
    let ?expected = "code \<in> set (c_exit_codes (j_config j))"
    have "spec (detached jid i) (case c_restart_policy (j_config j) of NEVER \<Rightarrow> job_settle jid
        | ALWAYS \<Rightarrow> seqM (proc_add_restart jid i) ?again
        | ON_FAILURE \<Rightarrow> seqM (proc_add_restart jid i) (if ?expected then job_settle jid else ?again)) (\<lambda>_. ok_objects) ok_objects"
      using settle detached_starts spec_seq [OF add] by (cases "c_restart_policy (j_config j)") auto
    note policy = spec_seq [OF log this] and log' = spec_log [OF detached_objects settle]
    show "spec ?P (if p_restarts p = c_start_retries (j_config j)
        then seqM (logM LT_Warning (''Process stopped max retries reached '' @ p_name p)) (job_settle jid)
        else seqM (whenM (\<not> ?expected) (logM LT_Warning (''Process had an unexpected exit! code: '' @ to_string code)))
             (case c_restart_policy (j_config j) of NEVER \<Rightarrow> job_settle jid
              | ALWAYS \<Rightarrow> seqM (proc_add_restart jid i) ?again
              | ON_FAILURE \<Rightarrow> seqM (proc_add_restart jid i) (if ?expected then job_settle jid else ?again)))
        (\<lambda>_. ok_objects) ok_objects"
      by (rule spec_pre [where P' = "detached jid i"], rule spec_if, rule log', rule policy) simp
  qed (simp add: detached_def)
qed

section \<open>Processes\<close>

lemma detached_then_stop:
  "spec (detached jid i) (seqM (set_proc_state jid i st) (job_on_stop jid i)) (\<lambda>_. ok_objects) ok_objects"
  "spec (detached jid i) (seqM (set_proc_state jid i st) (job_on_exit jid i code)) (\<lambda>_. ok_objects) ok_objects"
  unfolding set_proc_state_def
  by (rule spec_seq [OF detached_mod job_on_stop_spec]; simp) (rule spec_seq [OF detached_mod job_on_exit_spec]; simp)

lemma process_exits_spec:
  "spec (detached jid i) (process_on_exit jid i st) (\<lambda>_. ok_objects) ok_objects"
  "spec (detached jid i) (process_on_forced_exit jid i st) (\<lambda>_. ok_objects) ok_objects"
proof -
  have log: "spec (detached jid i) (logM ty msg) (\<lambda>_. ok_objects) ok_objects" for ty msg
    by (rule spec_conseq [OF spec_calm [of _ "detached jid i"]]) (auto intro: calm_small simp: detached_def)
  have pre: "spec (\<lambda>s. detached jid i s \<and> proc_at s jid i = Some p) m (\<lambda>_. ok_objects) ok_objects"
    if "spec (detached jid i) m (\<lambda>_. ok_objects) ok_objects" for p and m :: "('n, unit) dprog"
    by (rule spec_pre [OF that]) simp
  show "spec (detached jid i) (process_on_exit jid i st) (\<lambda>_. ok_objects) ok_objects"
    unfolding process_on_exit_def
  proof (rule spec_get_proc [OF pre])
    fix p
    show "spec (detached jid i) (case p_state p of
       P_STOPPING \<Rightarrow>
         seqM (logM LT_Info (''Process '' @ p_name p @ '' was stopped with status ''
                 @ to_string (WEXITSTATUS st)))
         (seqM (set_proc_state jid i P_STOPPED) (job_on_stop jid i))
     | P_STARTING \<Rightarrow>
         seqM (logM LT_Warning (''Process '' @ p_name p @ '' did not reach the start time! exit code: ''
                 @ to_string (WEXITSTATUS st)))
         (seqM (set_proc_state jid i P_BACKOFF) (job_on_exit jid i (WEXITSTATUS st)))
     | P_RUNNING \<Rightarrow>
         seqM (logM LT_Info (''Process '' @ p_name p @ '' exited with status ''
                 @ to_string (WEXITSTATUS st)))
         (seqM (set_proc_state jid i P_EXITED) (job_on_exit jid i (WEXITSTATUS st)))
     | w \<Rightarrow> logM LT_Error (''Process '' @ p_name p @ '' stopped in a weird state ''
                 @ to_string (process_state_number w))) (\<lambda>_. ok_objects) ok_objects"
      by (cases "p_state p"; simp only: process_state.case;
          (rule log spec_log [OF detached_objects detached_then_stop(1)] spec_log [OF detached_objects detached_then_stop(2)])?)
  qed (simp add: detached_def)
  show "spec (detached jid i) (process_on_forced_exit jid i st) (\<lambda>_. ok_objects) ok_objects"
    unfolding process_on_forced_exit_def
  proof (rule spec_get_proc [OF pre])
    fix p
    show "spec (detached jid i) (seqM (logM LT_Debug (''Process '' @ p_name p @ '' terminated by signal ''
             @ to_string (uint (WTERMSIG st))))
       (seqM (set_proc_state jid i P_STOPPED) (job_on_stop jid i))) (\<lambda>_. ok_objects) ok_objects"
      by (rule spec_log [OF detached_objects detached_then_stop(1)])
  qed (simp add: detached_def)
qed

text \<open>A process that is there.\<close>

definition present :: "nat \<Rightarrow> nat \<Rightarrow> 'n daemon \<Rightarrow> bool" where
  "present jid i s \<longleftrightarrow> ok_objects s \<and> live jid i s"

lemma present_objects [intro]: "of_objects (present jid i)"
  unfolding present_def by (intro of_intros)

lemma present_job: "present jid i s \<Longrightarrow> h_jobs s jid \<noteq> None"
  by (auto simp: present_def live_job job_is_def)

lemma present_live: "present jid i s \<Longrightarrow> live jid i s" "present jid i s \<Longrightarrow> ok_objects s" "detached jid i s \<Longrightarrow> live jid i s"
  by (simp_all add: present_def detached_def)

lemma present_log: "spec (present jid i) (logM ty msg) (\<lambda>_. ok_objects) ok_objects"
  by (rule spec_conseq [OF spec_calm [OF calm_small(4) present_objects]]) (auto simp: present_def)

lemma present_state: "st \<in> live_states \<Longrightarrow> spec (present jid i) (set_proc_state jid i st) (\<lambda>_. present jid i) E"
  unfolding set_proc_state_def
  by (rule spec_mod_proc) (auto simp: present_def proc_is_live(2) proc_is_with_proc intro!: objects_set_proc)

lemma surpassed_spec: "spec (present jid i) (job_on_process_surpassed_start_time jid) (\<lambda>_. ok_objects) ok_objects"
  unfolding job_on_process_surpassed_start_time_def
  by (rule spec_get_job [OF _ present_job], rule spec_when,
      rule spec_conseq [OF set_state_spec(1) [of J_RUNNING "{}" jid "{}"]])
    (auto simp: idle_states_def present_def)

lemma on_start_time_spec: "spec (present jid i) (process_on_start_time jid i) (\<lambda>_. ok_objects) ok_objects"
  unfolding process_on_start_time_def
proof (rule spec_get_proc [OF _ present_live(1)])
  fix p
  show "spec (\<lambda>s. present jid i s \<and> proc_at s jid i = Some p)
     (seqM (logM LT_Info (''Process: '' @ p_name p @ '' successfully surpasses the start time''))
       (seqM (set_proc_state jid i P_RUNNING) (job_on_process_surpassed_start_time jid))) (\<lambda>_. ok_objects) ok_objects"
    by (rule spec_pre [where P' = "present jid i"], rule spec_log [OF present_objects],
        rule spec_seq [OF present_state surpassed_spec]) (simp_all add: live_states_def)
qed

lemma kill_spec: "spec (present jid i) (process_kill jid i) (\<lambda>_. ok_objects) ok_objects"
  unfolding process_kill_def pidfd_send_signal_def
proof (rule spec_get_proc [OF _ present_live(1)])
  fix p
  have set: "spec (present jid i) (seqM (logM ty msg) (mod_proc jid i (\<lambda>p. p\<lparr>p_state := P_STOPPING\<rparr>))) (\<lambda>_. ok_objects) ok_objects" for ty msg
    by (rule spec_log [OF present_objects], rule spec_conseq [OF present_state [unfolded set_proc_state_def, of P_STOPPING]])
      (auto simp: live_states_def present_def)
  show "spec (\<lambda>s. present jid i s \<and> proc_at s jid i = Some p) (bindM (sys (SysPidfdSendSignal (p_fd p) 9 0)) (\<lambda>r.
     if r = -1 then throwM (StdExn (''Failed to send SIGKILL to process: '' @ p_name p))
     else seqM (logM LT_Debug (''Sent SIGKILL to process: '' @ p_name p))
            (mod_proc jid i (\<lambda>p. p\<lparr>p_state := P_STOPPING\<rparr>)))) (\<lambda>_. ok_objects) ok_objects"
    by (rule spec_pre [where P' = "present jid i"], rule spec_sys [OF present_objects], rule spec_if, rule spec_throw,
        simp add: present_def, simp, rule set, simp)
qed

lemma on_stop_time_spec: "spec (present jid i) (process_on_stop_time jid i) (\<lambda>_. ok_objects) ok_objects"
  unfolding process_on_stop_time_def
proof (rule spec_get_proc [OF _ present_live(1)])
  fix p
  show "spec (\<lambda>s. present jid i s \<and> proc_at s jid i = Some p) (whenM (p_state p = P_STOPPING)
       (seqM (logM LT_Warning (''Process '' @ p_name p @ '' did not stop in time, sending SIGKILL''))
          (process_kill jid i))) (\<lambda>_. ok_objects) ok_objects"
    by (rule spec_pre [where P' = "present jid i"], rule spec_when, rule spec_log [OF present_objects kill_spec])
      (simp_all add: present_def)
qed

lemma waitpid_calm: "calm (waitpid pid)"
  unfolding waitpid_def by (intro calm_intros)

lemma unregister_process_spec:
  fixes E :: "'n daemon \<Rightarrow> bool"
  shows "spec (\<lambda>s. ok_objects s \<and> proc_is jid i (\<lambda>p. p_fd p = fd) s) (unregisterEvent fd) (\<lambda>_. detached jid i) E"
proof (rule specI, elim conjE)
  fix s t :: "'n daemon" and r
  assume ok: "ok_objects s" and p: "proc_is jid i (\<lambda>p. p_fd p = fd) s" and run: "unregisterEvent fd s = (r, t)"
  obtain u where u: "unregisterEvent fd s = (Inr (), u)" "dropped {fd} s u"
    using unregister_run [OF objects_ok_parts(1) [OF ok]] by blast
  have "fd' = fd" if "watched s fd' (CbProcess jid i)" for fd'
  proof -
    have "callback_ok s fd' (CbProcess jid i)" using objects_ok_parts(5) [OF ok] that unfolding callbacks_ok_def by blast
    with p show ?thesis by (auto simp: proc_is_def)
  qed
  then have "unwatched jid i u" using u(2) by (auto simp: unwatched_def dropped_parts)
  moreover have "live jid i u" using p u(2) by (auto simp: live_def proc_is_def dropped_parts)
  ultimately show "case r of Inr x \<Rightarrow> detached jid i t | Inl e \<Rightarrow> \<not> dangling e \<and> (\<forall>w. e = StdExn w \<longrightarrow> E t)"
    using run u objects_dropped [OF u(2) ok] by (auto simp: detached_def)
qed

lemma on_state_change_spec: "spec (present jid i) (process_on_state_change jid i) (\<lambda>_. ok_objects) ok_objects"
  unfolding process_on_state_change_def
proof (rule spec_get_proc [OF _ present_live(1)])
  fix p
  let ?P = "\<lambda>s. present jid i s \<and> proc_at s jid i = Some p"
  have P: "of_objects ?P" by (intro of_intros present_objects)
  have clear: "spec ?P (proc_clear_timer jid i) (\<lambda>_ s. ok_objects s \<and> proc_is jid i (\<lambda>q. p_fd q = p_fd p) s) ok_objects"
    by (rule spec_conseq [OF clear_timer_spec [OF timeless_intros(2), of "{}"]]) (auto simp: present_def proc_is_def)
  have unknown: "spec (detached jid i) (set_proc_state jid i P_UNKNOWN) (\<lambda>_. ok_objects) ok_objects"
    unfolding set_proc_state_def by (rule spec_conseq [OF detached_mod]) (auto simp: detached_def)
  have ended: "spec ?P (seqM (proc_clear_timer jid i) (seqM (unregisterEvent (p_fd p))
         (if WIFEXITED status then process_on_exit jid i status
          else if WIFSIGNALED status then process_on_forced_exit jid i status
          else set_proc_state jid i P_UNKNOWN))) (\<lambda>_. ok_objects) ok_objects" for status
    by (rule spec_seq [OF clear], rule spec_seq [OF unregister_process_spec], rule spec_if, rule process_exits_spec(1),
        rule spec_if, rule process_exits_spec(2), rule unknown)
  have failed: "spec ?P (bindM errno_text (\<lambda>err. throwM (StdExn (msg err)))) (\<lambda>_. ok_objects) ok_objects" for msg
    by (rule spec_calm_bind [OF calm_small(7) P], simp add: present_def, rule spec_throw) (simp_all add: present_def)
  show "spec ?P (bindM (waitpid (p_pid p)) (\<lambda>(result, status).
     if result = -1
     then bindM errno_text (\<lambda>err.
            throwM (StdExn (''waitpid failed for process '' @ quoted (p_name p) @ '': '' @ err)))
     else seqM (proc_clear_timer jid i)
         (seqM (unregisterEvent (p_fd p))
         (if WIFEXITED status then process_on_exit jid i status
          else if WIFSIGNALED status then process_on_forced_exit jid i status
          else set_proc_state jid i P_UNKNOWN)))) (\<lambda>_. ok_objects) ok_objects"
  proof (rule spec_calm_bind [OF waitpid_calm P])
    fix x :: "int \<times> 32 word"
    show "spec ?P (case x of (result, status) \<Rightarrow>
       if result = -1
       then bindM errno_text (\<lambda>err.
              throwM (StdExn (''waitpid failed for process '' @ quoted (p_name p) @ '': '' @ err)))
       else seqM (proc_clear_timer jid i)
           (seqM (unregisterEvent (p_fd p))
           (if WIFEXITED status then process_on_exit jid i status
            else if WIFSIGNALED status then process_on_forced_exit jid i status
            else set_proc_state jid i P_UNKNOWN))) (\<lambda>_. ok_objects) ok_objects"
      by (cases x, simp only: prod.case, rule spec_if, rule failed, rule ended)
  qed (auto simp: present_def)
qed

text \<open>A timer that expires is disarmed before its callback runs.\<close>

lemma timer_callback_spec:
  assumes "c \<in> {TcStartTime jid i, TcStopTime jid i}"
  shows "spec (present jid i) (timer_callback_run c) (\<lambda>_. ok_objects) ok_objects"
  using assms on_start_time_spec on_stop_time_spec by auto

lemma timer_expired_spec:
  "spec (\<lambda>s. ok_objects s \<and> callback_ok s fd (CbTimer jid i tid)) (timer_expired jid i tid) (\<lambda>_. ok_objects) ok_objects"
proof (rule specI, elim conjE)
  fix s t :: "'n daemon" and r
  assume ok: "ok_objects s" and "callback_ok s fd (CbTimer jid i tid)" and run: "timer_expired jid i tid s = (r, t)"
  then obtain p v where p: "proc_at s jid i = Some p" "p_timer p = Some v" "t_id v = tid" "t_state v = T_RUNNING" by auto
  let ?f = "\<lambda>p. p\<lparr>p_timer := Some (v\<lparr>t_state := T_STOPPED\<rparr>)\<rparr>" and ?c = "SysReadTimer (t_fd v)"
  let ?s = "with_proc jid i ?f s"
  let ?u = "?s\<lparr>w_clock := Suc (w_clock s), w_trace := (?c, 8) # w_trace s\<rparr>"
  have ans: "resources_ok (w_ans s)" by (rule objects_ok_parts(1) [OF ok])
  then have "resources_ok (w_ans ?u)" by simp
  from unregister_run [OF this, of "t_fd v"] obtain w where w: "unregisterEvent (t_fd v) ?u = (Inr (), w)" "dropped {t_fd v} ?u w"
    by blast
  have "dropped {} ?s ?u" by (rule dropped_same) (simp add: same_objects_def)
  from dropped_trans [OF this w(2)] have d: "dropped (timer_fds (p_timer p)) ?s w" using p(2,4) by (simp add: timer_fds_def)
  have "timers_own jid j" if "h_jobs s jid = Some j" for j
    using objects_ok_parts(2) [OF ok] that by (simp add: heap_ok_job)
  with p(1,2) have own: "t_callback v \<in> {TcStartTime jid i, TcStopTime jid i}"
    by (auto simp: proc_at_def timers_own_def split: option.splits if_splits)
  have "ok_objects w" by (rule objects_new_timer [OF ok p(1) _ d]) (use own in auto)
  moreover have "live jid i w" using p(1) d by (simp add: live_def dropped_parts proc_at_with_proc)
  ultimately have "present jid i w" by (simp add: present_def)
  moreover have "timer_callback_run (t_callback v) w = (r, t)"
  proof -
    have "get_proc jid i s = (Inr p, s)"
      using p(1) by (auto simp: get_proc_run proc_at_def split: option.splits if_splits)
    moreover have "w_ans s (w_clock s) ?c = 8" using ans by (simp add: resources_ok_def)
    ultimately show ?thesis
      using run w(1) p(2,3) by (simp add: timer_expired_def timer_on_expire_def bindM_run seqM_run sys_run mod_proc_run)
  qed
  ultimately show "case r of Inr x \<Rightarrow> ok_objects t | Inl e \<Rightarrow> \<not> dangling e \<and> (\<forall>w. e = StdExn w \<longrightarrow> ok_objects t)"
    by (rule specD [OF timer_callback_spec [OF own]])
qed

lemma present_detached:
  assumes "present jid i s" and "proc_at s jid i = Some p" and "p_state p \<notin> live_states"
  shows "detached jid i s"
proof -
  have "\<not> watched s fd (CbProcess jid i)" for fd
  proof
    assume "watched s fd (CbProcess jid i)"
    then have "callback_ok s fd (CbProcess jid i)"
      using assms(1) unfolding present_def objects_ok_def callbacks_ok_def by blast
    with assms(2,3) show False by simp
  qed
  with assms(1) show ?thesis by (simp add: detached_def present_def unwatched_def)
qed

lemma process_stop_spec: "spec (present jid i) (process_stop jid i timeout sg) (\<lambda>_. ok_objects) ok_objects"
  unfolding process_stop_def pidfd_send_signal_def
proof (rule spec_get_proc [OF _ present_live(1)], rule spec_if)
  fix p :: process
  assume rest: "p_state p = P_BACKOFF \<or> p_state p = P_EXITED"
  show "spec (\<lambda>s. present jid i s \<and> proc_at s jid i = Some p) (seqM (set_proc_state jid i P_STOPPED) (job_on_stop jid i))
      (\<lambda>_. ok_objects) ok_objects"
    by (rule spec_pre [OF detached_then_stop(1)]) (use rest in \<open>auto simp: live_states_def intro: present_detached\<close>)
next
  fix p :: process
  have reset: "spec (present jid i) (proc_reset_timer jid i timeout (TcStopTime jid i))
      (\<lambda>_ s. ok_objects s \<and> proc_is jid i (\<lambda>p. True \<and> p_timer p \<noteq> None) s \<and> (False \<longrightarrow> unwatched jid i s)) ok_objects"
    by (rule spec_conseq [OF reset_timer_spec [of "TcStopTime jid i" jid i "\<lambda>p. True" "{}" False timeout]])
      (auto simp: present_def proc_is_live(2))
  have start: "spec (\<lambda>s. ok_objects s \<and> proc_is jid i (\<lambda>p. True \<and> p_timer p \<noteq> None) s \<and> (False \<longrightarrow> unwatched jid i s))
      (proc_start_timer jid i) (\<lambda>_. ok_objects) ok_objects"
    by (rule spec_conseq [OF start_timer_spec [of "\<lambda>p. True" "{}" jid i False]]) auto
  have arm: "spec (present jid i) (seqM (logM ty msg) (seqM (set_proc_state jid i P_STOPPING)
      (seqM (proc_reset_timer jid i timeout (TcStopTime jid i)) (proc_start_timer jid i)))) (\<lambda>_. ok_objects) ok_objects" for ty msg
    by (rule spec_log [OF present_objects], rule spec_seq [OF present_state spec_seq [OF reset start]]) (simp add: live_states_def)
  show "spec (\<lambda>s. present jid i s \<and> proc_at s jid i = Some p) (bindM (sys (SysPidfdSendSignal (p_fd p) (signal_number sg) 0)) (\<lambda>r.
       case signal_key sg of
         None \<Rightarrow> throwM (Undefined ''end iterator'')
       | Some key \<Rightarrow>
           if r = -1 then throwM (StdExn (''Failed to send '' @ key @ '' to process: '' @ p_name p))
           else seqM (logM LT_Info (''Sent '' @ key @ '' to process: '' @ p_name p))
               (seqM (set_proc_state jid i P_STOPPING)
               (seqM (proc_reset_timer jid i timeout (TcStopTime jid i))
                  (proc_start_timer jid i))))) (\<lambda>_. ok_objects) ok_objects"
    by (rule spec_pre [where P' = "present jid i"], rule spec_sys [OF present_objects], rule spec_option, rule spec_throw, simp,
        simp, rule spec_if, rule spec_throw, simp add: present_def, simp, rule arm, simp)
qed

text \<open>A loop over a job's processes.\<close>

lemma job_loop_spec:
  assumes "\<And>i. spec (present jid i) (f i) (\<lambda>_. ok_objects) ok_objects" and "\<And>i. keeps grows (f i)"
  shows "spec (\<lambda>s. ok_objects s \<and> (\<forall>i < n. live jid i s)) (forM f [0..<n]) (\<lambda>_. ok_objects) ok_objects"
proof -
  let ?I = "\<lambda>s. ok_objects s \<and> (\<forall>i < n. live jid i s)"
  have "spec ?I (f i) (\<lambda>_. ?I) ok_objects" if "i < n" for i
  proof -
    have "spec (\<lambda>s. present jid i s \<and> (\<forall>i < n. live jid i s)) (f i) (\<lambda>_. ?I) (\<lambda>s. ok_objects s \<and> (\<forall>i < n. live jid i s))"
      by (rule spec_frame [OF assms]) (blast intro: grows_live)
    then show ?thesis by (rule spec_conseq) (use that in \<open>auto simp: present_def\<close>)
  qed
  then have "spec ?I (forM f [0..<n]) (\<lambda>_. ?I) ok_objects" by (intro spec_for) simp
  then show ?thesis by (rule spec_conseq) auto
qed

lemma job_stop_spec: "spec (\<lambda>s. ok_objects s \<and> h_jobs s jid \<noteq> None) (job_stop jid) (\<lambda>_. ok_objects) ok_objects"
  unfolding job_stop_def
proof (rule spec_get_job)
  fix j
  let ?P = "\<lambda>s. (ok_objects s \<and> h_jobs s jid \<noteq> None) \<and> h_jobs s jid = Some j"
  have idle: "spec ?P (manager_on_stop (c_name (j_config j))) (\<lambda>_. ok_objects) ok_objects" if "j_state j \<in> idle_states"
    by (rule spec_pre [OF manager_on_stop_spec [of jid]])
      (use that in \<open>auto simp: job_is_def idle_ok_def dest: objects_ok_parts(4)\<close>)
  let ?stop = "\<lambda>i. process_stop jid i (c_stop_time (j_config j)) (c_stop_signal (j_config j))"
  have "spec ?P (set_job_state jid J_STOPPING) (\<lambda>_ s. ok_objects s \<and> (\<forall>i < length (j_processes j). live jid i s)) ok_objects"
    by (rule spec_conseq [OF spec_frame [OF set_state_spec(1) [of J_STOPPING "{}" jid "{}"] set_job_state_grows,
          where F = "\<lambda>s. \<forall>i < length (j_processes j). live jid i s" and E = ok_objects]])
      (auto simp: idle_states_def live_job job_is_def intro: grows_live [unfolded live_job job_is_def])
  from spec_seq [OF this job_loop_spec [OF process_stop_spec process_stop_grows]]
  have run: "spec ?P (seqM (set_job_state jid J_STOPPING) (forM ?stop [0..<length (j_processes j)])) (\<lambda>_. ok_objects) ok_objects" .
  show "spec ?P (case j_state j of
       J_STOPPING \<Rightarrow> returnM ()
     | J_EMPTY \<Rightarrow> manager_on_stop (c_name (j_config j))
     | J_STOPPED \<Rightarrow> manager_on_stop (c_name (j_config j))
     | _ \<Rightarrow> seqM (set_job_state jid J_STOPPING) (forM ?stop [0..<length (j_processes j)])) (\<lambda>_. ok_objects) ok_objects"
    using idle run by (cases "j_state j") (auto intro: spec_return simp: idle_states_def)
qed simp

section \<open>Starting a job\<close>

text \<open>
  While a job is being started from an idle state its children are already watched: it is in \<open>X\<close>. A job
  without a program starts none and fails; any other start does not fail.
\<close>

definition starting :: "nat set \<Rightarrow> nat \<Rightarrow> job \<Rightarrow> bool" where
  "starting X jid j \<longleftrightarrow> j_argv j = [] \<or> jid \<in> X \<or> j_state j \<notin> idle_states"

lemma cored_starting: "cored (starting X jid)"
  by (auto simp: cored_def job_core_def starting_def)

lemma objects_mono: "objects_ok X s \<Longrightarrow> X \<subseteq> Y \<Longrightarrow> objects_ok Y s"
  by (auto simp: objects_ok_def frame_ok_def idle_ok_def)

text \<open>An update of a job that keeps its name, state and processes.\<close>

lemma objects_mod_job:
  assumes ok: "objects_ok X s"
    and f: "\<And>j. j_config (f j) = j_config j \<and> j_state (f j) = j_state j \<and> j_processes (f j) = j_processes j"
  shows "objects_ok X (s\<lparr>h_jobs := (h_jobs s)(jid := map_option f (h_jobs s jid))\<rparr>)" (is "objects_ok X ?t")
proof -
  have "timers_own jid j" if "h_jobs s jid = Some j" for j
    using heap_ok_job [OF objects_ok_parts(2) [OF ok] that] by blast
  with f have "heap_ok ?t"
    by (intro heap_ok_mod_job [OF objects_ok_parts(2) [OF ok]]) (simp add: timers_own_def)
  moreover have "idle_ok X ?t" using objects_ok_parts(4) [OF ok] f by (auto simp: idle_ok_def)
  moreover have at: "proc_at ?t = proc_at s" using f by (auto simp: proc_at_def fun_eq_iff split: option.split)
  have "callback_ok ?t fd cb = callback_ok s fd cb" for fd cb by (cases cb) (simp_all add: at)
  ultimately show ?thesis
    using objects_ok_parts [OF ok] by (simp add: objects_ok_def frame_ok_def callbacks_ok_def clients_ok_def)
qed

lemma append_process:
  assumes ok: "objects_ok X s" and j: "h_jobs s jid = Some j" and p: "p_timer p = None"
  defines "t \<equiv> s\<lparr>h_jobs := (h_jobs s)(jid := map_option (\<lambda>j. j\<lparr>j_processes := j_processes j @ [p]\<rparr>) (h_jobs s jid))\<rparr>"
  shows "objects_ok X t" and "live jid (length (j_processes j)) t" and "unwatched jid (length (j_processes j)) t"
proof -
  let ?i = "length (j_processes j)"
  have "timers_own jid j" using heap_ok_job [OF objects_ok_parts(2) [OF ok] j] by blast
  with p j have "heap_ok t"
    unfolding t_def
    by (intro heap_ok_mod_job [OF objects_ok_parts(2) [OF ok]]) (auto simp: timers_own_def nth_append)
  moreover have "idle_ok X t" using objects_ok_parts(4) [OF ok] j by (auto simp: idle_ok_def t_def)
  moreover have at: "proc_at s k i = Some q \<Longrightarrow> proc_at t k i = Some q" for k i q
    using j by (auto simp: t_def proc_at_def nth_append split: option.splits if_splits)
  have "callback_ok s fd cb \<Longrightarrow> callback_ok t fd cb" for fd cb
    using at by (cases cb) (force simp: t_def)+
  then have "callbacks_ok t" using objects_ok_parts(5) [OF ok] by (auto simp: callbacks_ok_def t_def)
  ultimately show "objects_ok X t"
    using objects_ok_parts [OF ok] by (simp add: objects_ok_def frame_ok_def clients_ok_def t_def)
  show "live jid ?i t" using j by (simp add: live_job job_is_def t_def)
  have "\<not> watched s fd (CbProcess jid ?i)" for fd
  proof
    assume "watched s fd (CbProcess jid ?i)"
    then have "callback_ok s fd (CbProcess jid ?i)"
      using objects_ok_parts(5) [OF ok] unfolding callbacks_ok_def by blast
    with j show False by (simp add: proc_at_def)
  qed
  then show "unwatched jid ?i t" by (simp add: unwatched_def t_def)
qed

text \<open>Both loops end like this.\<close>

abbreviation start_failed :: "nat set \<Rightarrow> nat \<Rightarrow> (job \<Rightarrow> bool) \<Rightarrow> 'n daemon \<Rightarrow> bool" where
  "start_failed X jid C s \<equiv> objects_ok X s \<and> job_is jid (\<lambda>j. j_argv j = []) s \<and> job_is jid C s"

lemma job_proc_start_framed:
  assumes "cored C"
  shows "spec (\<lambda>s :: 'n daemon. objects_ok X s \<and> live jid i s \<and> unwatched jid i s \<and> job_is jid (starting X jid) s \<and> job_is jid C s)
     (job_proc_start jid i) (\<lambda>_ s. objects_ok X s \<and> live jid i s \<and> job_is jid (starting X jid) s \<and> job_is jid C s)
     (start_failed X jid C)"
proof -
  let ?F = "\<lambda>s. live jid i s \<and> job_is jid (starting X jid) s \<and> job_is jid C s"
  have "job_same s t \<Longrightarrow> ?F s \<Longrightarrow> ?F t" for s t :: "'n daemon"
    unfolding live_job by (blast intro: job_is_same cored_starting assms cored_intros(4))
  from spec_frame [OF job_proc_start_spec [where X = X] job_proc_start_same this]
  show ?thesis by (rule spec_conseq) (auto simp: job_is_def starting_def)
qed

lemma create_process_spec:
  assumes C: "cored C" and grow: "\<And>j ps. C j \<Longrightarrow> C (j\<lparr>j_processes := ps\<rparr>)"
  shows "spec (\<lambda>s. objects_ok X s \<and> job_is jid (starting X jid) s \<and> job_is jid C s) (job_create_process jid n)
     (\<lambda>_ s. objects_ok X s \<and> job_is jid (starting X jid) s \<and> job_is jid C s) (start_failed X jid C)"
  unfolding job_create_process_def Let_def
proof (rule spec_get_job, rule spec_seq, rule spec_mod_job)
  fix j :: job and s :: "'n daemon"
  let ?p = "process_new (c_name (j_config j) @ ''_'' @ to_string (int n)) (j_pgid j)" and ?i = "length (j_processes j)"
  let ?t = "s\<lparr>h_jobs := (h_jobs s)(jid := map_option (\<lambda>j. j\<lparr>j_processes := j_processes j @ [?p]\<rparr>) (h_jobs s jid))\<rparr>"
  assume s: "(objects_ok X s \<and> job_is jid (starting X jid) s \<and> job_is jid C s) \<and> h_jobs s jid = Some j"
  then have "job_is jid (starting X jid) ?t" "job_is jid C ?t" using grow by (auto simp: job_is_def starting_def)
  with append_process [of X s jid j ?p] s
  show "objects_ok X ?t \<and> live jid ?i ?t \<and> unwatched jid ?i ?t \<and> job_is jid (starting X jid) ?t \<and> job_is jid C ?t"
    by (simp add: process_new_def)
next
  fix j :: job
  let ?i = "length (j_processes j)"
  let ?Q = "\<lambda>s. objects_ok X s \<and> live jid ?i s \<and> job_is jid (starting X jid) s \<and> job_is jid C s"
  have group: "spec ?Q (mod_job jid (\<lambda>j. j\<lparr>j_pgid := g\<rparr>)) (\<lambda>_ s. objects_ok X s \<and> job_is jid (starting X jid) s \<and> job_is jid C s)
      (start_failed X jid C)" for g
  proof (rule spec_mod_job)
    fix s :: "'n daemon"
    let ?t = "s\<lparr>h_jobs := (h_jobs s)(jid := map_option (\<lambda>j. j\<lparr>j_pgid := g\<rparr>) (h_jobs s jid))\<rparr>"
    assume s: "?Q s"
    have "job_same s ?t" by (auto simp: job_same_def job_core_def option.map_comp comp_def intro!: option.map_cong)
    with s C show "objects_ok X ?t \<and> job_is jid (starting X jid) ?t \<and> job_is jid C ?t"
      by (auto intro: objects_mod_job job_is_same cored_starting)
  qed
  show "spec (\<lambda>s. objects_ok X s \<and> live jid ?i s \<and> unwatched jid ?i s \<and> job_is jid (starting X jid) s \<and> job_is jid C s)
     (seqM (job_proc_start jid ?i) (bindM (get_job jid) (\<lambda>j. whenM (j_pgid j = 0)
          (bindM (get_proc jid ?i) (\<lambda>p. mod_job jid (\<lambda>j. j\<lparr>j_pgid := p_pid p\<rparr>))))))
     (\<lambda>_ s. objects_ok X s \<and> job_is jid (starting X jid) s \<and> job_is jid C s) (start_failed X jid C)"
  proof (rule spec_seq [OF job_proc_start_framed [OF C]], rule spec_get_job, rule spec_when, rule spec_get_proc)
    fix k :: job and p :: process
    show "spec (\<lambda>s. (?Q s \<and> h_jobs s jid = Some k) \<and> proc_at s jid ?i = Some p) (mod_job jid (\<lambda>j. j\<lparr>j_pgid := p_pid p\<rparr>))
        (\<lambda>_ s. objects_ok X s \<and> job_is jid (starting X jid) s \<and> job_is jid C s) (start_failed X jid C)"
      by (rule spec_pre [OF group]) blast
  qed (auto simp: job_is_def)
qed (auto simp: job_is_def)

lemma restart_process_spec:
  assumes C: "cored C"
  shows "spec (\<lambda>s. objects_ok X s \<and> live jid i s \<and> job_is jid (starting X jid) s \<and> job_is jid C s)
     (seqM (proc_reset_restarts jid i) (bindM (get_proc jid i) (\<lambda>p.
          whenM (p_state p = P_STOPPED \<or> p_state p = P_EXITED \<or> p_state p = P_BACKOFF) (job_proc_start jid i))))
     (\<lambda>_ s. objects_ok X s \<and> live jid i s \<and> job_is jid (starting X jid) s \<and> job_is jid C s) (start_failed X jid C)"
  unfolding proc_reset_restarts_def
proof (rule spec_seq, rule spec_mod_proc)
  fix s :: "'n daemon"
  let ?f = "\<lambda>p. p\<lparr>p_restarts := 0\<rparr>"
  assume s: "objects_ok X s \<and> live jid i s \<and> job_is jid (starting X jid) s \<and> job_is jid C s"
  have same: "job_same s (with_proc jid i ?f s)" by (rule keepsD [OF mod_proc_same mod_proc_run])
  have "live jid i (with_proc jid i ?f s)" using s by (simp add: proc_is_live(2) proc_is_with_proc)
  with s C show "objects_ok X (with_proc jid i ?f s) \<and> live jid i (with_proc jid i ?f s) \<and>
      job_is jid (starting X jid) (with_proc jid i ?f s) \<and> job_is jid C (with_proc jid i ?f s)"
    using job_is_same [OF cored_starting same] job_is_same [OF C same] by (simp add: objects_set_proc)
next
  let ?P = "\<lambda>s. objects_ok X s \<and> live jid i s \<and> job_is jid (starting X jid) s \<and> job_is jid C s"
  show "spec ?P (bindM (get_proc jid i) (\<lambda>p.
          whenM (p_state p = P_STOPPED \<or> p_state p = P_EXITED \<or> p_state p = P_BACKOFF) (job_proc_start jid i)))
     (\<lambda>_. ?P) (start_failed X jid C)"
  proof (rule spec_get_proc, rule spec_when)
    fix p :: process
    assume rest: "p_state p = P_STOPPED \<or> p_state p = P_EXITED \<or> p_state p = P_BACKOFF"
    show "spec (\<lambda>s. ?P s \<and> proc_at s jid i = Some p) (job_proc_start jid i) (\<lambda>_. ?P) (start_failed X jid C)"
    proof (rule spec_pre [OF job_proc_start_framed [OF C]])
      fix s :: "'n daemon"
      assume s: "?P s \<and> proc_at s jid i = Some p"
      have "\<not> callback_ok s fd (CbProcess jid i)" for fd using s rest by (auto simp: live_states_def)
      moreover have "callback_ok s fd (CbProcess jid i)" if "watched s fd (CbProcess jid i)" for fd
        using s that unfolding objects_ok_def callbacks_ok_def by blast
      ultimately have "unwatched jid i s" unfolding unwatched_def by blast
      with s show "objects_ok X s \<and> live jid i s \<and> unwatched jid i s \<and> job_is jid (starting X jid) s \<and> job_is jid C s"
        by blast
    qed
  qed auto
qed

lemma job_start_spec: "spec (\<lambda>s :: 'n daemon. ok_objects s \<and> h_jobs s jid \<noteq> None) (job_start jid) (\<lambda>_. ok_objects) ok_objects"
  unfolding job_start_def
proof (rule spec_get_job)
  fix j :: job
  let ?P = "\<lambda>s :: 'n daemon. (ok_objects s \<and> h_jobs s jid \<noteq> None) \<and> h_jobs s jid = Some j"
  define X where "X = (if j_argv j = [] \<or> j_state j \<notin> idle_states then {} else {jid})"
  have X: "X \<subseteq> {jid}" "j_argv j = [] \<Longrightarrow> X = {}" by (auto simp: X_def)
  have P: "objects_ok X s \<and> job_is jid (starting X jid) s \<and> job_is jid C s" if "?P s" "C j" for s :: "'n daemon" and C
    using that by (auto simp: job_is_def starting_def X_def intro: objects_mono [of "{}"])
  let ?C = "\<lambda>k. length (j_processes j) \<le> length (j_processes k) \<and> j_argv k = j_argv j"
  have C: "cored ?C" "cored (\<lambda>k. j_argv k = j_argv j)" by (auto simp: cored_def job_core_def)
  let ?body = "\<lambda>i. seqM (proc_reset_restarts jid i) (bindM (get_proc jid i) (\<lambda>p.
          whenM (p_state p = P_STOPPED \<or> p_state p = P_EXITED \<or> p_state p = P_BACKOFF) (job_proc_start jid i)))"
  let ?I = "\<lambda>s :: 'n daemon. objects_ok X s \<and> job_is jid (starting X jid) s \<and> job_is jid ?C s"
  have "spec ?I (?body i) (\<lambda>_. ?I) (start_failed X jid ?C)" if "i < length (j_processes j)" for i
    by (rule spec_conseq [OF restart_process_spec [OF C(1)]]) (use that in \<open>auto simp: live_job job_is_def\<close>)
  then have loop1: "spec ?I (forM ?body [0..<length (j_processes j)]) (\<lambda>_. ?I) (start_failed X jid ?C)"
    by (intro spec_for) simp
  have "spec ?P (forM ?body [0..<length (j_processes j)]) (\<lambda>_. objects_ok X) ok_objects"
  proof (rule spec_conseq [OF loop1])
    show "objects_ok X s \<and> job_is jid (starting X jid) s \<and> job_is jid ?C s" if "?P s" for s :: "'n daemon"
      by (rule P [OF that]) simp
  qed (use X(2) in \<open>auto simp: job_is_def\<close>)
  then have restart: "spec ?P (job_restart_processes jid) (\<lambda>_. objects_ok X) ok_objects"
    unfolding job_restart_processes_def
    by (intro spec_get_job) (rule specI, auto dest: specD)
  let ?D = "\<lambda>k. j_argv k = j_argv j"
  let ?J = "\<lambda>s :: 'n daemon. objects_ok X s \<and> job_is jid (starting X jid) s \<and> job_is jid ?D s"
  have loop2: "spec ?J (forM (job_create_process jid) ns) (\<lambda>_. ?J) (start_failed X jid ?D)" for ns
    by (intro spec_for create_process_spec [OF C(2)]) simp
  have loop: "spec ?P (forM (job_create_process jid) ns) (\<lambda>_. objects_ok X) ok_objects" for ns
  proof (rule spec_conseq [OF loop2])
    show "objects_ok X s \<and> job_is jid (starting X jid) s \<and> job_is jid ?D s" if "?P s" for s :: "'n daemon"
      by (rule P [OF that]) simp
  qed (use X(2) in \<open>auto simp: job_is_def\<close>)
  have create: "spec ?P (job_start_processes jid) (\<lambda>_. objects_ok X) ok_objects"
    unfolding job_start_processes_def
    by (intro spec_get_job spec_if spec_throw spec_pre [OF loop]) auto
  have other: "spec ?P (returnM ()) (\<lambda>_. objects_ok X) ok_objects"
    by (rule spec_return) (auto intro: objects_mono [of "{}"])
  have "spec ?P (case j_state j of J_STOPPING \<Rightarrow> job_restart_processes jid
       | J_STOPPED \<Rightarrow> job_restart_processes jid
       | J_EMPTY \<Rightarrow> job_start_processes jid
       | _ \<Rightarrow> returnM ()) (\<lambda>_. objects_ok X) ok_objects"
    using restart create other by (cases "j_state j") auto
  then have "spec ?P (seqM (case j_state j of J_STOPPING \<Rightarrow> job_restart_processes jid
       | J_STOPPED \<Rightarrow> job_restart_processes jid
       | J_EMPTY \<Rightarrow> job_start_processes jid
       | _ \<Rightarrow> returnM ()) (set_job_state jid J_STARTING)) (\<lambda>_. ok_objects) ok_objects"
    by (rule spec_seq [OF _ set_state_spec(1)]) (use X(1) in \<open>auto simp: idle_states_def\<close>)
  then show "spec ?P (seqM (logM LT_Debug (''Start called called for process'' @ to_string (job_state_number (j_state j))))
       (seqM (case j_state j of J_STOPPING \<Rightarrow> job_restart_processes jid
       | J_STOPPED \<Rightarrow> job_restart_processes jid
       | J_EMPTY \<Rightarrow> job_start_processes jid
       | _ \<Rightarrow> returnM ()) (set_job_state jid J_STARTING))) (\<lambda>_. ok_objects) ok_objects"
    by (rule spec_log [rotated]) (intro of_intros, auto simp: of_objects_def same_objects_def)
qed simp

end
