(* ===== verification/Manager_Safety.thy ===== *)
theory Manager_Safety
  imports Job_Safety Job_Update
begin

text \<open>
  The job manager's operations keep every closure in the registry referring to a live object and reach no
  destroyed one: creating and destroying jobs, the passes over the map, \<open>reload\<close> and the commands.
\<close>

section \<open>Passes over the map\<close>

definition entries_live :: "(string \<times> nat) list \<Rightarrow> 'n daemon \<Rightarrow> bool" where
  "entries_live es s \<longleftrightarrow> (\<forall>e \<in> set es. h_jobs s (snd e) \<noteq> None)"

lemma map_entries_live: "heap_ok s \<Longrightarrow> entries_live (m_jobs s) s"
  unfolding entries_live_def using heap_ok_name [of s] by (fastforce simp: heap_entries)

lemma grows_entries: "grows s t \<Longrightarrow> entries_live es s \<Longrightarrow> entries_live es t"
  unfolding entries_live_def by (blast dest: grows_job)

lemma entries_loop:
  assumes "\<And>name jid. spec (\<lambda>s. ok_objects s \<and> h_jobs s jid \<noteq> None) (f (name, jid)) (\<lambda>_. ok_objects) ok_objects"
    and "\<And>e. keeps grows (f e)"
  shows "spec (\<lambda>s. ok_objects s \<and> entries_live es s) (forM f es) (\<lambda>_. ok_objects) ok_objects"
proof -
  let ?I = "\<lambda>s. ok_objects s \<and> entries_live es s"
  have "spec ?I (f e) (\<lambda>_. ?I) ok_objects" if e: "e \<in> set es" for e
  proof -
    obtain name jid where p: "e = (name, jid)" by fastforce
    have "spec (\<lambda>s. (ok_objects s \<and> h_jobs s jid \<noteq> None) \<and> entries_live es s) (f e) (\<lambda>_ s. ok_objects s \<and> entries_live es s)
        (\<lambda>s. ok_objects s \<and> entries_live es s)"
      unfolding p by (rule spec_frame [OF assms(1) assms(2)]) (rule grows_entries)
    then show ?thesis by (rule spec_conseq) (use e in \<open>auto simp: p entries_live_def\<close>)
  qed
  then have "spec ?I (forM f es) (\<lambda>_. ?I) ok_objects" by (rule spec_for)
  then show ?thesis by (rule spec_conseq) auto
qed

lemma map_loop:
  assumes "\<And>name jid. spec (\<lambda>s. ok_objects s \<and> h_jobs s jid \<noteq> None) (f (name, jid)) (\<lambda>_. ok_objects) ok_objects"
    and "\<And>e. keeps grows (f e)"
  shows "spec ok_objects (bindM (getsM m_jobs) (\<lambda>jobs. forM f jobs)) (\<lambda>_. ok_objects) ok_objects"
  by (rule spec_gets, rule spec_pre [OF entries_loop [OF assms]])
    (auto intro: map_entries_live dest: objects_ok_parts(2))

lemma job_log_spec:
  assumes "spec (\<lambda>s. ok_objects s \<and> h_jobs s jid \<noteq> None) m (\<lambda>_. ok_objects) ok_objects"
  shows "spec (\<lambda>s. ok_objects s \<and> h_jobs s jid \<noteq> None) (seqM m (logM ty msg)) (\<lambda>_. ok_objects) ok_objects"
  by (rule spec_seq [OF assms spec_calm_end [OF calm_small(4) of_objects_intros(1)]])

lemma start_all_spec: "spec ok_objects manager_start_all (\<lambda>_. ok_objects) ok_objects"
  unfolding manager_start_all_def
proof (rule map_loop)
  fix name jid
  show "spec (\<lambda>s. ok_objects s \<and> h_jobs s jid \<noteq> None) (case (name, jid) of (name, jid) \<Rightarrow> bindM (get_job jid) (\<lambda>j.
         whenM (c_autostart (j_config j))
           (seqM (job_start jid) (logM LT_Info (''Starting job: '' @ name))))) (\<lambda>_. ok_objects) ok_objects"
    unfolding prod.case
    by (rule spec_get_job, rule spec_when, rule spec_pre [OF job_log_spec [OF job_start_spec]]) auto
next
  fix e
  show "keeps grows (case e of (name, jid) \<Rightarrow> bindM (get_job jid) (\<lambda>j.
         whenM (c_autostart (j_config j)) (seqM (job_start jid) (logM LT_Info (''Starting job: '' @ name)))))"
    by (auto intro!: grow_intros job_start_grows split: prod.split)
qed

lemma kill_all_spec: "spec ok_objects manager_kill (\<lambda>_. ok_objects) ok_objects"
  unfolding manager_kill_def
proof (rule map_loop)
  fix name :: string and jid
  show "spec (\<lambda>s. ok_objects s \<and> h_jobs s jid \<noteq> None) (case (name, jid) of (name, jid) \<Rightarrow> job_stop jid) (\<lambda>_. ok_objects) ok_objects"
    unfolding prod.case by (rule job_stop_spec)
qed (auto intro: job_stop_grows split: prod.split)

lemma stop_changed_spec: "spec ok_objects stop_changed (\<lambda>_. ok_objects) ok_objects"
  unfolding stop_changed_def
proof (rule spec_gets, rule spec_gets)
  fix jobs :: "(string \<times> nat) list" and configs
  let ?f = "\<lambda>(name :: string, jid). bindM (get_job jid) (\<lambda>j.
         whenM (case um_find name configs of None \<Rightarrow> True | Some c \<Rightarrow> \<not> config_eq c (j_config j)) (job_stop jid))"
  have "spec (\<lambda>s. ok_objects s \<and> entries_live jobs s) (forM ?f jobs) (\<lambda>_. ok_objects) ok_objects"
  proof (rule entries_loop)
    fix name jid
    show "spec (\<lambda>s. ok_objects s \<and> h_jobs s jid \<noteq> None) (?f (name, jid)) (\<lambda>_. ok_objects) ok_objects"
      unfolding prod.case by (rule spec_get_job, rule spec_when, rule spec_pre [OF job_stop_spec]) auto
  qed (auto intro!: grow_intros job_stop_grows split: prod.split)
  then show "spec (\<lambda>s. (ok_objects s \<and> jobs = m_jobs s) \<and> configs = m_config s) (forM ?f jobs) (\<lambda>_. ok_objects) ok_objects"
    by (rule spec_pre) (auto intro: map_entries_live dest: objects_ok_parts(2))
qed

section \<open>Creating and destroying jobs\<close>

lemma fresh_job: "heap_ok s \<Longrightarrow> h_jobs s (w_next s) = None"
  unfolding heap_ok_def by (meson less_irrefl not_None_eq)

lemma emplace_job_spec:
  assumes name: "c_name config = name"
  shows "spec (\<lambda>s :: 'n daemon. ok_objects s) (emplace_job name config) (\<lambda>(created, jid) s. ok_objects s \<and> h_jobs s jid \<noteq> None) E"
proof (rule specI)
  fix s t :: "'n daemon" and r
  assume ok: "ok_objects s" and run: "emplace_job name config s = (r, t)"
  let ?jid = "w_next s"
  have free: "h_jobs s ?jid = None" by (rule fresh_job [OF objects_ok_parts(2) [OF ok]])
  show "case r of Inr x \<Rightarrow> (case x of (created, jid) \<Rightarrow> \<lambda>s. ok_objects s \<and> h_jobs s jid \<noteq> None) t
      | Inl e \<Rightarrow> \<not> dangling e \<and> (\<forall>w. e = StdExn w \<longrightarrow> E t)"
  proof (cases "um_find name (m_jobs s)")
    case (Some old)
    have same: "(h_jobs s)(?jid := None) = h_jobs s" using free by (simp add: fun_upd_idem)
    then have rt: "r = Inr (False, old)" "t = s\<lparr>w_next := Suc ?jid\<rparr>"
      using run by (simp_all add: emplace_job_def job_alloc_def Some run_simps job_destroy_def job_new_def)
    have "same_objects s t" unfolding rt by (simp add: same_objects_def)
    then have "ok_objects t" using of_objectsD [OF of_objects_intros(1)] ok by blast
    moreover have "h_jobs t old \<noteq> None" using heap_ok_name [OF objects_ok_parts(2) [OF ok] Some] by (auto simp: rt)
    ultimately show ?thesis by (simp add: rt(1))
  next
    case None
    have rt: "r = Inr (True, ?jid)" "t = s\<lparr>w_next := Suc ?jid, h_jobs := (h_jobs s)(?jid \<mapsto> job_new (w_wordexp s) config),
        m_jobs := um_emplace name ?jid (m_jobs s)\<rparr>"
      using run by (simp_all add: emplace_job_def job_alloc_def None run_simps set_jobs_def)
    have "heap_ok t"
      using evolves_create [OF objects_ok_parts(2) [OF ok] name None] objects_ok_parts(2) [OF ok]
      unfolding rt by (simp add: evolves_def)
    moreover have at: "proc_at t = proc_at s" using free by (auto simp: rt proc_at_def job_new_def fun_eq_iff)
    moreover have w: "watched t = watched s" by (simp add: rt watched_def fun_eq_iff)
    have "callback_ok t fd cb = callback_ok s fd cb" for fd cb by (cases cb) (auto simp: at, auto simp: rt)
    then have "callbacks_ok t" using objects_ok_parts(5) [OF ok] by (simp add: callbacks_ok_def w)
    moreover have un: "unwatched ?jid i s" for i
      unfolding unwatched_def
    proof
      fix fd
      show "\<not> watched s fd (CbProcess ?jid i)"
        using objects_ok_parts(5) [OF ok] free unfolding callbacks_ok_def by (fastforce simp: proc_at_def)
    qed
    have "idle_ok {} t"
      using objects_ok_parts(4) [OF ok] un by (auto simp: idle_ok_def rt unwatched_def watched_def split: if_splits)
    moreover have "clients_ok t" using objects_ok_parts(3) [OF ok] by (auto simp: clients_ok_def rt less_Suc_eq)
    moreover have "resources_ok (w_ans t)" "yaml_ok (d_config_env t) (d_load t)"
      using objects_ok_parts(1,7) [OF ok] by (simp_all add: rt)
    ultimately have "ok_objects t" by (simp add: objects_ok_def frame_ok_def)
    then show ?thesis by (simp add: rt)
  qed
qed

lemma createJob_spec: "spec (\<lambda>s :: 'n daemon. ok_objects s) (createJob name) (\<lambda>_. ok_objects) ok_objects"
proof -
  have find: "spec P (config_at name) (\<lambda>c s. P s \<and> um_find name (m_config s) = Some c) P" for P :: "'n daemon \<Rightarrow> bool"
    by (auto simp: spec_def config_at_def run_simps split: option.splits)
  show ?thesis
    unfolding createJob_def
  proof (rule spec_bind [OF find])
    fix config
    show "spec (\<lambda>s :: 'n daemon. ok_objects s \<and> um_find name (m_config s) = Some config) (bindM (emplace_job name config) (\<lambda>(created, jid).
       if \<not> created then throwM (StdExn (''new Job :'' @ name @ '' Couldn't be created''))
       else bindM (config_at name) (\<lambda>config. whenM (c_autostart config) (job_start jid)))) (\<lambda>_. ok_objects) ok_objects"
    proof (cases "c_name config = name")
      case True
      have start: "spec (\<lambda>s :: 'n daemon. ok_objects s \<and> h_jobs s jid \<noteq> None)
          (bindM (config_at name) (\<lambda>config. whenM (c_autostart config) (job_start jid))) (\<lambda>_. ok_objects) ok_objects" for jid
      proof (rule spec_bind)
        show "spec (\<lambda>s :: 'n daemon. ok_objects s \<and> h_jobs s jid \<noteq> None) (config_at name) (\<lambda>_ s. ok_objects s \<and> h_jobs s jid \<noteq> None) ok_objects"
          by (rule spec_conseq [OF find [of "\<lambda>s. ok_objects s \<and> h_jobs s jid \<noteq> None"]]) auto
        show "spec (\<lambda>s. ok_objects s \<and> h_jobs s jid \<noteq> None) (whenM (c_autostart c) (job_start jid)) (\<lambda>_. ok_objects) ok_objects" for c
          by (rule spec_when [OF job_start_spec]) simp
      qed
      have "spec (case x of (created, jid) \<Rightarrow> \<lambda>s :: 'n daemon. ok_objects s \<and> h_jobs s jid \<noteq> None) (case x of (created, jid) \<Rightarrow> if \<not> created
          then throwM (StdExn (''new Job :'' @ name @ '' Couldn't be created''))
          else bindM (config_at name) (\<lambda>config. whenM (c_autostart config) (job_start jid))) (\<lambda>_. ok_objects) ok_objects" for x
      proof (cases x)
        case (Pair created jid)
        show ?thesis
          unfolding Pair prod.case by (rule spec_if [OF spec_throw start]) auto
      qed
      from spec_bind [OF emplace_job_spec [OF True] this] show ?thesis by (rule spec_pre) simp
    next
      case False
      have "\<not> (ok_objects s \<and> um_find name (m_config s) = Some config)" for s :: "'n daemon"
        using False heap_ok_maps [of s name config] by (auto dest: objects_ok_parts(2))
      then show ?thesis unfolding spec_def by blast
    qed
  qed
qed

text \<open>Destroying the processes of a job.\<close>

lemma proc_destroys_run:
  fixes s :: "'n daemon"
  assumes "resources_ok (w_ans s)"
  shows "\<exists>t. forM proc_destroy ps s = (Inr (), t) \<and> dropped (\<Union>p \<in> set ps. timer_fds (p_timer p)) s t"
  using assms
proof (induction ps arbitrary: s)
  case Nil
  then show ?case by (simp add: returnM_run dropped_same so.eff_refl)
next
  case (Cons p ps)
  obtain a where a: "timer_release (p_timer p) s = (Inr (), a)" "dropped (timer_fds (p_timer p)) s a"
    using timer_release_run [OF Cons.prems] by blast
  obtain b where b: "fd_destroy (p_fd p) a = (Inr (), b)" "same_objects a b" using fd_destroy_run by blast
  have ab: "dropped (timer_fds (p_timer p)) s b" using dropped_trans [OF a(2) dropped_same [OF b(2)]] by simp
  then have "resources_ok (w_ans b)" using Cons.prems by (simp add: dropped_parts)
  from Cons.IH [OF this] obtain t where "forM proc_destroy ps b = (Inr (), t)"
    "dropped (\<Union>p \<in> set ps. timer_fds (p_timer p)) b t" by blast
  moreover have "proc_destroy p s = (Inr (), b)" using a(1) b(1) by (simp add: proc_destroy_def seqM_run)
  ultimately show ?case using dropped_trans [OF ab] by (auto simp: seqM_run)
qed

lemma erase_job_spec:
  "spec (\<lambda>s :: 'n daemon. ok_objects s \<and> um_find name (m_jobs s) = Some jid \<and> (\<forall>i. unwatched jid i s)) (erase_job name jid)
     (\<lambda>_. ok_objects) E"
proof (rule specI, elim conjE)
  fix s t :: "'n daemon" and r
  assume ok: "ok_objects s" and name: "um_find name (m_jobs s) = Some jid" and un: "\<forall>i. unwatched jid i s"
    and run: "erase_job name jid s = (r, t)"
  obtain j where j: "h_jobs s jid = Some j" "c_name (j_config j) = name"
    using heap_ok_name [OF objects_ok_parts(2) [OF ok] name] by blast
  let ?s = "s\<lparr>m_jobs := um_erase name (m_jobs s), h_jobs := (h_jobs s)(jid := None)\<rparr>"
  let ?F = "\<Union>p \<in> set (j_processes j). timer_fds (p_timer p)"
  have "resources_ok (w_ans ?s)" using objects_ok_parts(1) [OF ok] by simp
  from proc_destroys_run [OF this, of "j_processes j"] obtain u where
    u: "forM proc_destroy (j_processes j) ?s = (Inr (), u)" "dropped ?F ?s u" by blast
  have rt: "r = Inr ()" "t = u"
    using run u(1) j(1) by (simp_all add: erase_job_def job_destroy_def run_simps)
  have "heap_ok ?s"
    using evolves_erase [OF objects_ok_parts(2) [OF ok] j] objects_ok_parts(2) [OF ok] by (simp add: evolves_def)
  moreover have "idle_ok {} ?s"
    using objects_ok_parts(4) [OF ok] by (auto simp: idle_ok_def unwatched_def watched_def)
  moreover have "clients_ok ?s" using objects_ok_parts(3) [OF ok] by (simp add: clients_ok_def)
  ultimately have "frame_ok {} ?s" using objects_ok_parts(1,7) [OF ok] by (simp add: frame_ok_def)
  then have "frame_ok {} t" unfolding rt by (rule frame_dropped [OF u(2)])
  moreover have "callback_ok t fd cb" if "watched t fd cb" for fd cb
  proof -
    have "watched ?s = watched s" by (simp add: watched_def fun_eq_iff)
    with that dropped_parts [OF u(2)] have w: "fd \<notin> ?F" "watched s fd cb" by (simp_all add: rt)
    then have c: "callback_ok s fd cb" using objects_ok_parts(5) [OF ok] by (simp add: callbacks_ok_def)
    have at: "proc_at ?s k i = (if k = jid then None else proc_at s k i)" for k i by (simp add: proc_at_def)
    have "callback_ok ?s fd cb"
    proof (cases cb)
      case (CbProcess k i)
      with w(2) un have "k \<noteq> jid" by (auto simp: unwatched_def)
      with c CbProcess show ?thesis by (simp add: at)
    next
      case (CbTimer k i tid)
      have "k \<noteq> jid"
      proof
        assume "k = jid"
        with c CbTimer j(1) obtain p tm where p: "i < length (j_processes j)" "p = j_processes j ! i" "p_timer p = Some tm"
          "t_fd tm = fd" "t_state tm = T_RUNNING" by (auto simp: proc_at_def split: if_splits)
        then have "p \<in> set (j_processes j)" "fd \<in> timer_fds (p_timer p)" by (simp_all add: timer_fds_def)
        with w(1) show False by blast
      qed
      with c CbTimer show ?thesis by (simp add: at)
    qed (use c in auto)
    then show ?thesis unfolding rt callback_ok_dropped [OF u(2)] .
  qed
  ultimately show "case r of Inr x \<Rightarrow> ok_objects t | Inl e \<Rightarrow> \<not> dangling e \<and> (\<forall>w. e = StdExn w \<longrightarrow> E t)"
    by (simp add: rt(1) objects_ok_def callbacks_ok_def)
qed

section \<open>Updating\<close>

lemma update_job_spec:
  "spec (\<lambda>s :: 'n daemon. ok_objects s \<and> um_find name (m_jobs s) = Some jid) (update_job name jid) (\<lambda>_. ok_objects) ok_objects"
  unfolding update_job_def
proof (rule spec_get_job)
  fix j :: job
  let ?P = "\<lambda>s :: 'n daemon. (ok_objects s \<and> um_find name (m_jobs s) = Some jid) \<and> h_jobs s jid = Some j"
  have erase: "spec ?P (erase_job name jid) (\<lambda>_. ok_objects) ok_objects" if "j_state j \<in> idle_states"
    by (rule spec_pre [OF erase_job_spec]) (use that in \<open>auto simp: idle_ok_def dest: objects_ok_parts(4)\<close>)
  then show "spec ?P (if j_state j = J_REMOVE then erase_job name jid
     else if j_state j = J_REPLACE then seqM (erase_job name jid) (createJob name)
     else returnM ()) (\<lambda>_. ok_objects) ok_objects"
    by (auto intro: spec_return spec_seq [OF _ createJob_spec] simp: idle_states_def)
next
  show "h_jobs s jid \<noteq> None" if "ok_objects s \<and> um_find name (m_jobs s) = Some jid" for s :: "'n daemon"
    using that heap_ok_name [of s name jid] by (auto dest: objects_ok_parts(2))
qed

text \<open>A visit touches the entry of its own name only.\<close>

definition other_names :: "string \<Rightarrow> 'n daemon \<Rightarrow> 'n daemon \<Rightarrow> bool" where
  "other_names name s t \<longleftrightarrow> (\<forall>n. n \<noteq> name \<longrightarrow> um_find n (m_jobs t) = um_find n (m_jobs s))"

interpretation on: effect_order "other_names name" for name
  by unfold_locales (auto simp: other_names_def)

lemma same_maps_other: "keeps same_maps m \<Longrightarrow> keeps (other_names name) m"
  by (auto simp: keeps_def same_maps_def other_names_def)

lemma emplace_job_other:
  fixes config :: jobconfig
  shows "keeps (other_names name) (emplace_job name config :: ('n, bool \<times> nat) dprog)"
proof (rule keepsI)
  fix s :: "'n daemon"
  show "other_names name s (snd (emplace_job name config s))"
  proof (cases "um_find name (m_jobs s)")
    case (Some old)
    let ?s = "s\<lparr>w_next := Suc (w_next s), h_jobs := (h_jobs s)(w_next s \<mapsto> job_new (w_wordexp s) config)\<rparr>"
    obtain r t where t: "job_destroy (w_next s) ?s = (r, t)" by fastforce
    have "m_jobs t = m_jobs s" using job_destroy_same [OF t] by (simp add: same_maps_def)
    then show ?thesis
      by (simp add: emplace_job_def job_alloc_def Some run_simps t other_names_def split: sum.split exn.split)
  qed (simp add: emplace_job_def job_alloc_def set_jobs_def run_simps other_names_def um_find_emplace)
qed

lemma update_job_other: "keeps (other_names name) (update_job name jid)"
proof -
  have "keeps (other_names name) (modifyM (\<lambda>s. s\<lparr>m_jobs := um_erase name (m_jobs s)\<rparr>))"
    by (rule on.modify_keeps) (simp add: other_names_def um_find_erase)
  then show ?thesis
    unfolding update_job_def erase_job_def createJob_def
    by (auto intro!: on.combinator_keeps emplace_job_other same_maps_other [OF sm.job_heap_R(2)]
        same_maps_other [OF sm.job_start_R] same_maps_other [OF sm.get_R(1)] same_maps_other [OF sm.small_R(3)])
qed

lemma manager_update_spec: "spec (\<lambda>s :: 'n daemon. ok_objects s) manager_update (\<lambda>_. ok_objects) ok_objects"
  unfolding manager_update_def
proof (rule spec_gets)
  fix jobs :: "(string \<times> nat) list"
  let ?P = "\<lambda>es (s :: 'n daemon). ok_objects s \<and> distinct (map fst es) \<and> (\<forall>e \<in> set es. um_find (fst e) (m_jobs s) = Some (snd e))"
  have "spec (?P (e # es)) (case e of (name, jid) \<Rightarrow> update_job name jid) (\<lambda>_. ?P es) ok_objects" for e es
  proof -
    obtain name jid where e: "e = (name, jid)" by fastforce
    let ?F = "\<lambda>s :: 'n daemon. distinct (map fst es) \<and> (\<forall>e \<in> set es. fst e \<noteq> name \<and> um_find (fst e) (m_jobs s) = Some (snd e))"
    have "other_names name s t \<Longrightarrow> ?F s \<Longrightarrow> ?F t" for s t :: "'n daemon" by (auto simp: other_names_def)
    from spec_frame [where F = ?F, OF update_job_spec update_job_other this] show ?thesis
      unfolding e prod.case by (rule spec_conseq) force+
  qed
  then have "spec (?P jobs) (forM (\<lambda>(name, jid). update_job name jid) jobs) (\<lambda>_. ?P []) ok_objects"
    by (intro spec_for_rest) simp
  then show "spec (\<lambda>s :: 'n daemon. ok_objects s \<and> jobs = m_jobs s) (forM (\<lambda>(name, jid). update_job name jid) jobs) (\<lambda>_. ok_objects) ok_objects"
    by (rule spec_conseq) (auto simp: heap_entries dest: objects_ok_parts(2))
qed

end
