(* ===== verification/Command_Safety.thy ===== *)
theory Command_Safety
  imports Manager_Safety Job_Config_Props
begin

text \<open>
  Loading the configuration, \<open>reload\<close> and the commands of clients reach no destroyed object either.
\<close>

section \<open>What the loader throws\<close>

lemma throws_std_simps [simp]: "throws_std (Inr x)" "throws_std (Inl (StdExn w))"
  by (simp_all add: throws_std_def)

lemma throws_bind: "throws_std r \<Longrightarrow> (\<And>x. throws_std (f x)) \<Longrightarrow> throws_std (bindE r f)"
  by (cases r) (simp_all add: throws_std_def)

lemma yaml_throws:
  assumes "yaml_ok Es load"
  shows "throws_std (load n)" "throws_std (y_as_string (Es n) x)" "throws_std (y_as_i32 (Es n) x)" "throws_std (y_as_bool (Es n) x)"
    "throws_std (y_as_i32s (Es n) x)" "throws_std (y_index (Es n) x k)" "throws_std (fs_exists (Es n) p)"
  using assms by (simp_all add: yaml_ok_def config_env_ok_def)

lemma parser_throws:
  assumes ok: "yaml_ok Es load"
  shows "throws_std (parser_of k (Es n) obj x)"
proof -
  have "throws_std (add_env (Es n) es env)" for es env
    by (induction es arbitrary: env) (auto intro!: throws_bind yaml_throws [OF ok])
  then show ?thesis
    by (cases k) (auto simp: parser_defs intro!: throws_bind yaml_throws [OF ok] split: option.split)
qed

lemma config_throws:
  assumes ok: "yaml_ok Es load"
  shows "throws_std (job_config_new raw order (Es n) name config)"
proof -
  have "throws_std (check_options (Es n) es)" for es
    by (induction es) (auto intro!: throws_bind yaml_throws [OF ok])
  moreover have "throws_std (parse_options (Es n) config ks obj)" for ks obj
    by (induction ks arbitrary: obj) (auto intro!: throws_bind yaml_throws [OF ok] parser_throws [OF ok])
  ultimately show ?thesis unfolding job_config_new_def by (auto intro!: throws_bind)
qed

lemma loader_throws:
  assumes ok: "yaml_ok Es load"
  shows "throws_std (getJobConfigs (Es n) (load n))"
proof -
  have "throws_std (load_jobs (Es n) config es m)" for config es m
  proof (induction es arbitrary: m)
    case (Cons entry es)
    obtain k v where e: "entry = (k, v)" by fastforce
    have "throws_std (case bindE (y_index (Es n) config name) (job_config_new raw_config nodes (Es n) name) of
             Inl e \<Rightarrow> (case e of StdExn w \<Rightarrow> load_jobs (Es n) config es m | _ \<Rightarrow> Inl e)
           | Inr c \<Rightarrow> load_jobs (Es n) config es (um_emplace name c m))" for name
    proof -
      have "throws_std (bindE (y_index (Es n) config name) (job_config_new raw_config nodes (Es n) name))"
        by (intro throws_bind yaml_throws [OF ok] config_throws [OF ok])
      with Cons.IH show ?thesis by (auto simp: throws_std_def split: sum.split exn.split)
    qed
    then show ?case unfolding e load_jobs.simps by (intro throws_bind yaml_throws [OF ok]) (simp add: Cons.IH)
  qed simp
  then show ?thesis
    unfolding getJobConfigs_def by (auto intro!: throws_bind yaml_throws [OF ok])
qed

section \<open>Loading and reloading\<close>

lemma load_configs_spec:
  "spec (\<lambda>s :: 'n daemon. ok_objects s) load_configs (\<lambda>configs s. ok_objects s \<and> configs_ok configs) ok_objects"
proof (rule specI)
  fix s t :: "'n daemon" and r
  assume ok: "ok_objects s" and run: "load_configs s = (r, t)"
  have "same_objects s t" using run by (auto simp: load_configs_def run_simps same_objects_def)
  then have "ok_objects t" using of_objectsD [OF of_objects_intros(1)] ok by blast
  moreover have "r = getJobConfigs (d_config_env s (d_loads s)) (d_load s (d_loads s))"
    using run by (simp add: load_configs_def run_simps)
  then have "throws_std r" using loader_throws [OF objects_ok_parts(7) [OF ok]] by simp
  moreover have "configs_ok configs" if "r = Inr configs" for configs using load_configs_post run that by blast
  ultimately show "case r of Inr configs \<Rightarrow> ok_objects t \<and> configs_ok configs
      | Inl e \<Rightarrow> \<not> dangling e \<and> (\<forall>w. e = StdExn w \<longrightarrow> ok_objects t)"
    by (auto simp: throws_std_def split: sum.split)
qed

lemma set_config_spec:
  assumes "configs_ok configs"
  shows "spec (\<lambda>s :: 'n daemon. ok_objects s) (modifyM (\<lambda>s. s\<lparr>m_config := configs\<rparr>)) (\<lambda>_. ok_objects) E"
proof (rule spec_modify)
  fix s :: "'n daemon"
  let ?t = "s\<lparr>m_config := configs\<rparr>"
  assume ok: "ok_objects s"
  have "heap_ok ?t" using keepsD [OF set_config_ev [OF assms] modifyM_run, of s] objects_ok_parts(2) [OF ok] by (simp add: evolves_def)
  moreover have at: "proc_at ?t = proc_at s" and w: "watched ?t = watched s"
    by (simp_all add: proc_at_def watched_def fun_eq_iff)
  have "callback_ok ?t fd cb = callback_ok s fd cb" for fd cb by (cases cb) (simp_all add: at)
  with w have "callbacks_ok ?t = callbacks_ok s" "idle_ok {} ?t = idle_ok {} s" "clients_ok ?t = clients_ok s"
    by (simp_all add: callbacks_ok_def idle_ok_def unwatched_def clients_ok_def)
  ultimately show "ok_objects ?t" using objects_ok_parts [OF ok] by (simp add: objects_ok_def frame_ok_def)
qed

lemma create_missing_spec: "spec (\<lambda>s :: 'n daemon. ok_objects s) create_missing (\<lambda>_. ok_objects) ok_objects"
  unfolding create_missing_def
proof (rule spec_gets)
  fix configs :: "(string, jobconfig) umap"
  have "spec (\<lambda>s :: 'n daemon. ok_objects s) (forM (\<lambda>(name, config). bindM (getsM m_jobs) (\<lambda>jobs.
         whenM (um_find name jobs = None) (createJob name))) configs) (\<lambda>_. ok_objects) ok_objects"
  proof (rule spec_for)
    fix e :: "string \<times> jobconfig"
    obtain name config where e: "e = (name, config)" by fastforce
    show "spec (\<lambda>s :: 'n daemon. ok_objects s) (case e of (name, config) \<Rightarrow> bindM (getsM m_jobs) (\<lambda>jobs.
         whenM (um_find name jobs = None) (createJob name))) (\<lambda>_. ok_objects) ok_objects"
      unfolding e prod.case by (rule spec_gets, rule spec_when, rule spec_pre [OF createJob_spec]) auto
  qed
  then show "spec (\<lambda>s :: 'n daemon. ok_objects s \<and> configs = m_config s) (forM (\<lambda>(name, config). bindM (getsM m_jobs) (\<lambda>jobs.
         whenM (um_find name jobs = None) (createJob name))) configs) (\<lambda>_. ok_objects) ok_objects"
    by (rule spec_pre) auto
qed

lemma respond_spec: "spec P (respond st msg) (\<lambda>_. P) E"
  unfolding respond_def by (rule spec_return)

lemma manager_reload_spec: "spec (\<lambda>s :: 'n daemon. ok_objects s) manager_reload (\<lambda>_. ok_objects) ok_objects"
  unfolding manager_reload_def
proof (rule spec_bind)
  show "spec (\<lambda>s :: 'n daemon. ok_objects s) (tryM (bindM load_configs (\<lambda>configs.
      seqM (modifyM (\<lambda>s. s\<lparr>m_config := configs\<rparr>)) (returnM None))) (\<lambda>w. returnM (Some w))) (\<lambda>_. ok_objects) ok_objects"
    by (rule spec_try, rule spec_bind [OF load_configs_spec])
      (auto intro: spec_return intro!: spec_assume spec_seq [OF set_config_spec])
  show "spec (\<lambda>s :: 'n daemon. ok_objects s) (case failed of
       Some w \<Rightarrow> respond ERROR (''Failed to reload new config: fallback to old config! Issue: '' @ w)
     | None \<Rightarrow> seqM stop_changed (seqM create_missing (seqM manager_update (seqM manager_start_all
        (respond OK ''Successfully started a reload of the config file''))))) (\<lambda>_. ok_objects) ok_objects" for failed
    by (rule spec_option)
      (intro respond_spec spec_seq [OF stop_changed_spec] spec_seq [OF create_missing_spec] spec_seq [OF manager_update_spec]
        spec_seq [OF start_all_spec])+
qed

lemma manager_new_spec: "spec (\<lambda>s :: 'n daemon. ok_objects s) manager_new (\<lambda>_. ok_objects) ok_objects"
  unfolding manager_new_def
proof (rule spec_bind [OF load_configs_spec], rule spec_assume, rule spec_seq [OF set_config_spec])
  fix configs :: "(string, jobconfig) umap"
  assume ok: "configs_ok configs"
  show "spec (\<lambda>s :: 'n daemon. ok_objects s) (forM (\<lambda>(name, config). seqM (emplace_job name config) (returnM ())) configs)
      (\<lambda>_. ok_objects) ok_objects"
  proof (rule spec_for)
    fix e assume e: "e \<in> set configs"
    obtain name config where p: "e = (name, config)" by fastforce
    have "c_name config = name" using e ok um_mem_find [of configs name config] by (auto simp: configs_ok_def p)
    then show "spec (\<lambda>s :: 'n daemon. ok_objects s) (case e of (name, config) \<Rightarrow> seqM (emplace_job name config) (returnM ()))
        (\<lambda>_. ok_objects) ok_objects"
      unfolding p prod.case by (intro spec_seq [where Q = ok_objects] spec_conseq [OF emplace_job_spec] spec_return) auto
  qed
qed

section \<open>Commands\<close>

lemma findJob_spec: "spec (\<lambda>s :: 'n daemon. ok_objects s) (findJob name) (\<lambda>jid s. ok_objects s \<and> h_jobs s jid \<noteq> None) ok_objects"
proof (rule specI)
  fix s t :: "'n daemon" and r
  assume "ok_objects s" "findJob name s = (r, t)"
  then show "case r of Inr jid \<Rightarrow> ok_objects t \<and> h_jobs t jid \<noteq> None | Inl e \<Rightarrow> \<not> dangling e \<and> (\<forall>w. e = StdExn w \<longrightarrow> ok_objects t)"
    using heap_ok_name [OF objects_ok_parts(2), of "{}" s name] by (auto simp: findJob_def run_simps split: option.splits)
qed

lemma job_command_spec:
  assumes "\<And>jid. spec (\<lambda>s :: 'n daemon. ok_objects s \<and> h_jobs s jid \<noteq> None) (act jid) (\<lambda>_. ok_objects) ok_objects"
  shows "spec (\<lambda>s :: 'n daemon. ok_objects s) (job_command name act phase) (\<lambda>_. ok_objects) ok_objects"
  unfolding job_command_def
  by (rule spec_try, rule spec_bind [OF findJob_spec], rule spec_try, rule spec_seq [OF assms]) (rule respond_spec)+

lemma print_throws:
  assumes "print_job j = Inl e"
  shows "\<not> dangling e"
proof -
  have cell: "print_cell w = Inl e \<Longrightarrow> \<not> dangling e" for w e
    by (auto simp: print_cell_def split: option.splits)
  have "print_processes ps = Inl e \<Longrightarrow> \<not> dangling e" for ps e
    by (induction ps) (auto simp: bindE_def dest: cell split: sum.splits)
  with cell assms show ?thesis by (auto simp: print_job_def bindE_def split: sum.splits)
qed

lemma print_calm: "calm (liftE (print_job j))" "calm (liftE (print_jobs js))"
proof -
  have "print_jobs js = Inl e \<Longrightarrow> \<not> dangling e" for e
    by (induction js) (auto simp: bindE_def dest: print_throws split: sum.splits)
  then show "calm (liftE (print_job j))" "calm (liftE (print_jobs js))"
    by (auto simp: calm_def liftE_run same_objects_def dest: print_throws)
qed

lemma status_spec: "spec (\<lambda>s :: 'n daemon. ok_objects s) (manager_status name) (\<lambda>_. ok_objects) ok_objects"
  unfolding manager_status_def
proof (rule spec_try, rule spec_bind [OF findJob_spec], rule spec_get_job)
  fix jid and j :: job
  show "spec (\<lambda>s :: 'n daemon. (ok_objects s \<and> h_jobs s jid \<noteq> None) \<and> h_jobs s jid = Some j)
      (bindM (liftE (print_job j)) (respond OK)) (\<lambda>_. ok_objects) ok_objects"
    by (rule spec_pre [where P' = ok_objects, OF spec_calm_bind [OF print_calm(1)]]) (auto intro: respond_spec)
qed (auto intro: respond_spec)

lemma get_jobs_spec:
  "spec (\<lambda>s :: 'n daemon. ok_objects s \<and> entries_live es s) (get_jobs es) (\<lambda>_. ok_objects) ok_objects"
proof (induction es rule: get_jobs.induct)
  case (2 name jid es)
  show ?case
    unfolding get_jobs.simps
  proof (rule spec_get_job)
    fix j :: job
    show "spec (\<lambda>s :: 'n daemon. (ok_objects s \<and> entries_live ((name, jid) # es) s) \<and> h_jobs s jid = Some j)
        (bindM (get_jobs es) (\<lambda>js. returnM (j # js))) (\<lambda>_. ok_objects) ok_objects"
      by (rule spec_bind [OF spec_pre [OF 2]]) (auto simp: entries_live_def intro: spec_return)
  qed (simp add: entries_live_def)
qed (auto intro: spec_return)

lemma status_all_spec: "spec (\<lambda>s :: 'n daemon. ok_objects s) manager_status_all (\<lambda>_. ok_objects) ok_objects"
  unfolding manager_status_all_def
proof (rule spec_gets, rule spec_bind [OF spec_pre [OF get_jobs_spec]])
  show "spec (\<lambda>s :: 'n daemon. ok_objects s) (bindM (liftE (print_jobs js)) (respond OK)) (\<lambda>_. ok_objects) ok_objects" for js
    by (rule spec_calm_bind [OF print_calm(2)]) (auto intro: respond_spec)
qed (auto intro: map_entries_live dest: objects_ok_parts(2))

lemma restart_spec:
  "spec (\<lambda>s :: 'n daemon. ok_objects s \<and> h_jobs s jid \<noteq> None) (seqM (job_stop jid) (job_start jid)) (\<lambda>_. ok_objects) ok_objects"
  by (rule spec_seq [OF spec_conseq [OF spec_frame [where F = "\<lambda>s. h_jobs s jid \<noteq> None", OF job_stop_spec job_stop_grows grows_job]] job_start_spec])
    auto

lemma onCommand_spec: "spec (\<lambda>s :: 'n daemon. ok_objects s) (onCommand cmd) (\<lambda>_. ok_objects) ok_objects"
proof -
  have parse: "calm (parseCommand cmd :: ('n, response option) dprog)"
    unfolding parseCommand_def Let_def by (auto intro!: calm_intros)
  have "spec (\<lambda>s :: 'n daemon. ok_objects s) (case cmd_type cmd of
           START \<Rightarrow> manager_start (cmd_args cmd ! 0)
         | STOP \<Rightarrow> manager_stop (cmd_args cmd ! 0)
         | RESTART \<Rightarrow> manager_restart (cmd_args cmd ! 0)
         | STATUS \<Rightarrow> (if cmd_args cmd \<noteq> [] then manager_status (cmd_args cmd ! 0) else manager_status_all)
         | RELOAD \<Rightarrow> manager_reload
         | TERMINATE \<Rightarrow> respond OK ''Successfully started the termination sequence''
         | _ \<Rightarrow> throwM (Undefined ''unreachable'')) (\<lambda>_. ok_objects) ok_objects"
    unfolding manager_start_def manager_stop_def manager_restart_def
    by (cases "cmd_type cmd")
      (auto intro: job_command_spec job_start_spec job_stop_spec restart_spec status_spec status_all_spec manager_reload_spec
        respond_spec spec_throw)
  then have "spec (\<lambda>s :: 'n daemon. ok_objects s) (case res of
       Some response \<Rightarrow> returnM (response, cmd\<lparr>cmd_type := COMMAND_ERROR\<rparr>)
     | None \<Rightarrow> bindM (case cmd_type cmd of
           START \<Rightarrow> manager_start (cmd_args cmd ! 0)
         | STOP \<Rightarrow> manager_stop (cmd_args cmd ! 0)
         | RESTART \<Rightarrow> manager_restart (cmd_args cmd ! 0)
         | STATUS \<Rightarrow> (if cmd_args cmd \<noteq> [] then manager_status (cmd_args cmd ! 0) else manager_status_all)
         | RELOAD \<Rightarrow> manager_reload
         | TERMINATE \<Rightarrow> respond OK ''Successfully started the termination sequence''
         | _ \<Rightarrow> throwM (Undefined ''unreachable'')) (\<lambda>response. returnM (response, cmd))) (\<lambda>_. ok_objects) ok_objects" for res
    by (intro spec_option spec_return spec_bind)
  then show ?thesis
    unfolding onCommand_def by (intro spec_calm_bind [OF parse]) auto
qed

end
