(* ===== verification/Conversation.thy ===== *)
theory Conversation
  imports Job_Stopping Daemon_Effects Daemon_Example
begin

text \<open>
  A client's conversation with the daemon, \<^verbatim>\<open>taskmasterd/src/ipc/Client.cpp\<close> under the dispatch of
  the event manager: a command that has arrived is carried out once and its answer, and nothing else,
  is sent back in one frame before the client is read again.
\<close>

section \<open>Carrying out a command\<close>

text \<open>What no command touches: the connections, the daemon's state and the libraries.\<close>

definition apart :: "'n daemon \<Rightarrow> 'n daemon \<Rightarrow> bool" where
  "apart s t \<longleftrightarrow> h_clients t = h_clients s \<and> s_clients t = s_clients s \<and> s_fd t = s_fd s \<and> g_state t = g_state s \<and>
     w_ans t = w_ans s \<and> d_serialize_response t = d_serialize_response s"

interpretation ap: manager_effect "apart :: 'n daemon \<Rightarrow> 'n daemon \<Rightarrow> bool"
  by unfold_locales
    (auto simp: apart_def keeps_def run_simps registerEvent_def updateEventInternal_def unregisterEvent_def
      fresh_id_def Let_def)

lemma onCommand_apart: "onCommand cmd s = (r, t) \<Longrightarrow> apart s t"
  using keepsD [OF ap.cmds.onCommand_R] by blast

text \<open>The answer a command gets and the command its writer keeps, for an outcome of \<open>onCommand\<close>.\<close>

fun answer_of :: "command \<Rightarrow> exn + response \<times> command \<Rightarrow> (response \<times> command) option" where
  "answer_of cmd (Inr (response, cmd')) = Some (response, cmd')"
| "answer_of cmd (Inl (StdExn w)) = Some (\<lparr>res_status = ERROR, res_message = ''Internal daemon error: '' @ w\<rparr>, cmd)"
| "answer_of cmd (Inl e) = None"

definition loaded_writer :: "bytes \<Rightarrow> writer" where
  "loaded_writer bs = \<lparr>pw_message = bs, pw_bytes_written = 0, pw_size_written = False\<rparr>"

lemma register_ok_run:
  assumes "kernel_ok (w_ans s)"
  shows "\<exists>t. registerEvent fd r w s = (Inr (), t) \<and> aside s t \<and> apart s t \<and>
     em_read_callbacks t = (em_read_callbacks s)(fd \<mapsto> r) \<and> em_write_callbacks t = (em_write_callbacks s)(fd \<mapsto> w) \<and>
     sent_bytes x (w_trace t) = sent_bytes x (w_trace s)"
  using kernel_answers [OF assms]
  by (simp add: registerEvent_def updateEventInternal_def Let_def run_simps aside_def apart_def)

lemma unregister_ok_run:
  assumes "kernel_ok (w_ans s)"
  shows "\<exists>t. unregisterEvent fd s = (Inr (), t) \<and> aside s t \<and> apart s t \<and>
     sent_bytes x (w_trace t) = sent_bytes x (w_trace s)"
  using kernel_answers [OF assms]
  by (simp add: unregisterEvent_def run_simps aside_def apart_def)

lemma writer_init_loaded: "serialize m = Some bs \<Longrightarrow> writer_init serialize m writer_new = Inr (loaded_writer bs)"
  by (simp add: writer_init_def writer_new_def loaded_writer_def)

lemma writer_init_response_ok:
  assumes "h_clients s cid = Some c" and "cl_writer c = writer_new" and "d_serialize_response s response = Some bs"
  shows "writer_init_response cid response s =
     (Inr (), s\<lparr>h_clients := (h_clients s)(cid \<mapsto> c\<lparr>cl_writer := loaded_writer bs\<rparr>)\<rparr>)"
  using assms writer_init_loaded [of "d_serialize_response s", OF assms(3)]
  by (simp add: writer_init_response_def run_simps set_writer_def)

lemma handle_message_ok:
  assumes ok: "kernel_ok (w_ans s)" and c: "h_clients s cid = Some c" and w: "cl_writer c = writer_new"
  shows "\<exists>u. aside s u \<and> apart s u \<and>
    (\<forall>v response cmd' bs. answer_of cmd (fst (onCommand cmd u)) = Some (response, cmd') \<longrightarrow>
       v = snd (onCommand cmd u) \<longrightarrow> d_serialize_response s response = Some bs \<longrightarrow>
       (\<exists>t. client_handle_message cid cmd s = (Inr (), t) \<and>
          h_clients t = (h_clients s)(cid \<mapsto> c\<lparr>cl_writer := loaded_writer bs\<rparr>) \<and> aside v t \<and> g_state t = g_state s \<and>
          em_read_callbacks t (cl_fd c) = Some None \<and>
          em_write_callbacks t (cl_fd c) = Some (Some (CbClientWrite cid cmd'))))"
proof -
  let ?log = "logM LT_Info (''Received command from client fd '' @ to_string (cl_fd c) @ '': '' @ d_debug_string s cmd)"
  obtain u where u: "unregisterEvent (cl_fd c) (snd (?log s)) = (Inr (), u)" "aside (snd (?log s)) u" "apart (snd (?log s)) u"
    using unregister_ok_run [of "snd (?log s)"] ok by (auto simp: logM_run)
  note u1 = u(1) [simplified logM_run, simplified]
  from u have su: "aside s u" "apart s u" by (simp_all add: aside_def apart_def logM_run)
  have "\<exists>t. client_handle_message cid cmd s = (Inr (), t) \<and>
          h_clients t = (h_clients s)(cid \<mapsto> c\<lparr>cl_writer := loaded_writer bs\<rparr>) \<and> aside v t \<and> g_state t = g_state s \<and>
          em_read_callbacks t (cl_fd c) = Some None \<and>
          em_write_callbacks t (cl_fd c) = Some (Some (CbClientWrite cid cmd'))"
    if a: "answer_of cmd r = Some (response, cmd')" and r: "onCommand cmd u = (r, v)"
      and bs: "d_serialize_response s response = Some bs" for r v response cmd' bs
  proof -
    have v: "h_clients v cid = Some c" "h_clients v = h_clients s" "d_serialize_response v response = Some bs"
      "kernel_ok (w_ans v)" "g_state v = g_state s"
      using onCommand_apart [OF r] su(2) c bs ok by (simp_all add: apart_def)
    let ?v = "v\<lparr>h_clients := (h_clients v)(cid \<mapsto> c\<lparr>cl_writer := loaded_writer bs\<rparr>)\<rparr>"
    have clear: "c\<lparr>cl_writer := writer_clear (cl_writer c)\<rparr> = c"
      using w by (cases c) (simp add: writer_clear_def writer_new_def)
    consider "r = Inr (response, cmd')" | e where "r = Inl (StdExn e)" "cmd' = cmd"
        "response = \<lparr>res_status = ERROR, res_message = ''Internal daemon error: '' @ e\<rparr>"
      using a by (cases "(cmd, r)" rule: answer_of.cases) auto
    then have run: "client_handle_message cid cmd s = registerEvent (cl_fd c) None (Some (CbClientWrite cid cmd')) ?v"
    proof cases
      case 1
      with r writer_init_response_ok [OF v(1) w v(3)] show ?thesis
        by (simp add: client_handle_message_def bindM_run seqM_run get_client_run c getsM_run u1 tryM_run returnM_run logM_run)
    next
      case 2
      with r writer_init_response_ok [OF v(1) w v(3)] v(1) show ?thesis
        by (simp add: client_handle_message_def bindM_run seqM_run get_client_run c getsM_run u1 tryM_run returnM_run logM_run
          mod_client_run clear fun_upd_idem)
    qed
    have "kernel_ok (w_ans ?v)" using v(4) by simp
    from register_ok_run [OF this] obtain t where "registerEvent (cl_fd c) None (Some (CbClientWrite cid cmd')) ?v = (Inr (), t)"
      "aside ?v t" "apart ?v t" "em_read_callbacks t = (em_read_callbacks ?v)(cl_fd c \<mapsto> None)"
      "em_write_callbacks t = (em_write_callbacks ?v)(cl_fd c \<mapsto> Some (CbClientWrite cid cmd'))" by blast
    with run v show ?thesis by (intro exI [of _ t]) (simp add: aside_def apart_def)
  qed
  with su show ?thesis by (intro exI [of _ u]) (auto simp: prod_eq_iff)
qed

lemma reader_read_data:
  assumes "w_ans s (w_clock s) (SysRecv fd 4096) = n" and "0 < n"
    and "reader_feed parse r (map (w_data s (w_clock s)) [0..<nat n]) = (Inr m, r')"
  shows "\<exists>t. reader_read parse fd r s = (Inr (Inr (n, m), r'), t) \<and> aside s t \<and> apart s t"
  using assms
  by (simp add: reader_read_def READER_BUFFER_SIZE_def run_simps aside_def apart_def)

text \<open>A single ready event, when its callback succeeds.\<close>

lemma one_event:
  assumes "call_at invoke (em_read_callbacks s) fd s = (Inr (), t)"
  shows "handleEvents invoke (Events [(fd, True, False)]) s = (Inr (), t)"
  using assms by (simp add: handleEvent_def run_simps)

text \<open>
  C16. Serving a command: when the bytes a client sent complete the frame of a command, the dispatch of
  the read event carries the command out exactly once, in a state that differs from the one before
  only in the log, the trace and the event registry; the answer is the one \<open>onCommand\<close> gives, or ERROR
  with the text of the exception it threw; the answer is loaded into the client's writer, the jobs and
  the configuration are as the command left them, and from then on the client is polled for writing
  only.
\<close>

theorem command_served:
  fixes s :: "'n daemon"
  assumes ok: "kernel_ok (w_ans s)" and c: "h_clients s cid = Some c" and w: "cl_writer c = writer_new"
    and cb: "em_read_callbacks s (cl_fd c) = Some (Some (CbClientRead cid))"
    and n: "w_ans s (w_clock s) (SysRecv (cl_fd c) 4096) = n" "0 < n"
    and feed: "reader_feed (d_parse_command s) (cl_reader c) (map (w_data s (w_clock s)) [0..<nat n]) = (Inr (Some cmd), r')"
  shows "\<exists>u :: 'n daemon. h_jobs u = h_jobs s \<and> m_jobs u = m_jobs s \<and> m_config u = m_config s \<and> g_state u = g_state s \<and>
    (\<forall>v response cmd' bs. answer_of cmd (fst (onCommand cmd u)) = Some (response, cmd') \<longrightarrow>
       v = snd (onCommand cmd u) \<longrightarrow> d_serialize_response s response = Some bs \<longrightarrow>
       (\<exists>t. handleEvents dispatch (Events [(cl_fd c, True, False)]) s = (Inr (), t) \<and>
          h_clients t = (h_clients s)(cid \<mapsto> c\<lparr>cl_reader := r', cl_writer := loaded_writer bs\<rparr>) \<and>
          h_jobs t = h_jobs v \<and> m_jobs t = m_jobs v \<and> m_config t = m_config v \<and> g_state t = g_state s \<and>
          em_read_callbacks t (cl_fd c) = Some None \<and>
          em_write_callbacks t (cl_fd c) = Some (Some (CbClientWrite cid cmd'))))"
proof -
  obtain s1 where s1: "reader_read (d_parse_command s) (cl_fd c) (cl_reader c) s = (Inr (Inr (n, Some cmd), r'), s1)"
    "aside s s1" "apart s s1"
    using reader_read_data [OF n feed] by blast
  let ?c = "c\<lparr>cl_reader := r'\<rparr>" and ?s1 = "s1\<lparr>h_clients := (h_clients s1)(cid \<mapsto> c\<lparr>cl_reader := r'\<rparr>)\<rparr>"
  have c1: "h_clients s1 cid = Some c" "h_clients s1 = h_clients s" using s1(3) c by (simp_all add: apart_def)
  have "kernel_ok (w_ans ?s1)" "h_clients ?s1 cid = Some ?c" "cl_writer ?c = writer_new"
    using ok s1(3) w by (simp_all add: apart_def)
  from handle_message_ok [OF this, of cmd] obtain u where u: "aside ?s1 u" "apart ?s1 u"
    and served: "\<And>v response cmd' bs. answer_of cmd (fst (onCommand cmd u)) = Some (response, cmd') \<Longrightarrow>
       v = snd (onCommand cmd u) \<Longrightarrow> d_serialize_response ?s1 response = Some bs \<Longrightarrow>
       \<exists>t. client_handle_message cid cmd ?s1 = (Inr (), t) \<and>
          h_clients t = (h_clients ?s1)(cid \<mapsto> ?c\<lparr>cl_writer := loaded_writer bs\<rparr>) \<and> aside v t \<and> g_state t = g_state ?s1 \<and>
          em_read_callbacks t (cl_fd ?c) = Some None \<and>
          em_write_callbacks t (cl_fd ?c) = Some (Some (CbClientWrite cid cmd'))" by blast
  have run: "handleEvents dispatch (Events [(cl_fd c, True, False)]) s = (Inr (), t)"
    if "client_handle_message cid cmd ?s1 = (Inr (), t)" for t
    using that n(2) by (intro one_event)
      (simp add: call_at_def cb client_handle_read_def bindM_run get_client_run c getsM_run s1(1) tryM_run seqM_run
        mod_client_run c1(1) liftE_run)
  have eq: "d_serialize_response s1 = d_serialize_response s" "g_state s1 = g_state s"
    using s1(3) by (simp_all add: apart_def)
  show ?thesis
  proof (rule exI [of _ u], intro conjI allI impI)
    show "h_jobs u = h_jobs s" "m_jobs u = m_jobs s" "m_config u = m_config s" "g_state u = g_state s"
      using u s1(2) eq(2) by (simp_all add: aside_def apart_def)
    fix v response cmd' bs
    assume "answer_of cmd (fst (onCommand cmd u)) = Some (response, cmd')" and "v = snd (onCommand cmd u)"
      and "d_serialize_response s response = Some bs"
    with served [of response cmd' v bs] eq(1) obtain t where t: "client_handle_message cid cmd ?s1 = (Inr (), t)"
      "h_clients t = (h_clients s)(cid \<mapsto> c\<lparr>cl_reader := r', cl_writer := loaded_writer bs\<rparr>)" "aside v t"
      "g_state t = g_state s1" "em_read_callbacks t (cl_fd c) = Some None"
      "em_write_callbacks t (cl_fd c) = Some (Some (CbClientWrite cid cmd'))"
      using c1(2) by (auto simp del: fun_upd_apply)
    with run [OF t(1)] eq(2) show "\<exists>t. handleEvents dispatch (Events [(cl_fd c, True, False)]) s = (Inr (), t) \<and>
          h_clients t = (h_clients s)(cid \<mapsto> c\<lparr>cl_reader := r', cl_writer := loaded_writer bs\<rparr>) \<and>
          h_jobs t = h_jobs v \<and> m_jobs t = m_jobs v \<and> m_config t = m_config v \<and> g_state t = g_state s \<and>
          em_read_callbacks t (cl_fd c) = Some None \<and>
          em_write_callbacks t (cl_fd c) = Some (Some (CbClientWrite cid cmd'))"
      by (intro exI [of _ t]) (simp add: aside_def)
  qed
qed

text \<open>A client whose first command, \<open>status\<close> without arguments, arrives in one piece.\<close>

definition example_recv :: "nat \<Rightarrow> syscall \<Rightarrow> int" where
  "example_recv n c = (case c of SysRecv fd k \<Rightarrow> 5 | _ \<Rightarrow> good_kernel n c)"

definition example_client :: "(string \<times> doc) list \<Rightarrow> doc daemon" where
  "example_client jobs = (example_daemon jobs 0)\<lparr>w_ans := example_recv, w_data := (\<lambda>n k. if k = 3 then 1 else 0),
     h_clients := [0 \<mapsto> \<lparr>cl_fd = 7, cl_reader = reader_new, cl_writer = writer_new\<rparr>],
     em_read_callbacks := [7 \<mapsto> Some (CbClientRead 0)], d_parse_command := (\<lambda>b. Some \<lparr>cmd_type = STATUS, cmd_args = []\<rparr>)\<rparr>"

lemma example_recv_ok: "kernel_ok example_recv"
  using good_kernel_ok by (auto simp: kernel_ok_def example_recv_def split: syscall.splits)

lemma example_client_sel:
  "kernel_ok (w_ans (example_client jobs))" "w_ans (example_client jobs) n (SysRecv fd k) = 5"
  "w_data (example_client jobs) = (\<lambda>n k. if k = 3 then 1 else 0)"
  "h_clients (example_client jobs) = [0 \<mapsto> \<lparr>cl_fd = 7, cl_reader = reader_new, cl_writer = writer_new\<rparr>]"
  "em_read_callbacks (example_client jobs) = [7 \<mapsto> Some (CbClientRead 0)]"
  "d_parse_command (example_client jobs) = (\<lambda>b. Some \<lparr>cmd_type = STATUS, cmd_args = []\<rparr>)"
  "d_serialize_response (example_client jobs) = (\<lambda>r. Some [])" "m_jobs (example_client jobs) = []"
  by (simp_all add: example_client_def example_daemon_def example_recv_ok) (simp add: example_recv_def)

theorem command_served_witness:
  "\<exists>t. handleEvents dispatch (Events [(7, True, False)]) (example_client []) = (Inr (), t) \<and>
     h_clients t = [0 \<mapsto> \<lparr>cl_fd = 7, cl_reader = reader_new, cl_writer = loaded_writer []\<rparr>] \<and>
     em_write_callbacks t 7 = Some (Some (CbClientWrite 0 \<lparr>cmd_type = STATUS, cmd_args = []\<rparr>))"
proof -
  let ?s = "example_client []" and ?c = "\<lparr>cl_fd = 7, cl_reader = reader_new, cl_writer = writer_new\<rparr>"
    and ?cmd = "\<lparr>cmd_type = STATUS, cmd_args = []\<rparr>"
  have "reader_feed (d_parse_command ?s) (cl_reader ?c) (map (w_data ?s (w_clock ?s)) [0..<nat 5]) =
      (Inr (Some ?cmd), reader_new)"
    by (simp add: example_client_sel reader_feed_def reader_new_def ntohl_bytes_def upt_rec)
  from command_served [OF example_client_sel(1) _ _ _ _ _ this, of 0] obtain u :: "doc daemon"
    where u: "m_jobs u = m_jobs ?s" and served: "\<forall>v response cmd' bs.
       answer_of ?cmd (fst (onCommand ?cmd u)) = Some (response, cmd') \<longrightarrow> v = snd (onCommand ?cmd u) \<longrightarrow>
       d_serialize_response ?s response = Some bs \<longrightarrow>
       (\<exists>t. handleEvents dispatch (Events [(cl_fd ?c, True, False)]) ?s = (Inr (), t) \<and>
          h_clients t = (h_clients ?s)(0 \<mapsto> ?c\<lparr>cl_reader := reader_new, cl_writer := loaded_writer bs\<rparr>) \<and>
          h_jobs t = h_jobs v \<and> m_jobs t = m_jobs v \<and> m_config t = m_config v \<and> g_state t = g_state ?s \<and>
          em_read_callbacks t (cl_fd ?c) = Some None \<and>
          em_write_callbacks t (cl_fd ?c) = Some (Some (CbClientWrite 0 cmd')))"
    by (auto simp: example_client_sel simp del: handleEvents.simps)
  obtain msg where "onCommand ?cmd u = (Inr (\<lparr>res_status = OK, res_message = msg\<rparr>, ?cmd), u)"
    using u by (simp add: example_client_sel onCommand_def parseCommand_def Let_def manager_status_all_def
        respond_def run_simps)
  with served show ?thesis by (simp add: example_client_sel del: handleEvents.simps) blast
qed

section \<open>Sending the answer\<close>

text \<open>\<open>k\<close> events that say the client's socket can be written.\<close>

definition write_ready :: "int \<Rightarrow> nat \<Rightarrow> ('n, unit) dprog" where
  "write_ready fd k = forM (\<lambda>_. handleEvents dispatch (Events [(fd, False, True)])) (replicate k ())"

text \<open>The answer is out: the client is read again, and a \<open>terminate\<close> command has ended the daemon.\<close>

definition answered :: "nat \<Rightarrow> client \<Rightarrow> command \<Rightarrow> 'n daemon \<Rightarrow> 'n daemon \<Rightarrow> bool" where
  "answered cid c cmd s t \<longleftrightarrow> h_clients t = (h_clients s)(cid \<mapsto> c\<lparr>cl_writer := writer_new\<rparr>) \<and>
     em_read_callbacks t (cl_fd c) = Some (Some (CbClientRead cid)) \<and> em_write_callbacks t (cl_fd c) = Some None \<and>
     g_state t = (if cmd_type cmd = TERMINATE then G_TERMINATED else g_state s) \<and>
     h_jobs t = h_jobs s \<and> m_jobs t = m_jobs s \<and> m_config t = m_config s"

lemma writer_clear_new: "writer_clear w = writer_new" for w :: writer
  by (cases w) (simp add: writer_clear_def writer_new_def)

text \<open>The writer's step with the bytes it offers the kernel named.\<close>

lemma writer_write_steps:
  "\<not> pw_size_written w \<Longrightarrow> writer_write fd w =
     bindM (sys (SysSend fd (htonl_bytes (of_nat (length (pw_message w)))))) (\<lambda>k.
        if k = -1
        then throwM (StdExn ''Failed to send the message size, is the socket still open?'')
        else seqM (logM LT_Debug (''Successfully sent a message size of ''
                     @ to_string (int (length (pw_message w))) @ '' bytes''))
               (returnM (False, w\<lparr>pw_size_written := True\<rparr>)))"
  "pw_size_written w \<Longrightarrow> pw_bytes_written w = int (length (pw_message w)) \<Longrightarrow> writer_write fd w =
     seqM (logM LT_Debug ''Message already fully sent'') (returnM (True, w))"
  "pw_size_written w \<Longrightarrow> pw_bytes_written w \<noteq> int (length (pw_message w)) \<Longrightarrow> writer_write fd w =
     bindM (sys (SysSend fd (next_chunk w))) (\<lambda>k.
        if k = -1
        then throwM (StdExn ''Failed to send the command message, is the socket still open?'')
        else if pw_bytes_written w + k = int (length (pw_message w))
        then seqM (logM LT_Debug ''Successfully sent an entire message'')
               (returnM (True, writer_clear (w\<lparr>pw_bytes_written := pw_bytes_written w + k\<rparr>)))
        else seqM (logM LT_Debug (''Successfully sent '' @ to_string k @ '' amount of bytes''))
               (returnM (False, w\<lparr>pw_bytes_written := pw_bytes_written w + k\<rparr>)))"
  unfolding writer_write_def next_chunk_def remaining_def Let_def by (simp_all cong: if_cong)

lemma writer_write_apart:
  "writer_write fd w s = (r, t) \<Longrightarrow> aside s t \<and> apart s t \<and> em_write_callbacks t = em_write_callbacks s"
  by (cases "pw_size_written w"; cases "pw_bytes_written w = int (length (pw_message w))")
    (auto simp: writer_write_steps bindM_run seqM_run sys_run logM_run returnM_run throwM_run aside_def apart_def
      split: if_splits)

lemma write_event:
  assumes c: "h_clients s cid = Some c" and fd: "cl_fd c = fd"
    and cb: "em_write_callbacks s fd = Some (Some (CbClientWrite cid cmd))"
    and w: "writer_write fd (cl_writer c) s = (Inr (False, w'), s1)"
  shows "handleEvents dispatch (Events [(fd, False, True)]) s =
     (Inr (), s1\<lparr>h_clients := (h_clients s)(cid \<mapsto> c\<lparr>cl_writer := w'\<rparr>)\<rparr>)"
proof -
  have "h_clients s1 = h_clients s" using writer_write_apart [OF w] by (simp add: apart_def)
  then show ?thesis
    using c by (simp add: handleEvent_def bindM_run seqM_run getsM_run tryM_run returnM_run whenM_def call_at_def cb
      client_handle_write_def get_client_run fd w set_writer_def mod_client_run)
qed

lemma last_write_event:
  assumes ok: "kernel_ok (w_ans s)" and c: "h_clients s cid = Some c" and fd: "cl_fd c = fd"
    and cb: "em_write_callbacks s fd = Some (Some (CbClientWrite cid cmd))"
    and w: "writer_write fd (cl_writer c) s = (Inr (True, w'), s1)"
  shows "\<exists>t. handleEvents dispatch (Events [(fd, False, True)]) s = (Inr (), t) \<and> answered cid c cmd s t \<and>
     sent_bytes fd (w_trace t) = sent_bytes fd (w_trace s1)"
proof -
  let ?c = "c\<lparr>cl_writer := w'\<rparr>"
  let ?s2 = "s1\<lparr>h_clients := (h_clients s)(cid \<mapsto> ?c)\<rparr>"
  note a = writer_write_apart [OF w, unfolded aside_def apart_def]
  have "kernel_ok (w_ans ?s2)" using ok a by simp
  from unregister_ok_run [OF this] obtain s3 where s3: "unregisterEvent fd ?s2 = (Inr (), s3)" "aside ?s2 s3" "apart ?s2 s3"
    "sent_bytes fd (w_trace s3) = sent_bytes fd (w_trace ?s2)" by blast
  have "kernel_ok (w_ans s3)" using ok a s3(3) by (simp add: apart_def)
  from register_ok_run [OF this] obtain s4 where s4: "registerEvent fd (Some (CbClientRead cid)) None s3 = (Inr (), s4)"
    "aside s3 s4" "apart s3 s4" "em_read_callbacks s4 = (em_read_callbacks s3)(fd \<mapsto> Some (CbClientRead cid))"
    "em_write_callbacks s4 = (em_write_callbacks s3)(fd \<mapsto> None)" "sent_bytes fd (w_trace s4) = sent_bytes fd (w_trace s3)"
    by blast
  have s4c: "h_clients s4 = (h_clients s)(cid \<mapsto> ?c)" "g_state s4 = g_state s" "h_jobs s4 = h_jobs s" "m_jobs s4 = m_jobs s"
    "m_config s4 = m_config s"
    using a s3(2,3) s4(2,3) by (simp_all add: aside_def apart_def)
  let ?t = "(if cmd_type cmd = TERMINATE then g_state_update (\<lambda>_. G_TERMINATED) else id)
      (s4\<lparr>h_clients := (h_clients s)(cid \<mapsto> c\<lparr>cl_writer := writer_new\<rparr>)\<rparr>)"
  have "handleEvents dispatch (Events [(fd, False, True)]) s = (Inr (), ?t)"
    using a s4c(1) s3(1) s4(1) c
    by (simp add: handleEvent_def bindM_run seqM_run getsM_run tryM_run returnM_run whenM_def call_at_def cb
      client_handle_write_def get_client_run fd w set_writer_def mod_client_run client_registers_def writer_clear_new
      modifyM_run)
  moreover have "answered cid c cmd s ?t" using s4 s4c fd by (simp add: answered_def)
  moreover have "sent_bytes fd (w_trace ?t) = sent_bytes fd (w_trace s1)" using s3(4) s4(6) by simp
  ultimately show ?thesis by blast
qed

lemma writer_write_clients:
  "writer_write fd w (s\<lparr>h_clients := h\<rparr>) =
     (case writer_write fd w s of (r, s') \<Rightarrow> (r, s'\<lparr>h_clients := h\<rparr>))"
  by (cases "pw_size_written w"; cases "pw_bytes_written w = int (length (pw_message w))")
    (simp_all add: writer_write_steps bindM_run seqM_run sys_run logM_run returnM_run throwM_run)

lemma write_until_clients:
  "write_until fuel fd w s = (r, s') \<Longrightarrow> write_until fuel fd w (s\<lparr>h_clients := h\<rparr>) = (r, s'\<lparr>h_clients := h\<rparr>)"
  by (induction fuel arbitrary: w s)
    (auto simp: returnM_run bindM_run writer_write_clients split: prod.splits sum.splits)

text \<open>The events carry out the loop \<open>while (!writer.write(socket))\<close>, one call each.\<close>

lemma write_events:
  assumes "kernel_ok (w_ans s)" and "h_clients s cid = Some c" and "cl_fd c = fd"
    and "em_write_callbacks s fd = Some (Some (CbClientWrite cid cmd))"
    and "write_until fuel fd (cl_writer c) s = (Inr (Some w'), s')"
  shows "\<exists>k t. k \<le> fuel \<and> write_ready fd k s = (Inr (), t) \<and> answered cid c cmd s t \<and>
     sent_bytes fd (w_trace t) = sent_bytes fd (w_trace s')"
  using assms
proof (induction fuel arbitrary: c s s')
  case 0
  then show ?case by (simp add: returnM_run)
next
  case (Suc fuel)
  obtain r s1 where w: "writer_write fd (cl_writer c) s = (r, s1)" by fastforce
  with Suc.prems(5) obtain d w1 where r: "r = Inr (d, w1)"
    by (cases r) (auto simp: bindM_run)
  from w r have w: "writer_write fd (cl_writer c) s = (Inr (d, w1), s1)" by (simp only:)
  show ?case
  proof (cases d)
    case True
    with w have w': "writer_write fd (cl_writer c) s = (Inr (True, w1), s1)" by (simp only:)
    with Suc.prems(5) have "s' = s1" by (simp add: bindM_run returnM_run)
    with last_write_event [OF Suc.prems(1-4) w'] obtain t where
      "handleEvents dispatch (Events [(fd, False, True)]) s = (Inr (), t)" "answered cid c cmd s t"
      "sent_bytes fd (w_trace t) = sent_bytes fd (w_trace s')" by blast
    then show ?thesis
      by (intro exI [of _ "1 :: nat"] exI [of _ t])
        (simp add: write_ready_def seqM_run returnM_run del: handleEvents.simps)
  next
    case False
    let ?c = "c\<lparr>cl_writer := w1\<rparr>" and ?s = "s1\<lparr>h_clients := (h_clients s)(cid \<mapsto> c\<lparr>cl_writer := w1\<rparr>)\<rparr>"
    from w False have w: "writer_write fd (cl_writer c) s = (Inr (False, w1), s1)" by (simp only:)
    note a = writer_write_apart [OF w, unfolded aside_def apart_def]
    from Suc.prems(5) w have "write_until fuel fd (cl_writer ?c) s1 = (Inr (Some w'), s')"
      by (simp add: bindM_run)
    from write_until_clients [OF this] have "write_until fuel fd (cl_writer ?c) ?s =
        (Inr (Some w'), s'\<lparr>h_clients := (h_clients s)(cid \<mapsto> ?c)\<rparr>)" .
    moreover have "kernel_ok (w_ans ?s)" "h_clients ?s cid = Some ?c" "cl_fd ?c = fd"
      "em_write_callbacks ?s fd = Some (Some (CbClientWrite cid cmd))"
      using Suc.prems(1,3,4) a by simp_all
    ultimately obtain k t where k: "k \<le> fuel"
      "write_ready fd k ?s = (Inr (), t)" "answered cid ?c cmd ?s t"
      "sent_bytes fd (w_trace t) = sent_bytes fd (w_trace s')" using Suc.IH [of ?s ?c] by fastforce
    have "write_ready fd (Suc k) s = (Inr (), t)"
      using write_event [OF Suc.prems(2-4) w] k(2)
      by (simp add: write_ready_def seqM_run del: handleEvents.simps)
    moreover have "answered cid c cmd s t" using k(3) a by (simp add: answered_def)
    ultimately show ?thesis using k(1,4) by (intro exI [of _ "Suc k"] exI [of _ t]) simp
  qed
qed

text \<open>
  C17. The answer is sent: while the kernel's calls succeed and every send takes at least a byte, at
  most \<open>length bs + 2\<close> events that the client's socket can be written put the frame of the answer
  on that socket, and nothing else; then the writer is as new, the client is polled for reading again, the
  jobs are untouched, and the daemon is told to terminate just when the command was \<open>terminate\<close>.
\<close>

theorem answer_sent:
  fixes s :: "'n daemon"
  assumes "kernel_ok (w_ans s)" and "sends_progress (cl_fd c) s" and "h_clients s cid = Some c"
    and "cl_writer c = loaded_writer bs"
    and "em_write_callbacks s (cl_fd c) = Some (Some (CbClientWrite cid cmd))"
  shows "\<exists>k t. k \<le> length bs + 2 \<and> write_ready (cl_fd c) k s = (Inr (), t) \<and> answered cid c cmd s t \<and>
     sent_bytes (cl_fd c) (w_trace t) = sent_bytes (cl_fd c) (w_trace s) @ frame bs"
proof -
  obtain w' s' where "write_until (length bs + 2) (cl_fd c) (cl_writer c) s = (Inr (Some w'), s')"
    and sent: "sent_bytes (cl_fd c) (w_trace s') = sent_bytes (cl_fd c) (w_trace s) @ frame bs"
    unfolding assms(4)
    using write_until_frame [OF writer_init_loaded [of Some bs] _ assms(2) order_refl] by blast
  from write_events [OF assms(1,3) refl assms(5) this(1)] show ?thesis unfolding sent .
qed

theorem answer_sent_witness:
  "\<exists>k t. write_ready 7 k ((example_daemon [] 0)\<lparr>
        h_clients := [0 \<mapsto> \<lparr>cl_fd = 7, cl_reader = reader_new, cl_writer = loaded_writer [8, 0]\<rparr>],
        em_write_callbacks := [7 \<mapsto> Some (CbClientWrite 0 \<lparr>cmd_type = TERMINATE, cmd_args = []\<rparr>)]\<rparr>) = (Inr (), t) \<and>
     g_state t = G_TERMINATED \<and> sent_bytes 7 (w_trace t) = [0, 0, 0, 2, 8, 0]"
proof -
  let ?c = "\<lparr>cl_fd = 7, cl_reader = reader_new, cl_writer = loaded_writer [8, 0]\<rparr>"
  let ?s = "(example_daemon [] 0)\<lparr>h_clients := [0 \<mapsto> ?c],
     em_write_callbacks := [7 \<mapsto> Some (CbClientWrite 0 \<lparr>cmd_type = TERMINATE, cmd_args = []\<rparr>)]\<rparr>"
  have "sends_progress (cl_fd ?c) ?s" by (auto simp: sends_progress_def Suc_le_eq)
  with answer_sent [of ?s ?c 0 "[8, 0]" "\<lparr>cmd_type = TERMINATE, cmd_args = []\<rparr>"] show ?thesis
    by (auto simp: good_kernel_ok answered_def frame_def htonl_bytes_def)
qed

end
