(* ===== verification/Client_Safety.thy ===== *)
theory Client_Safety
  imports Command_Safety Conversation
begin

text \<open>
  The handlers of the server and its clients keep every closure in the registry referring to a live
  object and reach no destroyed one, \<^verbatim>\<open>taskmasterd/src/ipc/Client.cpp\<close> and
  \<^verbatim>\<open>taskmasterd/src/ipc/Server.cpp\<close>.
\<close>

section \<open>Clients on the heap\<close>

lemma objects_with_clients:
  assumes ok: "ok_objects s" and live: "\<forall>cid \<in> set (s_clients s). h cid \<noteq> None" "\<forall>cid c. h cid = Some c \<longrightarrow> cid < w_next s"
    and cb: "\<And>fd cb cid. watched s fd cb \<Longrightarrow> cb = CbClientRead cid \<or> (\<exists>cmd. cb = CbClientWrite cid cmd) \<Longrightarrow>
      \<exists>c. h cid = Some c \<and> cl_fd c = fd"
  shows "ok_objects (s\<lparr>h_clients := h\<rparr>)" (is "ok_objects ?t")
proof -
  have same: "proc_at ?t = proc_at s" "watched ?t = watched s" by (simp_all add: proc_at_def watched_def fun_eq_iff)
  have "callback_ok ?t fd cb" if w: "watched s fd cb" for fd cb
  proof -
    have "callback_ok s fd cb" using w objects_ok_parts(5) [OF ok] by (simp add: callbacks_ok_def)
    with cb [OF w] show ?thesis by (cases cb) (auto simp: same)
  qed
  moreover have "heap_ok ?t" by (rule heap_ok_same [of _ s]) (use objects_ok_parts(2) [OF ok] in auto)
  moreover have "clients_ok ?t" using objects_ok_parts(3) [OF ok] live by (simp add: clients_ok_def)
  moreover have "idle_ok {} ?t = idle_ok {} s" by (simp add: idle_ok_def unwatched_def same)
  ultimately show ?thesis using objects_ok_parts [OF ok] same by (simp add: objects_ok_def frame_ok_def callbacks_ok_def)
qed

lemma objects_listed:
  assumes "ok_objects s" and "distinct cids" and "\<forall>cid \<in> set cids. h_clients s cid \<noteq> None"
  shows "ok_objects (s\<lparr>s_clients := cids\<rparr>)" (is "ok_objects ?t")
proof -
  have same: "proc_at ?t = proc_at s" "watched ?t = watched s" by (simp_all add: proc_at_def watched_def fun_eq_iff)
  have "callback_ok ?t fd cb = callback_ok s fd cb" for fd cb by (cases cb) (simp_all add: same)
  moreover have "heap_ok ?t" by (rule heap_ok_same [of _ s]) (use objects_ok_parts(2) [OF assms(1)] in auto)
  moreover have "clients_ok ?t" using objects_ok_parts(3) [OF assms(1)] assms(2,3) by (simp add: clients_ok_def)
  moreover have "idle_ok {} ?t = idle_ok {} s" by (simp add: idle_ok_def unwatched_def same)
  ultimately show ?thesis
    using objects_ok_parts [OF assms(1)] same by (simp add: objects_ok_def frame_ok_def callbacks_ok_def)
qed

text \<open>A client that owns the descriptor.\<close>

definition held :: "nat \<Rightarrow> int \<Rightarrow> 'n daemon \<Rightarrow> bool" where
  "held cid fd s \<longleftrightarrow> ok_objects s \<and> (\<exists>c. h_clients s cid = Some c \<and> cl_fd c = fd)"

definition unlisted :: "int \<Rightarrow> 'n daemon \<Rightarrow> bool" where
  "unlisted fd s \<longleftrightarrow> (\<forall>cb. \<not> watched s fd cb)"

lemma held_objects [intro]: "of_objects (held cid fd)" "of_objects (unlisted fd)"
proof -
  have "of_objects (\<lambda>s. \<exists>c. h_clients s cid = Some c \<and> cl_fd c = fd)" by (auto simp: of_objects_def same_objects_def)
  then show "of_objects (held cid fd)" unfolding held_def by (intro of_objects_conj of_objects_intros)
  show "of_objects (unlisted fd)" by (auto simp: of_objects_def unlisted_def same_objects_parts)
qed

lemma spec_get_client:
  assumes "\<And>c. spec (\<lambda>s. P s \<and> h_clients s cid = Some c) (f c) R E" and "\<And>s. P s \<Longrightarrow> h_clients s cid \<noteq> None"
  shows "spec P (bindM (get_client cid) f) R E"
proof (rule spec_bind [OF _ assms(1)])
  show "spec P (get_client cid) (\<lambda>c s. P s \<and> h_clients s cid = Some c) E"
    using assms(2) by (fastforce simp: spec_def get_client_run split: option.split)
qed

lemma watched_owner:
  assumes "ok_objects s" and "watched s fd cb" and "cb = CbClientRead cid \<or> (\<exists>cmd. cb = CbClientWrite cid cmd)"
  shows "\<exists>c. h_clients s cid = Some c \<and> cl_fd c = fd \<and> fd \<noteq> -1"
proof -
  have "callback_ok s fd cb" using assms(1,2) by (simp add: objects_ok_def callbacks_ok_def)
  with assms(3) show ?thesis by auto
qed

lemma mod_client_spec:
  fixes E :: "'n daemon \<Rightarrow> bool"
  assumes "\<And>c. cl_fd (f c) = cl_fd c"
  shows "spec (held cid fd) (mod_client cid f) (\<lambda>_. held cid fd) E"
proof (rule specI)
  fix s t :: "'n daemon" and r
  assume s: "held cid fd s" and run: "mod_client cid f s = (r, t)"
  then have t: "r = Inr ()" "t = s\<lparr>h_clients := (h_clients s)(cid := map_option f (h_clients s cid))\<rparr>"
    by (simp_all add: mod_client_run)
  have "ok_objects s" using s by (simp add: held_def)
  then have "ok_objects t"
    unfolding t using objects_ok_parts(3) [of "{}" s] assms
    by (intro objects_with_clients) (auto simp: clients_ok_def dest: watched_owner)
  with s show "case r of Inr x \<Rightarrow> held cid fd t | Inl e \<Rightarrow> \<not> dangling e \<and> (\<forall>w. e = StdExn w \<longrightarrow> E t)"
    using assms by (auto simp: held_def t)
qed

lemma client_unregister_spec:
  fixes E :: "'n daemon \<Rightarrow> bool"
  shows "spec (held cid fd) (unregisterEvent fd') (\<lambda>_ s. held cid fd s \<and> unlisted fd' s) E"
proof (rule specI)
  fix s t :: "'n daemon" and r
  assume s: "held cid fd s" and run: "unregisterEvent fd' s = (r, t)"
  obtain u where u: "unregisterEvent fd' s = (Inr (), u)" "dropped {fd'} s u"
    using unregister_run [OF objects_ok_parts(1) [of "{}" s]] s unfolding held_def by blast
  with s run show "case r of Inr x \<Rightarrow> held cid fd t \<and> unlisted fd' t | Inl e \<Rightarrow> \<not> dangling e \<and> (\<forall>w. e = StdExn w \<longrightarrow> E t)"
    by (auto simp: held_def unlisted_def dropped_parts objects_dropped)
qed

lemma objects_registered:
  assumes t: "registered fd cb s t" and ok: "objects_ok X s" and cb: "callback_ok s fd cb" and "\<And>jid i. cb \<noteq> CbProcess jid i"
  shows "objects_ok X t"
proof -
  have "frame_ok X t" by (rule frame_registered [OF t objects_ok_parts(6) [OF ok]]) (simp add: assms(4))
  moreover have "callback_ok t fd' cb'" if "watched t fd' cb'" for fd' cb'
    using that cb objects_ok_parts(5) [OF ok]
    by (auto simp: callback_ok_registered [OF t] registered_parts(2) [OF t] callbacks_ok_def split: if_splits)
  ultimately show ?thesis by (simp add: objects_ok_def callbacks_ok_def)
qed

lemma register_write_run:
  assumes "resources_ok (w_ans s)"
  shows "\<exists>t. registerEvent fd None (Some cb) s = (Inr (), t) \<and> registered fd cb s t"
  using assms
  by (auto simp: registerEvent_def updateEventInternal_def Let_def run_simps resources_ok_def registered_def watched_def)

lemma client_register_spec:
  fixes E :: "'n daemon \<Rightarrow> bool"
  assumes "fd \<noteq> -1"
  shows "spec (held cid fd) (registerEvent fd (Some (CbClientRead cid)) None) (\<lambda>_. held cid fd) E"
    and "spec (held cid fd) (registerEvent fd None (Some (CbClientWrite cid cmd))) (\<lambda>_. held cid fd) E"
proof -
  have held: "held cid fd t" if s: "held cid fd s" and t: "registered fd cb s t" "cb = CbClientRead cid \<or> cb = CbClientWrite cid cmd"
    for s t :: "'n daemon" and cb
  proof -
    have "callback_ok s fd cb" using s t(2) assms by (auto simp: held_def)
    with objects_registered [OF t(1)] s t(2) show ?thesis by (auto simp: held_def registered_parts(6) [OF t(1)])
  qed
  show "spec (held cid fd) (registerEvent fd (Some (CbClientRead cid)) None) (\<lambda>_. held cid fd) E"
  proof (rule specI)
    fix s t :: "'n daemon" and r
    assume s: "held cid fd s" and run: "registerEvent fd (Some (CbClientRead cid)) None s = (r, t)"
    have "resources_ok (w_ans s)" using s objects_ok_parts(1) [of "{}" s] by (simp add: held_def)
    from register_run [OF this, of fd "CbClientRead cid"] run held [OF s]
    show "case r of Inr x \<Rightarrow> held cid fd t | Inl e \<Rightarrow> \<not> dangling e \<and> (\<forall>w. e = StdExn w \<longrightarrow> E t)" by auto
  qed
  show "spec (held cid fd) (registerEvent fd None (Some (CbClientWrite cid cmd))) (\<lambda>_. held cid fd) E"
  proof (rule specI)
    fix s t :: "'n daemon" and r
    assume s: "held cid fd s" and run: "registerEvent fd None (Some (CbClientWrite cid cmd)) s = (r, t)"
    have "resources_ok (w_ans s)" using s objects_ok_parts(1) [of "{}" s] by (simp add: held_def)
    from register_write_run [OF this, of fd "CbClientWrite cid cmd"] run held [OF s]
    show "case r of Inr x \<Rightarrow> held cid fd t | Inl e \<Rightarrow> \<not> dangling e \<and> (\<forall>w. e = StdExn w \<longrightarrow> E t)" by auto
  qed
qed

section \<open>A client's life\<close>

lemma client_new_spec:
  "spec (\<lambda>s :: 'n daemon. ok_objects s \<and> fd \<noteq> -1) (client_new fd)
     (\<lambda>cid s. ok_objects s \<and> h_clients s cid \<noteq> None \<and> cid \<notin> set (s_clients s)) E"
proof (rule specI, elim conjE)
  fix s t :: "'n daemon" and r
  assume ok: "ok_objects s" and fd: "fd \<noteq> -1" and run: "client_new fd s = (r, t)"
  let ?cid = "w_next s" and ?c = "\<lparr>cl_fd = fd, cl_reader = reader_new, cl_writer = writer_new\<rparr>"
  let ?s = "s\<lparr>w_next := Suc ?cid\<rparr>"
  let ?u = "?s\<lparr>h_clients := (h_clients s)(?cid \<mapsto> ?c)\<rparr>"
  have "same_objects s ?s" by (simp add: same_objects_def)
  then have s: "ok_objects ?s" using ok of_objectsD [OF of_objects_intros(1)] by blast
  have "h_clients s cid = Some c \<Longrightarrow> cid < ?cid" for cid c using objects_ok_parts(3) [OF ok] by (simp add: clients_ok_def)
  then have free: "h_clients s ?cid = None" and old: "\<forall>cid c. h_clients s cid = Some c \<longrightarrow> cid < Suc ?cid"
    by (fastforce, fastforce)
  have "ok_objects ?u"
    by (rule objects_with_clients [OF s])
      (use objects_ok_parts(3) [OF s] old free in \<open>auto simp: clients_ok_def dest: watched_owner [OF s]\<close>)
  obtain v where v: "registerEvent fd (Some (CbClientRead ?cid)) None ?s = (Inr (), v)" "registered fd (CbClientRead ?cid) ?s v"
    using register_run [OF objects_ok_parts(1) [OF s]] by blast
  obtain k where rt: "r = Inr ?cid" "t = v\<lparr>w_sinks := k, h_clients := (h_clients v)(?cid \<mapsto> ?c)\<rparr>"
    using run v(1) by (auto simp: client_new_def client_registers_def unwindM_def fresh_id_def run_simps)
  have "watched t = watched v" "watched ?u = watched ?s" by (simp_all add: rt(2) watched_def fun_eq_iff)
  with v(2) have reg: "registered fd (CbClientRead ?cid) ?u t" by (simp add: registered_def rt(2))
  have "ok_objects t"
    by (rule objects_registered [OF reg \<open>ok_objects ?u\<close>]) (simp_all add: fd)
  moreover have "?cid \<notin> set (s_clients t)"
    using objects_ok_parts(3) [OF ok] free reg by (auto simp: registered_def clients_ok_def)
  ultimately show "case r of Inr cid \<Rightarrow> ok_objects t \<and> h_clients t cid \<noteq> None \<and> cid \<notin> set (s_clients t)
      | Inl e \<Rightarrow> \<not> dangling e \<and> (\<forall>w. e = StdExn w \<longrightarrow> E t)"
    by (simp add: rt)
qed

lemma client_destroy_run:
  fixes s :: "'n daemon"
  assumes ok: "ok_objects s" and c: "h_clients s cid = Some c" and out: "cid \<notin> set (s_clients s)"
  shows "\<exists>t. client_destroy cid s = (Inr (), t) \<and> ok_objects t \<and> h_clients t = (h_clients s)(cid := None) \<and>
     s_clients t = s_clients s"
proof -
  obtain a where a: "whenM (is_connected c) (unregisterEvent (cl_fd c)) s = (Inr (), a)"
    "dropped (if is_connected c then {cl_fd c} else {}) s a"
    using unregister_run [OF objects_ok_parts(1) [OF ok], of "cl_fd c"]
    by (cases "is_connected c") (auto simp: whenM_run dropped_same so.eff_refl)
  obtain b where b: "fd_destroy (cl_fd c) a = (Inr (), b)" "same_objects a b" using fd_destroy_run by blast
  have d: "dropped (if is_connected c then {cl_fd c} else {}) s b"
    using dropped_trans [OF a(2) dropped_same [OF b(2)]] by simp
  let ?t = "b\<lparr>h_clients := (h_clients b)(cid := None)\<rparr>"
  have "ok_objects b" by (rule objects_dropped [OF d ok])
  moreover have "k \<noteq> cid" if "watched b fd cb" "cb = CbClientRead k \<or> (\<exists>cmd. cb = CbClientWrite k cmd)" for fd cb k
  proof
    assume k: "k = cid"
    from that(1) d have w: "watched s fd cb" "fd \<notin> (if is_connected c then {cl_fd c} else {})" by (simp_all add: dropped_parts(2) [OF d])
    from watched_owner [OF ok w(1) that(2)] k c w(2) show False by (auto simp: is_connected_def)
  qed
  ultimately have "ok_objects ?t"
    using objects_ok_parts(3) [of "{}" b] out d
    by (intro objects_with_clients) (auto simp: clients_ok_def dropped_parts dest: watched_owner)
  moreover have "client_destroy cid s = (Inr (), ?t)"
    using a(1) b(1) c by (simp add: client_destroy_def noexceptM_run bindM_run seqM_run get_client_run modifyM_run)
  ultimately show ?thesis using d by (simp add: dropped_parts)
qed

lemma destroy_clients_spec:
  "spec (\<lambda>s :: 'n daemon. ok_objects s \<and> distinct cids \<and> (\<forall>cid \<in> set cids. h_clients s cid \<noteq> None \<and> cid \<notin> set (s_clients s)))
     (forM client_destroy cids) (\<lambda>_. ok_objects) E"
proof -
  let ?P = "\<lambda>cids (s :: 'n daemon). ok_objects s \<and> distinct cids \<and> (\<forall>cid \<in> set cids. h_clients s cid \<noteq> None \<and> cid \<notin> set (s_clients s))"
  have "spec (?P cids) (forM client_destroy cids) (\<lambda>_. ?P []) E"
  proof (rule spec_for_rest, rule specI)
    fix cid rest r and s t :: "'n daemon"
    assume s: "?P (cid # rest) s" and run: "client_destroy cid s = (r, t)"
    then obtain c where "h_clients s cid = Some c" by auto
    with client_destroy_run [of s cid c] s run
    show "case r of Inr x \<Rightarrow> ?P rest t | Inl e \<Rightarrow> \<not> dangling e \<and> (\<forall>w. e = StdExn w \<longrightarrow> E t)" by auto
  qed
  then show ?thesis by (rule spec_conseq) auto
qed

lemma client_close_spec:
  "spec (\<lambda>s :: 'n daemon. held cid fd s \<and> unlisted fd s) (client_close cid) (\<lambda>_. ok_objects) E"
proof (rule specI, elim conjE)
  fix s t :: "'n daemon" and r
  assume s: "held cid fd s" "unlisted fd s" and run: "client_close cid s = (r, t)"
  then obtain c where c: "h_clients s cid = Some c" "cl_fd c = fd" and ok: "ok_objects s" by (auto simp: held_def)
  obtain a where a: "fd_destroy fd s = (Inr (), a)" "same_objects s a" using fd_destroy_run by blast
  have "ok_objects a" "unlisted fd a" "h_clients a = h_clients s"
    using a(2) ok s(2) of_objectsD [OF of_objects_intros(1)] of_objectsD [OF held_objects(2)]
    by (blast, blast, simp add: same_objects_def)
  moreover have t: "r = Inr ()" "t = a\<lparr>h_clients := (h_clients a)(cid := map_option (\<lambda>c. c\<lparr>cl_fd := -1\<rparr>) (h_clients a cid))\<rparr>"
    using run c a(1) by (simp_all add: client_close_def bindM_run seqM_run get_client_run mod_client_run)
  ultimately have "ok_objects t"
    unfolding t(2) using objects_ok_parts(3) [of "{}" a] c
    by (intro objects_with_clients) (auto simp: clients_ok_def unlisted_def dest: watched_owner)
  then show "case r of Inr x \<Rightarrow> ok_objects t | Inl e \<Rightarrow> \<not> dangling e \<and> (\<forall>w. e = StdExn w \<longrightarrow> E t)" by (simp add: t(1))
qed

lemma client_drop_spec: "spec (held cid fd) (client_drop cid fd) (\<lambda>_. ok_objects) E" for E :: "'n daemon \<Rightarrow> bool"
  unfolding client_drop_def by (rule spec_seq [OF client_unregister_spec client_close_spec])

end
