(* ===== verification/Server_Safety.thy ===== *)
theory Server_Safety
  imports Client_Safety
begin

text \<open>
  The handlers that serve a client, accept one and take the server down keep every closure in the registry
  referring to a live object and reach no destroyed one.
\<close>

section \<open>Messages\<close>

lemma lift_spec:
  assumes "\<And>s e. P s \<Longrightarrow> r = Inl e \<Longrightarrow> \<not> dangling e"
  shows "spec P (liftE r) (\<lambda>x s. P s \<and> r = Inr x) P"
  using assms by (auto simp: spec_def liftE_run split: sum.split)

lemma command_held: "spec (held cid fd) (onCommand cmd) (\<lambda>_. held cid fd) (held cid fd)"
proof -
  have "apart s t \<Longrightarrow> \<exists>c. h_clients s cid = Some c \<and> cl_fd c = fd \<Longrightarrow> \<exists>c. h_clients t cid = Some c \<and> cl_fd c = fd"
    for s t :: "'n daemon" by (simp add: apart_def)
  from spec_frame [OF onCommand_spec ap.cmds.onCommand_R this] show ?thesis
    by (rule spec_conseq) (auto simp: held_def)
qed

lemma init_response_spec:
  "spec (held cid fd) (writer_init_response cid response) (\<lambda>_. held cid fd) (held cid fd)"
  unfolding writer_init_response_def
proof (rule spec_get_client, rule spec_gets)
  fix c :: client and serialize :: "response \<Rightarrow> bytes option"
  have "calm (liftE (writer_init serialize response (cl_writer c)))"
    by (auto simp: calm_def liftE_run same_objects_def writer_init_def split: if_splits option.splits)
  then have "spec (held cid fd) (bindM (liftE (writer_init serialize response (cl_writer c))) (set_writer cid))
      (\<lambda>_. held cid fd) (held cid fd)"
    by (rule spec_calm_bind) (auto simp: set_writer_def intro: mod_client_spec)
  then show "spec (\<lambda>s :: 'n daemon. (held cid fd s \<and> h_clients s cid = Some c) \<and> serialize = d_serialize_response s)
      (bindM (liftE (writer_init serialize response (cl_writer c))) (set_writer cid)) (\<lambda>_. held cid fd) (held cid fd)"
    by (rule spec_pre) auto
qed (auto simp: held_def)

lemma handle_message_spec:
  assumes fd: "fd \<noteq> -1"
  shows "spec (held cid fd) (client_handle_message cid command) (\<lambda>_. held cid fd) (held cid fd)"
  unfolding client_handle_message_def
proof (rule spec_get_client, rule spec_gets)
  fix c :: client and debug :: "command \<Rightarrow> string"
  let ?carry = "tryM (bindM (onCommand command) (\<lambda>(response, command').
               tryM (seqM (writer_init_response cid response) (returnM (None, command')))
                 (\<lambda>w. returnM (Some w, command')))) (\<lambda>w. returnM (Some w, command))"
  let ?answer = "\<lambda>(failed, command'). seqM (case failed of
             None \<Rightarrow> returnM ()
           | Some w \<Rightarrow>
               seqM (mod_client cid (\<lambda>c. c\<lparr>cl_writer := writer_clear (cl_writer c)\<rparr>))
                 (writer_init_response cid \<lparr>res_status = ERROR, res_message = ''Internal daemon error: '' @ w\<rparr>))
       (registerEvent (cl_fd c) None (Some (CbClientWrite cid command')))"
  have "spec (held cid fd) (case x of (response, command') \<Rightarrow>
      tryM (seqM (writer_init_response cid response) (returnM (None, command'))) (\<lambda>w. returnM (Some w, command')))
      (\<lambda>_. held cid fd) (held cid fd)" for x
  proof (cases x)
    case (Pair response command')
    show ?thesis
      unfolding Pair prod.case by (rule spec_try, rule spec_seq [OF init_response_spec]) (auto intro: spec_return)
  qed
  from spec_bind [OF command_held this] have run: "spec (held cid fd) ?carry (\<lambda>_. held cid fd) (held cid fd)"
    by (rule spec_try) (auto intro: spec_return)
  have answer: "spec (held cid fd) (?answer x) (\<lambda>_. held cid fd) (held cid fd)" if c: "cl_fd c = fd" for x
  proof (cases x)
    case (Pair failed command')
    have "spec (held cid fd) (case failed of
             None \<Rightarrow> returnM ()
           | Some w \<Rightarrow>
               seqM (mod_client cid (\<lambda>c. c\<lparr>cl_writer := writer_clear (cl_writer c)\<rparr>))
                 (writer_init_response cid \<lparr>res_status = ERROR, res_message = ''Internal daemon error: '' @ w\<rparr>))
        (\<lambda>_. held cid fd) (held cid fd)"
      by (intro spec_option spec_return spec_seq [OF mod_client_spec init_response_spec]) auto
    then show ?thesis unfolding Pair prod.case c by (rule spec_seq [OF _ client_register_spec(2) [OF fd]])
  qed
  show "spec (\<lambda>s :: 'n daemon. (held cid fd s \<and> h_clients s cid = Some c) \<and> debug = d_debug_string s)
      (seqM (logM LT_Info (''Received command from client fd '' @ to_string (cl_fd c) @ '': '' @ debug command))
        (seqM (unregisterEvent (cl_fd c)) (bindM ?carry ?answer))) (\<lambda>_. held cid fd) (held cid fd)"
  proof (cases "cl_fd c = fd")
    case True
    have "spec (held cid fd) (seqM (unregisterEvent (cl_fd c)) (bindM ?carry ?answer)) (\<lambda>_. held cid fd) (held cid fd)"
      by (rule spec_seq [OF spec_conseq [OF client_unregister_spec] spec_bind [OF run answer [OF True]]]) auto
    then have "spec (held cid fd) (seqM (logM LT_Info (''Received command from client fd '' @ to_string (cl_fd c) @ '': '' @ debug command))
        (seqM (unregisterEvent (cl_fd c)) (bindM ?carry ?answer))) (\<lambda>_. held cid fd) (held cid fd)"
      by (rule spec_log [OF held_objects(1)])
    then show ?thesis by (rule spec_pre) auto
  qed (auto simp: spec_def held_def)
qed (auto simp: held_def)

section \<open>Reading and writing\<close>

text \<open>Both handlers give the client up when they fail.\<close>

lemma give_up_spec:
  fixes E :: "'n daemon \<Rightarrow> bool"
  shows "spec (held cid fd) (bindM (get_client cid) (\<lambda>c. seqM (logM ty (msg c)) (client_drop cid (cl_fd c)))) (\<lambda>_. ok_objects) E"
proof (rule spec_get_client)
  fix c :: client
  show "spec (\<lambda>s :: 'n daemon. held cid fd s \<and> h_clients s cid = Some c) (seqM (logM ty (msg c)) (client_drop cid (cl_fd c)))
      (\<lambda>_. ok_objects) E"
    by (rule spec_pre [where P' = "held cid (cl_fd c)", OF spec_log [OF held_objects(1) client_drop_spec]]) (auto simp: held_def)
qed (auto simp: held_def)

lemma reader_calm: "calm (reader_read parse fd r)"
  unfolding reader_read_def by (auto intro!: calm_intros split: prod.split sum.split)

lemma reader_result: "reader_read parse fd r s = (Inr (Inl e, r'), t) \<Longrightarrow> \<not> dangling e"
  by (auto simp: reader_read_def run_simps reader_feed_def Let_def split: if_splits option.splits sum.splits prod.splits)

lemma handle_read_spec:
  fixes E :: "'n daemon \<Rightarrow> bool"
  assumes fd: "fd \<noteq> -1"
  shows "spec (held cid fd) (client_handle_read cid) (\<lambda>_. ok_objects) E"
  unfolding client_handle_read_def
proof (rule spec_get_client, rule spec_try)
  fix c :: client
  let ?done = "\<lambda>(bytes_read :: int, message). (if bytes_read = 0
       then seqM (logM LT_Info (''Client disconnected with fd: '' @ to_string (cl_fd c))) (client_drop cid (cl_fd c))
       else case message of None \<Rightarrow> returnM () | Some command \<Rightarrow> client_handle_message cid command) :: ('n, unit) dprog"
  let ?got = "\<lambda>(result, r'). seqM (mod_client cid (\<lambda>c. c\<lparr>cl_reader := r'\<rparr>)) (bindM (liftE result) ?done) :: ('n, unit) dprog"
  have finish: "spec (held cid fd) (?done x) (\<lambda>_. ok_objects) (held cid fd)" if c: "cl_fd c = fd" for x
  proof (cases x)
    case (Pair bytes_read message)
    have "spec (held cid fd) (case message of None \<Rightarrow> returnM () | Some command \<Rightarrow> client_handle_message cid command)
        (\<lambda>_. ok_objects) (held cid fd)"
      by (intro spec_option spec_return spec_conseq [OF handle_message_spec [OF fd]]) (auto simp: held_def)
    then show ?thesis
      unfolding Pair prod.case c by (intro spec_if spec_log [OF held_objects(1) client_drop_spec])
  qed
  have got: "spec (\<lambda>s. held cid fd s \<and> (\<forall>e. fst x = Inl e \<longrightarrow> \<not> dangling e)) (?got x) (\<lambda>_. ok_objects) (held cid fd)"
    if c: "cl_fd c = fd" for x :: "(exn + int \<times> command option) \<times> reader"
  proof (cases x)
    case (Pair result r')
    have "spec (held cid fd) (?got x) (\<lambda>_. ok_objects) (held cid fd)" if "\<forall>e. fst x = Inl e \<longrightarrow> \<not> dangling e"
      unfolding Pair prod.case
      by (rule spec_seq [OF mod_client_spec spec_bind [OF spec_conseq [OF lift_spec] finish [OF c]]])
        (use that Pair in auto)
    then show ?thesis by (rule spec_assume)
  qed
  have "spec (held cid fd) (bindM (getsM d_parse_command) (\<lambda>parse. bindM (reader_read parse (cl_fd c) (cl_reader c)) ?got))
      (\<lambda>_. ok_objects) (held cid fd)" if "cl_fd c = fd"
  proof (rule spec_gets, rule spec_bind [OF _ got [OF that]])
    fix parse :: "bytes \<Rightarrow> command option"
    show "spec (\<lambda>s :: 'n daemon. held cid fd s \<and> parse = d_parse_command s) (reader_read parse (cl_fd c) (cl_reader c))
        (\<lambda>x s. held cid fd s \<and> (\<forall>e. fst x = Inl e \<longrightarrow> \<not> dangling e)) (held cid fd)"
    proof (rule specI, elim conjE)
      fix s t :: "'n daemon" and r
      assume s: "held cid fd s" and run: "reader_read parse (cl_fd c) (cl_reader c) s = (r, t)"
      from specD [OF spec_calm [OF reader_calm held_objects(1)] s run] run
      show "case r of Inr x \<Rightarrow> held cid fd t \<and> (\<forall>e. fst x = Inl e \<longrightarrow> \<not> dangling e)
          | Inl e \<Rightarrow> \<not> dangling e \<and> (\<forall>w. e = StdExn w \<longrightarrow> held cid fd t)"
        by (cases r) (auto dest: reader_result)
    qed
  qed
  then show "spec (\<lambda>s :: 'n daemon. held cid fd s \<and> h_clients s cid = Some c)
      (bindM (getsM d_parse_command) (\<lambda>parse. bindM (reader_read parse (cl_fd c) (cl_reader c)) ?got)) (\<lambda>_. ok_objects) (held cid fd)"
    by (cases "cl_fd c = fd") (auto intro: spec_pre, auto simp: spec_def held_def)
qed (rule give_up_spec, auto simp: held_def)

lemma writer_calm: "calm (writer_write fd w)"
  unfolding writer_write_def Let_def by (auto intro!: calm_intros)

lemma state_calm: "spec (\<lambda>s :: 'n daemon. ok_objects s) (modifyM (\<lambda>s. s\<lparr>g_state := g\<rparr>)) (\<lambda>_. ok_objects) E"
proof (rule spec_modify)
  fix s :: "'n daemon"
  have "same_objects s (s\<lparr>g_state := g\<rparr>)" by (simp add: same_objects_def)
  then show "ok_objects s \<Longrightarrow> ok_objects (s\<lparr>g_state := g\<rparr>)" using of_objectsD [OF of_objects_intros(1)] by blast
qed

lemma handle_write_spec:
  fixes E :: "'n daemon \<Rightarrow> bool"
  assumes fd: "fd \<noteq> -1"
  shows "spec (held cid fd) (client_handle_write cid command) (\<lambda>_. ok_objects) E"
  unfolding client_handle_write_def
proof (rule spec_get_client, rule spec_try)
  fix c :: client
  let ?sent = "\<lambda>(doneWriting, w'). seqM (set_writer cid w') (whenM doneWriting
           (seqM (unregisterEvent (cl_fd c))
           (seqM (client_registers cid (cl_fd c))
           (seqM (set_writer cid (writer_clear w'))
             (whenM (cmd_type command = TERMINATE) (modifyM (\<lambda>s. s\<lparr>g_state := G_TERMINATED\<rparr>)))))))"
  have "spec (held cid fd) (?sent x) (\<lambda>_. ok_objects) (held cid fd)" if c: "cl_fd c = fd" for x
  proof (cases x)
    case (Pair doneWriting w')
    have set: "spec (held cid fd) (set_writer cid w) (\<lambda>_. held cid fd) (held cid fd)" for w
      unfolding set_writer_def by (rule mod_client_spec) simp
    have un: "spec (held cid fd) (unregisterEvent fd) (\<lambda>_. held cid fd) (held cid fd)"
      by (rule spec_conseq [OF client_unregister_spec]) auto
    have reg: "spec (held cid fd) (client_registers cid fd) (\<lambda>_. held cid fd) (held cid fd)"
      unfolding client_registers_def by (rule client_register_spec [OF fd])
    have stop: "spec (held cid fd) (whenM b (modifyM (\<lambda>s. s\<lparr>g_state := G_TERMINATED\<rparr>))) (\<lambda>_. ok_objects) (held cid fd)" for b
      by (rule spec_when, rule spec_pre [OF state_calm]) (auto simp: held_def)
    show ?thesis
      unfolding Pair prod.case c
      by (rule spec_seq [OF set spec_when [OF spec_seq [OF un spec_seq [OF reg spec_seq [OF set stop]]]]]) (simp add: held_def)
  qed
  then have "spec (held cid fd) (bindM (writer_write (cl_fd c) (cl_writer c)) ?sent) (\<lambda>_. ok_objects) (held cid fd)"
    if "cl_fd c = fd" using that by (intro spec_calm_bind [OF writer_calm held_objects(1)])
  then show "spec (\<lambda>s :: 'n daemon. held cid fd s \<and> h_clients s cid = Some c)
      (bindM (writer_write (cl_fd c) (cl_writer c)) ?sent) (\<lambda>_. ok_objects) (held cid fd)"
    by (cases "cl_fd c = fd") (auto intro: spec_pre, auto simp: spec_def held_def)
qed (rule give_up_spec, auto simp: held_def)

section \<open>Accepting, and the server's end\<close>

lemma connected_of_run:
  assumes "\<forall>cid \<in> set cids. h_clients s cid \<noteq> None"
  shows "\<exists>keep drop. connected_of cids s = (Inr (keep, drop), s) \<and> set keep \<union> set drop = set cids \<and>
     (distinct cids \<longrightarrow> distinct keep \<and> distinct drop \<and> set keep \<inter> set drop = {})"
  using assms
proof (induction cids)
  case (Cons cid cids)
  then obtain keep drop c where c: "h_clients s cid = Some c" and IH: "connected_of cids s = (Inr (keep, drop), s)"
    "set keep \<union> set drop = set cids" "distinct cids \<longrightarrow> distinct keep \<and> distinct drop \<and> set keep \<inter> set drop = {}"
    by auto
  show ?case
    using IH(2,3) by (cases "is_connected c") (auto simp: bindM_run get_client_run c IH(1) returnM_run)
qed (simp add: returnM_run)

lemma forget_dropped_spec:
  "spec (\<lambda>s :: 'n daemon. ok_objects s) (bindM (getsM s_clients) (\<lambda>cids. bindM (connected_of cids) (\<lambda>(keep, drop).
     seqM (modifyM (\<lambda>s. s\<lparr>s_clients := keep\<rparr>)) (forM client_destroy drop)))) (\<lambda>_. ok_objects) E"
proof (rule specI)
  fix s t :: "'n daemon" and r
  assume ok: "ok_objects s" and run: "bindM (getsM s_clients) (\<lambda>cids. bindM (connected_of cids) (\<lambda>(keep, drop).
     seqM (modifyM (\<lambda>s. s\<lparr>s_clients := keep\<rparr>)) (forM client_destroy drop))) s = (r, t)"
  have cl: "distinct (s_clients s)" "\<forall>cid \<in> set (s_clients s). h_clients s cid \<noteq> None"
    using objects_ok_parts(3) [OF ok] by (simp_all add: clients_ok_def)
  from connected_of_run [OF cl(2)] cl(1) obtain keep drop where c: "connected_of (s_clients s) s = (Inr (keep, drop), s)"
    "set keep \<union> set drop = set (s_clients s)" "distinct keep" "distinct drop" "set keep \<inter> set drop = {}" by blast
  let ?s = "s\<lparr>s_clients := keep\<rparr>"
  have "ok_objects ?s" by (rule objects_listed [OF ok c(3)]) (use cl(2) c(2) in auto)
  moreover have "forM client_destroy drop ?s = (r, t)"
    using run c(1) by (simp add: bindM_run getsM_run seqM_run modifyM_run)
  ultimately show "case r of Inr x \<Rightarrow> ok_objects t | Inl e \<Rightarrow> \<not> dangling e \<and> (\<forall>w. e = StdExn w \<longrightarrow> E t)"
    by (intro specD [OF destroy_clients_spec, of ?s]) (use c cl in auto)
qed

lemma onAccept_spec: "spec (\<lambda>s :: 'n daemon. ok_objects s) onAccept (\<lambda>_. ok_objects) ok_objects"
  unfolding onAccept_def
proof (rule spec_gets, rule spec_bind)
  fix listening :: int
  show "spec (\<lambda>s :: 'n daemon. ok_objects s \<and> listening = s_fd s) (socket_accept listening) (\<lambda>fd s. ok_objects s \<and> fd \<noteq> -1) ok_objects"
  proof (rule specI, elim conjE)
    fix s t :: "'n daemon" and r
    assume s: "ok_objects s" and run: "socket_accept listening s = (r, t)"
    have "calm (socket_accept listening)" unfolding socket_accept_def by (auto intro!: calm_intros)
    from specD [OF spec_calm [OF this of_objects_intros(1)] s run] run
    show "case r of Inr fd \<Rightarrow> ok_objects t \<and> fd \<noteq> -1 | Inl e \<Rightarrow> \<not> dangling e \<and> (\<forall>w. e = StdExn w \<longrightarrow> ok_objects t)"
      by (auto simp: socket_accept_def run_simps split: sum.splits if_splits)
  qed
next
  fix fd :: int
  show "spec (\<lambda>s :: 'n daemon. ok_objects s \<and> fd \<noteq> -1) (bindM (client_new fd) (\<lambda>cid.
     seqM (modifyM (\<lambda>s. s\<lparr>s_clients := s_clients s @ [cid]\<rparr>)) (bindM (getsM s_clients) (\<lambda>cids.
     bindM (connected_of cids) (\<lambda>(keep, drop).
     seqM (modifyM (\<lambda>s. s\<lparr>s_clients := keep\<rparr>)) (forM client_destroy drop)))))) (\<lambda>_. ok_objects) ok_objects"
  proof (rule spec_bind [OF client_new_spec], rule spec_seq [OF spec_modify forget_dropped_spec])
    fix cid and s :: "'n daemon"
    assume "ok_objects s \<and> h_clients s cid \<noteq> None \<and> cid \<notin> set (s_clients s)"
    then show "ok_objects (s\<lparr>s_clients := s_clients s @ [cid]\<rparr>)"
      using objects_ok_parts(3) [of "{}" s] by (intro objects_listed) (auto simp: clients_ok_def)
  qed
qed

lemma server_destroy_spec: "spec (\<lambda>s :: 'n daemon. ok_objects s) server_destroy (\<lambda>_. ok_objects) E"
  unfolding server_destroy_def
proof (rule spec_noexcept, rule spec_gets, rule spec_seq)
  fix fd :: int
  show "spec (\<lambda>s :: 'n daemon. ok_objects s \<and> fd = s_fd s) (unregisterEvent fd) (\<lambda>_. ok_objects) ok_objects"
  proof (rule specI, elim conjE)
    fix s t :: "'n daemon" and r
    assume s: "ok_objects s" and run: "unregisterEvent fd s = (r, t)"
    from unregister_run [OF objects_ok_parts(1) [OF s], of fd] run objects_dropped [of "{fd}" s t, OF _ s]
    show "case r of Inr x \<Rightarrow> ok_objects t | Inl e \<Rightarrow> \<not> dangling e \<and> (\<forall>w. e = StdExn w \<longrightarrow> ok_objects t)" by auto
  qed
  show "spec (\<lambda>s :: 'n daemon. ok_objects s) (bindM (getsM s_clients) (\<lambda>cids. seqM (modifyM (\<lambda>s. s\<lparr>s_clients := []\<rparr>))
      (seqM (forM client_destroy cids) (fd_destroy fd)))) (\<lambda>_. ok_objects) ok_objects"
  proof (rule spec_gets, rule spec_seq [OF spec_modify spec_seq [OF destroy_clients_spec]])
    fix cids and s :: "'n daemon"
    assume s: "ok_objects s \<and> cids = s_clients s"
    then have "ok_objects (s\<lparr>s_clients := []\<rparr>)" by (intro objects_listed) auto
    with s objects_ok_parts(3) [of "{}" s]
    show "ok_objects (s\<lparr>s_clients := []\<rparr>) \<and> distinct cids \<and>
        (\<forall>cid \<in> set cids. h_clients (s\<lparr>s_clients := []\<rparr>) cid \<noteq> None \<and> cid \<notin> set (s_clients (s\<lparr>s_clients := []\<rparr>)))"
      by (simp add: clients_ok_def)
  next
    have "calm (fd_destroy fd)" unfolding fd_destroy_def by (auto intro!: calm_intros)
    then show "spec (\<lambda>s :: 'n daemon. ok_objects s) (fd_destroy fd) (\<lambda>_. ok_objects) ok_objects"
      by (rule spec_calm [OF _ of_objects_intros(1)])
  qed
qed

end
