(* ===== verification/Daemon_Safety.thy ===== *)
theory Daemon_Safety
  imports Server_Safety Daemon_Props
begin

text \<open>
  The dispatch of callbacks and the main loop, \<^verbatim>\<open>taskmasterd/src/main.cpp\<close> and
  \<^verbatim>\<open>taskmasterd/src/core/EventManager.cpp\<close>: no closure outlives its object in any state that the
  daemon can reach, from the start to the end of the wait of \<open>~JobManager\<close>.
\<close>

section \<open>Dispatch\<close>

lemma dispatch_spec:
  "spec (\<lambda>s :: 'n daemon. ok_objects s \<and> callback_ok s fd cb) (dispatch cb) (\<lambda>_. ok_objects) ok_objects"
proof (cases cb)
  case CbAccept
  then show ?thesis by (simp add: onAccept_spec)
next
  case (CbClientRead cid)
  show ?thesis
  proof (cases "fd = -1")
    case False
    from handle_read_spec [OF False, of cid ok_objects] show ?thesis
      unfolding CbClientRead dispatch.simps by (rule spec_pre) (auto simp: held_def)
  qed (simp add: spec_def CbClientRead)
next
  case (CbClientWrite cid command)
  show ?thesis
  proof (cases "fd = -1")
    case False
    from handle_write_spec [OF False, of cid command ok_objects] show ?thesis
      unfolding CbClientWrite dispatch.simps by (rule spec_pre) (auto simp: held_def)
  qed (simp add: spec_def CbClientWrite)
next
  case (CbProcess jid i)
  show ?thesis
    unfolding CbProcess dispatch.simps
    by (rule spec_pre [OF on_state_change_spec]) (auto simp: present_def live_def)
next
  case (CbTimer jid i tid)
  show ?thesis
    unfolding CbTimer dispatch.simps by (rule timer_expired_spec)
qed

lemma call_at_spec:
  assumes "\<And>cb. m fd = Some (Some cb) \<Longrightarrow> spec P (invoke cb) (\<lambda>_. Q) Q" and "\<And>s. P s \<Longrightarrow> Q s"
  shows "spec P (call_at invoke m fd) (\<lambda>_. Q) Q"
  using assms unfolding call_at_def by (auto intro: spec_throw split: option.split)

lemma called_spec:
  assumes "\<And>s cb. m s fd = Some (Some cb) \<Longrightarrow> watched s fd cb"
  shows "spec (\<lambda>s :: 'n daemon. ok_objects s) (bindM (getsM m) (\<lambda>m. call_at dispatch m fd)) (\<lambda>_. ok_objects) ok_objects"
proof (rule spec_gets, rule call_at_spec)
  fix callbacks :: "int \<Rightarrow> callback option option" and cb
  assume "callbacks fd = Some (Some cb)"
  then have "callback_ok s fd cb" if "ok_objects s \<and> callbacks = m s" for s :: "'n daemon"
    using that assms objects_ok_parts(5) [of "{}" s] by (simp add: callbacks_ok_def)
  then show "spec (\<lambda>s :: 'n daemon. ok_objects s \<and> callbacks = m s) (dispatch cb) (\<lambda>_. ok_objects) ok_objects"
    by (intro spec_pre [OF dispatch_spec]) auto
qed auto

lemma handleEvents_spec: "spec (\<lambda>s :: 'n daemon. ok_objects s) (handleEvents dispatch wait) (\<lambda>_. ok_objects) ok_objects"
proof (cases wait)
  case (Events evs)
  have "spec (\<lambda>s :: 'n daemon. ok_objects s) (handleEvent dispatch ev) (\<lambda>_. ok_objects) ok_objects" for ev
  proof (cases ev)
    case (fields fd ein eout)
    show ?thesis
      unfolding fields handleEvent_def prod.case
    proof (rule spec_try, rule spec_seq, rule spec_when [OF called_spec])
      show "spec (\<lambda>s :: 'n daemon. ok_objects s) (whenM eout (bindM (getsM em_write_callbacks) (\<lambda>m. call_at dispatch m fd)))
          (\<lambda>_. ok_objects) ok_objects"
        by (rule spec_when [OF called_spec]) (simp_all add: watched_def)
      show "spec (\<lambda>s :: 'n daemon. ok_objects s) (logM LT_Error (''Error handling event for fd '' @ to_string fd @ '': '' @ w))
          (\<lambda>_. ok_objects) ok_objects" for w
        by (rule spec_calm [OF calm_small(4) of_objects_intros(1)])
    qed (simp_all add: watched_def)
  qed
  then show ?thesis unfolding Events handleEvents.simps by (rule spec_for)
next
  case WaitFailed
  have "calm (handleEvents dispatch WaitFailed :: ('n, unit) dprog)" by (auto intro!: calm_intros)
  then show ?thesis unfolding WaitFailed by (rule spec_calm [OF _ of_objects_intros(1)])
qed (simp add: spec_return)

section \<open>The end of the manager\<close>

lemma job_destroy_run:
  fixes s :: "'n daemon"
  assumes "resources_ok (w_ans s)" and "h_jobs s jid \<noteq> None"
  shows "\<exists>t. job_destroy jid s = (Inr (), t) \<and> resources_ok (w_ans t) \<and> h_jobs t = (h_jobs s)(jid := None)"
proof -
  obtain j where j: "h_jobs s jid = Some j" using assms(2) by blast
  let ?s = "s\<lparr>h_jobs := (h_jobs s)(jid := None)\<rparr>"
  have "resources_ok (w_ans ?s)" using assms(1) by simp
  from proc_destroys_run [OF this, of "j_processes j"] obtain t where
    "forM proc_destroy (j_processes j) ?s = (Inr (), t)" "dropped (\<Union>p \<in> set (j_processes j). timer_fds (p_timer p)) ?s t"
    by blast
  with assms(1) j show ?thesis
    by (intro exI [of _ t]) (simp add: job_destroy_def bindM_run seqM_run get_job_run modifyM_run dropped_parts)
qed

lemma finish_safe:
  fixes s :: "'n daemon"
  assumes ok: "ok_objects s" and "finish failed s = (PcEnded e, t)"
  shows "\<not> dangling e"
proof -
  let ?P = "\<lambda>(es :: (string \<times> nat) list) (s :: 'n daemon). resources_ok (w_ans s) \<and> distinct (map snd es) \<and> (\<forall>e \<in> set es. h_jobs s (snd e) \<noteq> None)"
  have loop: "spec (?P es) (forM (\<lambda>(name, jid). job_destroy jid) es) (\<lambda>_. ?P []) (\<lambda>_. True)" for es
  proof (rule spec_for_rest, rule specI)
    fix entry rest r and u v :: "'n daemon"
    assume u: "?P (entry # rest) u" and run: "(case entry of (name, jid) \<Rightarrow> job_destroy jid) u = (r, v)"
    obtain name jid where e: "entry = (name, jid)" by fastforce
    from job_destroy_run [of u jid] u run
    show "case r of Inr x \<Rightarrow> ?P rest v | Inl e \<Rightarrow> \<not> dangling e \<and> (\<forall>w. e = StdExn w \<longrightarrow> True)"
      by (auto simp: e)
  qed
  have "?P (m_jobs s) s"
    using map_entries_live [OF objects_ok_parts(2) [OF ok]] heap_entries [OF objects_ok_parts(2) [OF ok]] objects_ok_parts(1) [OF ok]
    by (simp add: entries_live_def)
  then have "spec (\<lambda>u. u = s) manager_members_destroy (\<lambda>_ _. True) (\<lambda>_. True)"
    unfolding manager_members_destroy_def by (intro spec_gets spec_conseq [OF loop]) auto
  then have "spec (\<lambda>u. u = s) (seqM manager_members_destroy
      (case failed of None \<Rightarrow> returnM () | Some w \<Rightarrow> logM LT_Fatal (''Exception: '' @ w))) (\<lambda>_ _. True) (\<lambda>_. True)"
    by (rule spec_seq) (auto simp: spec_def run_simps split: option.split)
  from spec_noexcept [OF this] show ?thesis
    using assms(2) by (auto simp: finish_def in_destructor_def spec_def split: prod.splits sum.splits)
qed

section \<open>The machine\<close>

text \<open>What holds of a configuration: before the end the objects are sound, and no end is a dangling reference.\<close>

fun safe :: "pc \<times> 'n daemon \<Rightarrow> bool" where
  "safe (PcReturned n, s) = True"
| "safe (PcEnded e, s) = (\<not> dangling e)"
| "safe (at, s) = ok_objects s"

lemma safe_running: "\<not> final at \<Longrightarrow> safe (at, s) = ok_objects s"
  by (cases at) (simp_all add: final_def)

lemma block_safe:
  assumes s: "ok_objects s" and m: "spec (\<lambda>s. ok_objects s) m (\<lambda>_. ok_objects) E" and "\<not> final next"
  shows "(\<And>s. E s \<Longrightarrow> ok_objects s) \<Longrightarrow> safe (in_try m next s)" and "safe (in_destructor m next s)"
proof -
  note next_safe = safe_running [OF assms(3)]
  obtain r t where run: "m s = (r, t)" by fastforce
  from specD [OF m s this] show "(\<And>s. E s \<Longrightarrow> ok_objects s) \<Longrightarrow> safe (in_try m next s)"
    by (auto simp: in_try_def run next_safe split: sum.splits exn.split)
  obtain r t where run: "noexceptM m s = (r, t)" by fastforce
  from specD [OF spec_noexcept [OF m] s this] show "safe (in_destructor m next s)"
    by (auto simp: in_destructor_def run next_safe split: sum.splits)
qed

lemma log_spec: "spec (\<lambda>s :: 'n daemon. ok_objects s) (logM ty msg) (\<lambda>_. ok_objects) ok_objects"
  by (rule spec_calm [OF calm_small(4) of_objects_intros(1)])

lemma not_final [simp]:
  "\<not> final PcSwitch" "\<not> final PcPoll" "\<not> final PcUpdate" "\<not> final PcReloaded" "\<not> final (PcLeave failed)"
  "\<not> final (PcDrain failed es)"
  by (simp_all add: final_def)

lemma leave_spec: "spec (\<lambda>s :: 'n daemon. ok_objects s) (seqM server_destroy manager_kill) (\<lambda>_. ok_objects) ok_objects"
  by (rule spec_seq [OF server_destroy_spec kill_all_spec])

lemma g_state_objects: "ok_objects (s\<lparr>g_state := g\<rparr>) = ok_objects s"
proof -
  have "same_objects s (s\<lparr>g_state := g\<rparr>)" "same_objects (s\<lparr>g_state := g\<rparr>) s" by (simp_all add: same_objects_def)
  then show ?thesis using of_objectsD [OF of_objects_intros(1)] by blast
qed

lemma signal_spec:
  assumes "ok_objects s"
  shows "ok_objects (snd (signalHandler signum s))"
proof -
  obtain k where k: "logM LT_Info (''Received signal: '' @ signal_text signum) s = (Inr (), s\<lparr>w_sinks := k\<rparr>)"
    by (simp add: logM_run)
  from specD [OF log_spec assms k] have "ok_objects (s\<lparr>w_sinks := k\<rparr>)" by simp
  then show ?thesis unfolding signalHandler_def seqM_run modifyM_run k by (simp add: g_state_objects)
qed

lemma step_safe:
  assumes "safe (at, s)" and "daemon_next a at s = Some c"
  shows "safe c"
proof -
  have "\<not> final at" using assms(2) final_stuck [of at a s] by auto
  with assms(1) have ok: "ok_objects s" by (simp add: safe_running)
  note blocks = block_safe(1) [OF ok manager_reload_spec] block_safe(1) [OF ok log_spec] block_safe(1) [OF ok handleEvents_spec]
    block_safe(1) [OF ok manager_update_spec] block_safe(2) [OF ok leave_spec] block_safe(2) [OF ok handleEvents_spec]
  have ended: "safe (finish failed s)" for failed
    using finish_safe [OF ok, of failed] finish_final [of failed s]
    by (cases "finish failed s") (auto simp: final_def)
  show ?thesis
    using assms(2) ok ended blocks \<open>\<not> final at\<close>
    by (induction a at s rule: daemon_next.induct)
      (auto simp: safe_running g_state_objects signal_spec split: daemon_state.splits if_splits)
qed

section \<open>The start\<close>

lemma listening_spec: "spec (\<lambda>s :: 'n daemon. ok_objects s) (registerEvent fd (Some CbAccept) None) (\<lambda>_. ok_objects) E"
proof (rule specI)
  fix s t :: "'n daemon" and r
  assume s: "ok_objects s" and run: "registerEvent fd (Some CbAccept) None s = (r, t)"
  from register_run [OF objects_ok_parts(1) [OF s], of fd CbAccept] run objects_registered [of fd CbAccept s t "{}", OF _ s]
  show "case r of Inr x \<Rightarrow> ok_objects t | Inl e \<Rightarrow> \<not> dangling e \<and> (\<forall>w. e = StdExn w \<longrightarrow> E t)" by auto
qed

lemma server_new_spec: "spec (\<lambda>s :: 'n daemon. ok_objects s) (server_new type address backlog) (\<lambda>_. ok_objects) ok_objects"
  unfolding server_new_def
proof (rule spec_calm_bind [OF _ of_objects_intros(1)])
  show "calm (socket_new type)" unfolding socket_new_def by (auto intro!: calm_intros split: option.split)
  fix so :: socket
  have "calm (fd_destroy (so_fd so))" unfolding fd_destroy_def by (auto intro!: calm_intros)
  note cleanup = spec_calm [OF this of_objects_intros(1)]
  have "calm (socket_bind so address)" "calm (socket_listen so backlog)"
    unfolding socket_bind_def socket_listen_def by (auto intro!: calm_intros)
  note steps = this [THEN spec_calm [OF _ of_objects_intros(1)]]
  have "calm (getInstance None)" unfolding getInstance_def event_manager_new_def by (auto intro!: calm_intros)
  then have listening: "spec (\<lambda>s :: 'n daemon. ok_objects s)
      (bindM (getInstance None) (\<lambda>_. registerEvent (so_fd so) (Some CbAccept) None)) (\<lambda>_. ok_objects) ok_objects"
    by (intro spec_calm_bind [OF _ of_objects_intros(1)] listening_spec)
  have "spec (\<lambda>s :: 'n daemon. ok_objects s) (modifyM (\<lambda>s. s\<lparr>s_fd := so_fd so, s_clients := []\<rparr>)) (\<lambda>_. ok_objects) ok_objects"
  proof (rule spec_modify)
    fix s :: "'n daemon"
    assume "ok_objects s"
    moreover have "same_objects s (s\<lparr>s_fd := so_fd so\<rparr>)" by (simp add: same_objects_def)
    ultimately have "ok_objects (s\<lparr>s_fd := so_fd so\<rparr>)" using of_objectsD [OF of_objects_intros(1)] by blast
    from objects_listed [OF this, of "[]"] show "ok_objects (s\<lparr>s_fd := so_fd so, s_clients := []\<rparr>)" by simp
  qed
  note build = spec_seq [OF this spec_seq [OF steps(1) spec_seq [OF steps(2) spec_seq [OF listening
    spec_seq [OF log_spec start_all_spec]]]]]
  show "spec (\<lambda>s :: 'n daemon. ok_objects s) (unwindM
       (seqM (modifyM (\<lambda>s. s\<lparr>s_fd := so_fd so, s_clients := []\<rparr>))
       (seqM (socket_bind so address)
       (seqM (socket_listen so backlog)
       (seqM (bindM (getInstance None) (\<lambda>_. registerEvent (so_fd so) (Some CbAccept) None))
       (seqM (logM LT_Info (''Server listening on fd: '' @ to_string (so_fd so)))
             manager_start_all)))))
       (fd_destroy (so_fd so))) (\<lambda>_. ok_objects) ok_objects"
    by (rule spec_unwind [OF build cleanup])
qed

text \<open>Nothing exists yet, and what the daemon needs to create children is there.\<close>

definition fresh_start :: "'n daemon \<Rightarrow> bool" where
  "fresh_start s \<longleftrightarrow> booted s \<and> h_clients s = (\<lambda>cid. None) \<and> s_clients s = [] \<and>
     em_read_callbacks s = (\<lambda>fd. None) \<and> em_write_callbacks s = (\<lambda>fd. None) \<and>
     resources_ok (w_ans s) \<and> yaml_ok (d_config_env s) (d_load s)"

lemma fresh_objects: "fresh_start s \<Longrightarrow> ok_objects s"
  using booted_ok [of s]
  by (auto simp: fresh_start_def objects_ok_def frame_ok_def callbacks_ok_def clients_ok_def idle_ok_def unwatched_def
      watched_def)

lemma start_safe:
  assumes "fresh_start s0"
  shows "safe (daemon_start s0)"
proof -
  obtain r s where new: "seqM (logM LT_Info ''Starting taskmasterd'') manager_new s0 = (r, s)" by fastforce
  note built = specD [OF spec_seq [OF log_spec manager_new_spec] fresh_objects [OF assms] this]
  obtain r' s' where sv: "bindM (liftE daemon_address) (\<lambda>a. server_new UNIX_SOCKET a 5) s = (r', s')" by fastforce
  have "calm (liftE daemon_address :: ('n, address) dprog)"
    by (auto simp: calm_def liftE_run same_objects_def daemon_address_def Address_UNIX_def split: if_splits)
  then have server: "spec (\<lambda>s :: 'n daemon. ok_objects s) (bindM (liftE daemon_address) (\<lambda>a. server_new UNIX_SOCKET a 5))
      (\<lambda>_. ok_objects) ok_objects" for dummy :: 'n
    by (rule spec_calm_bind [OF _ of_objects_intros(1) _ server_new_spec])
  show ?thesis
  proof (cases r)
    case (Inl e)
    with built new show ?thesis by (cases e) (auto simp: daemon_start_def)
  next
    case (Inr x)
    with built have "ok_objects s" by simp
    from specD [OF server this sv] show ?thesis
      using new sv Inr block_safe(2) [of s' manager_kill, OF _ kill_all_spec]
      by (auto simp: daemon_start_def split: sum.split exn.split)
  qed
qed

text \<open>
  C2. No callback outlives its object: start the daemon with an empty registry, where the system calls for
  children, timers and polling succeed and the YAML library throws standard exceptions only. Then in every state that
  it can reach before it ends, every closure in the event registry refers to an object that is alive: a
  process that its job still holds, in a live state and with this descriptor, a running timer that its
  process owns, or a connected client that owns the descriptor. And no run, whatever events and
  signals arrive, ends in the undefined behaviour of using a job, process, timer or client after its
  destruction.
\<close>

theorem no_dangling_callback:
  assumes "fresh_start s0" and "daemon_reaches (daemon_start s0) (at, s)"
  shows "if final at then \<forall>e. at = PcEnded e \<longrightarrow> \<not> dangling e
    else \<forall>fd cb. watched s fd cb \<longrightarrow> callback_ok s fd cb"
proof -
  have "safe c" if "daemon_reaches (daemon_start s0) c" for c
    using that
  proof (induction "daemon_start s0" c rule: daemon_reaches.induct)
    case reach_refl
    show ?case by (rule start_safe [OF assms(1)])
  next
    case (reach_step at s a c')
    then show ?case using step_safe by blast
  qed
  from this [OF assms(2)] show ?thesis
    by (auto simp: safe_running objects_ok_def callbacks_ok_def)
qed

lemma example_fresh: "fresh_start (example_daemon ls_jobs 0x100)"
proof -
  have "resources_ok good_kernel" by (simp add: resources_ok_def)
  moreover have "yaml_ok (\<lambda>n. example_config_env) (\<lambda>n. Inr (DMap [(''jobs'', DMap ls_jobs)]))"
    by (auto simp: yaml_ok_def config_env_ok_def example_config_env_def throws_std_def split: doc.splits if_splits)
  ultimately show ?thesis
    by (simp add: fresh_start_def booted_def) (simp add: example_daemon_def)
qed

theorem no_dangling_callback_witness:
  "\<exists>(s :: doc daemon) p. watched s 21 (CbProcess 0 0) \<and> proc_at s 0 0 = Some p \<and> p_fd p = 21 \<and> p_state p \<in> live_states"
proof -
  obtain s where s: "example_started = (PcSwitch, s)" "em_read_callbacks s 21 = Some (Some (CbProcess 0 0))"
    by (simp add: example_started_def start_defs run_simps)
  from s(2) have w: "watched s 21 (CbProcess 0 0)" by (simp add: watched_def)
  have "daemon_reaches (daemon_start (example_daemon ls_jobs 0x100)) (PcSwitch, s)"
    unfolding s(1) [unfolded example_started_def] by (rule reach_refl)
  from no_dangling_callback [OF example_fresh this] have "\<forall>fd cb. watched s fd cb \<longrightarrow> callback_ok s fd cb" by simp
  with w have "callback_ok s 21 (CbProcess 0 0)" by blast
  with w show ?thesis by auto
qed

text \<open>
  Why the resources are supposed to suffice: when the second \<open>fork\<close> of a first start fails, the job
  stays \<open>EMPTY\<close> with one child running; a reload that drops the job then destroys it at once, and the
  closure of the child that nobody will reap stays in the registry.
\<close>

definition one_fork :: "nat \<Rightarrow> syscall \<Rightarrow> int" where
  "one_fork n c = (if c = SysFork \<and> 3 < n then -1 else good_kernel n c)"

definition example_two :: "doc daemon" where
  "example_two = (example_daemon [] 0)\<lparr>w_ans := one_fork, w_next := 1,
     h_jobs := [0 \<mapsto> job_new (\<lambda>cmd. Some [cmd]) (ls_config\<lparr>c_numprocs := 2\<rparr>)],
     m_jobs := [(''ls'', 0)], m_config := [(''ls'', ls_config\<lparr>c_numprocs := 2\<rparr>)]\<rparr>"

lemma failed_start_orphans:
  "\<exists>t. seqM (manager_start ''ls'') manager_reload example_two =
       (Inr \<lparr>res_status = OK, res_message = ''Successfully started a reload of the config file''\<rparr>, t) \<and>
     (SysFork, 1001) \<in> set (w_trace t) \<and> h_jobs t 0 = None \<and> watched t 14 (CbProcess 0 0) \<and>
     fst (dispatch (CbProcess 0 0) t) = Inl (Undefined ''job destroyed'')"
proof -
  obtain t where t: "seqM (manager_start ''ls'') manager_reload example_two =
       (Inr \<lparr>res_status = OK, res_message = ''Successfully started a reload of the config file''\<rparr>, t)"
    "(SysFork, 1001) \<in> set (w_trace t)" "h_jobs t = (\<lambda>jid. None)" "em_read_callbacks t 14 = Some (Some (CbProcess 0 0))"
    by (simp add: example_two_def one_fork_def manager_start_def job_command_def findJob_def respond_def manager_reload_def
      stop_changed_def create_missing_def manager_update_def getJobConfigs_def example_config_env_def job_stop_def
      manager_on_stop_def update_job_def erase_job_def um_erase_def job_destroy_def proc_destroy_def exit_defs start_defs run_simps upt_rec
      numeral_2_eq_2)
  then show ?thesis
    by (intro exI [of _ t]) (simp add: watched_def process_on_state_change_def get_proc_run bindM_run)
qed

text \<open>
  And why reading a timer is: \<open>onExpire\<close> marks the timer as stopped before it reads. When the read fails, as it
  does for an event that was meant for an earlier timer with the same descriptor, the timer stays registered,
  and its destructor, which looks at the mark, leaves the closure behind.
\<close>

lemma failed_read_leaves_closure:
  fixes s :: "'n daemon"
  assumes p: "proc_at s jid i = Some p" "p_timer p = Some v" "t_id v = tid"
    and cb: "em_read_callbacks s (t_fd v) = Some (Some (CbTimer jid i tid))"
    and failed: "w_ans s (w_clock s) (SysReadTimer (t_fd v)) \<noteq> 8"
  shows "\<exists>t. seqM (tryM (timer_expired jid i tid) (\<lambda>w. returnM ())) (proc_clear_timer jid i) s = (Inr (), t) \<and>
     watched t (t_fd v) (CbTimer jid i tid) \<and> fst (dispatch (CbTimer jid i tid) t) = Inl (Undefined ''timer destroyed'')"
proof -
  obtain j where j: "h_jobs s jid = Some j" "i < length (j_processes j)" "j_processes j ! i = p"
    using p(1) by (auto simp: proc_at_def split: option.splits if_splits)
  let ?v = "v\<lparr>t_state := T_STOPPED\<rparr>" and ?c = "SysReadTimer (t_fd v)"
  let ?u = "(with_proc jid i (\<lambda>p. p\<lparr>p_timer := Some ?v\<rparr>) s)\<lparr>w_clock := Suc (w_clock s), w_trace := (?c, w_ans s (w_clock s) ?c) # w_trace s\<rparr>"
  have "tryM (timer_expired jid i tid) (\<lambda>w. returnM ()) s = (Inr (), ?u)"
    using p(2,3) j failed
    by (simp add: tryM_run timer_expired_def timer_on_expire_def bindM_run seqM_run get_proc_run mod_proc_run sys_run
      throwM_run returnM_run)
  moreover obtain k where k: "fd_destroy (t_fd v) (with_proc jid i (\<lambda>p. p\<lparr>p_timer := None\<rparr>) ?u) = (Inr (), k)"
    "same_objects (with_proc jid i (\<lambda>p. p\<lparr>p_timer := None\<rparr>) ?u) k"
    using fd_destroy_run by blast
  moreover from k(1) have "proc_clear_timer jid i ?u = (Inr (), k)"
    using j by (simp add: proc_clear_timer_def timer_release_def timer_destroy_def noexceptM_run bindM_run seqM_run
      get_proc_run mod_proc_run upd_proc_nth whenM_run)
  moreover from k(2) have "em_read_callbacks k = em_read_callbacks s"
    "h_jobs k jid = Some (upd_proc i (\<lambda>p. p\<lparr>p_timer := None\<rparr>) (upd_proc i (\<lambda>p. p\<lparr>p_timer := Some ?v\<rparr>) j))"
    using j(1) by (simp_all add: same_objects_def)
  ultimately show ?thesis
    using cb j(2) by (intro exI [of _ k]) (simp add: seqM_run watched_def timer_expired_def bindM_run get_proc_run upd_proc_nth throwM_run)
qed

end
