(* ===== verification/Child_Props.thy ===== *)
theory Child_Props
  imports Job_Display Daemon_Example
begin

text \<open>
  The forked child: it never comes back to the daemon's code, and it runs the program only after
  everything the configuration asks for has been done. The table of a job's status.
\<close>

section \<open>The child\<close>

text \<open>The code after \<open>fork\<close> never comes back.\<close>

lemma child_never_returns:
  "\<exists>e. fst (process_child pgid path argv env config s) = Inl e \<and> (e = Replaced \<or> (\<exists>n. e = Exits n \<and> n \<noteq> 0))"
  by (auto simp: process_child_def child_drop_privileges_def child_redirect_def dupPath_def run_simps
    split: option.split prod.split sum.split exn.split)

text \<open>The calls made since \<open>s\<close>.\<close>

definition new_calls :: "'z world_scheme \<Rightarrow> 'z world_scheme \<Rightarrow> (syscall \<times> int) set" where
  "new_calls s t = set (take (length (w_trace t) - length (w_trace s)) (w_trace t))"

definition redirected :: "(syscall \<times> int) set \<Rightarrow> string option \<Rightarrow> int \<Rightarrow> bool" where
  "redirected calls target fd \<longleftrightarrow> (case target of None \<Rightarrow> True
     | Some file \<Rightarrow> \<exists>f r. 0 \<le> f \<and> 0 \<le> r \<and> (SysOpenWrite file, f) \<in> calls \<and> (SysDup2 f fd, r) \<in> calls)"

text \<open>What the child has done, in the calls \<open>cs\<close>, when it calls \<open>execve\<close> for a job.\<close>

definition prepared :: "jobconfig \<Rightarrow> (syscall \<times> int) set \<Rightarrow> bool" where
  "prepared config cs \<longleftrightarrow>
     (\<exists>g y. (SysSetgid g, y) \<in> cs \<and> y \<noteq> -1) \<and> (\<exists>u y. (SysSetuid u, y) \<in> cs \<and> y \<noteq> -1) \<and>
     redirected cs (c_err config) 2 \<and> redirected cs (c_out config) 1 \<and>
     (SysChdir (c_working_dir config), 0) \<in> cs \<and> (\<exists>y. (SysUmask (c_umask config), y) \<in> cs)"

lemma execve_prepared:
  assumes "process_child pgid path argv env config s = (r, t)"
    and "(SysExecve file args envs, x) \<in> new_calls s t"
  shows "file = path \<and> args = argv \<and> envs = env \<and> prepared config (new_calls s t)"
  using assms unfolding prepared_def
  by (cases "c_err config"; cases "c_out config")
    (auto simp: process_child_def child_drop_privileges_def child_redirect_def dupPath_def run_simps new_calls_def
      redirected_def split: if_splits)

text \<open>
  C18. The child is contained: whatever its system calls answer, the code after \<open>fork\<close> ends with the
  program in its place or with an exit status other than 0 of its own, and no exception takes it back
  into the daemon's code; and if it calls \<open>execve\<close>, it is with the job's program, arguments and
  environment, after the group and user ids have been reset successfully, the configured outputs have
  been opened and put in place of standard output and standard error, the working directory has been
  entered and the umask has been set.
\<close>

theorem child_prepares_program:
  assumes "process_child pgid path argv env config s = (r, t)"
  shows "(\<exists>e. r = Inl e \<and> (e = Replaced \<or> (\<exists>n. e = Exits n \<and> n \<noteq> 0))) \<and>
    (\<forall>file args envs x. (SysExecve file args envs, x) \<in> new_calls s t \<longrightarrow>
      file = path \<and> args = argv \<and> envs = env \<and> prepared config (new_calls s t))"
  using child_never_returns [of pgid path argv env config s] execve_prepared [OF assms] assms by simp

theorem child_prepares_program_witness:
  "redirected (new_calls (example_daemon [] 0)
     (snd (process_child 0 ''/bin/ls'' [''/bin/ls''] [] (ls_config\<lparr>c_out := Some ''/tmp/out''\<rparr>) (example_daemon [] 0))))
     (Some ''/tmp/out'') 1"
proof -
  let ?c = "ls_config\<lparr>c_out := Some ''/tmp/out''\<rparr>" and ?s = "example_daemon [] 0"
  obtain r t where r: "process_child 0 ''/bin/ls'' [''/bin/ls''] [] ?c ?s = (r, t)" by fastforce
  have "(SysExecve ''/bin/ls'' [''/bin/ls''] [], 0) \<in> new_calls ?s (snd (process_child 0 ''/bin/ls'' [''/bin/ls''] [] ?c ?s))"
    by (simp add: process_child_def child_drop_privileges_def child_redirect_def dupPath_def run_simps new_calls_def ls_config_def)
  with r have "(SysExecve ''/bin/ls'' [''/bin/ls''] [], 0) \<in> new_calls ?s t" by simp
  with child_prepares_program [OF r] have "prepared ?c (new_calls ?s t)" by blast
  with r show ?thesis by (simp add: prepared_def)
qed

section \<open>The status table\<close>

lemma cell_ok: "length text \<le> 20 \<Longrightarrow> \<exists>l r. print_cell text = Inr (spaces l @ text @ spaces r @ ''|'') \<and>
    l + length text + r = 22"
proof -
  assume short: "length text \<le> 20"
  let ?l = "(20 - length text) div 2 + 1" and ?r = "(20 - length text + 1) div 2 + 1"
  have "d div 2 + (d + 1) div 2 = d" for d :: nat by presburger
  from this [of "20 - length text"] short have "?l + length text + ?r = 22" by linarith
  moreover have "print_cell text = Inr (spaces ?l @ text @ spaces ?r @ ''|'')"
    using short by (simp add: print_cell_def setFillerWidth_def max_size_def formatColumn_def Let_def)
  ultimately show ?thesis by blast
qed

lemma cell_fails: "20 < length text \<Longrightarrow> print_cell text = Inl (Undefined ''float to u32 conversion out of range'')"
  by (simp add: print_cell_def setFillerWidth_def max_size_def)

text \<open>
  C28. Alignment: every cell of the table that is printed is 23 characters wide and ends with its
  separator, with the text unabridged; a text of more than 20 characters is not cut, as the code
  means to, but makes the width computation leave the range of its type.
\<close>

theorem cell_width:
  "case print_cell text of
     Inr cell \<Rightarrow> length text \<le> 20 \<and> length cell = 23 \<and> (\<exists>l r. cell = spaces l @ text @ spaces r @ ''|'')
   | Inl e \<Rightarrow> 20 < length text \<and> e = Undefined ''float to u32 conversion out of range''"
proof (cases "length text \<le> 20")
  case True
  then obtain l r where "print_cell text = Inr (spaces l @ text @ spaces r @ ''|'')" "l + length text + r = 22"
    using cell_ok by blast
  with True show ?thesis by (auto simp: spaces_def)
qed (simp add: cell_fails)

lemma state_cells: "length (processStateEnumToString st) \<le> 20" "length (jobStateEnumToString jst) \<le> 20"
  by (cases st; simp) (cases jst; simp)

lemma state_cell_ok [simp]: "\<exists>c. print_cell (processStateEnumToString st) = Inr c"
  "\<exists>c. print_cell (jobStateEnumToString jst) = Inr c"
  using cell_ok [OF state_cells(1)] cell_ok [OF state_cells(2)] by blast+

lemma print_processes_ok:
  "(\<exists>text. print_processes ps = Inr text) \<longleftrightarrow> (\<forall>p \<in> set ps. length (p_name p) \<le> 20)"
proof (induction ps)
  case (Cons p ps)
  obtain c where "print_cell (processStateEnumToString (p_state p)) = Inr c" using state_cell_ok(1) by blast
  with Cons cell_ok [of "p_name p"] cell_fails [of "p_name p"] show ?case
    by (cases "length (p_name p) \<le> 20") (auto simp: bindE_Inr)
qed simp

text \<open>
  The status of a job can be printed exactly when its name and the names of its processes have at
  most 20 characters.
\<close>

lemma status_printable:
  "(\<exists>text. print_job j = Inr text) \<longleftrightarrow>
     length (c_name (j_config j)) \<le> 20 \<and> (\<forall>p \<in> set (j_processes j). length (p_name p) \<le> 20)"
proof -
  obtain c where "print_cell (jobStateEnumToString (j_state j)) = Inr c" using state_cell_ok(2) by blast
  then show ?thesis
    using cell_ok [of "c_name (j_config j)"] cell_fails [of "c_name (j_config j)"] print_processes_ok [of "j_processes j"]
    by (cases "length (c_name (j_config j)) \<le> 20") (auto simp: print_job_def bindE_Inr)
qed

end
