(* ===== verification/Ctl_Input.thy ===== *)
theory Ctl_Input
  imports Proto_Wire
begin

text \<open>
  The command line of taskmasterctl: \<^verbatim>\<open>taskmasterctl/src/cli/UserInput.cpp\<close> and the completion
  generator of \<^verbatim>\<open>taskmasterctl/src/main.cpp\<close>. The lines \<open>readline\<close> gives are an argument; the end
  of the list is the end of the input.
\<close>

section \<open>Tokens\<close>

definition is_space :: "char \<Rightarrow> bool" where "is_space c \<longleftrightarrow> c = CHR '' ''"

text \<open>\<open>getToken\<close> gives the token and what it leaves of its argument.\<close>

definition getToken :: "string \<Rightarrow> string \<times> string" where
  "getToken input =
     (takeWhile (\<lambda>c. \<not> is_space c) input,
      dropWhile is_space (dropWhile (\<lambda>c. \<not> is_space c) input))"

lemma getToken_shorter: "input \<noteq> [] \<Longrightarrow> length (snd (getToken input)) < length input"
proof -
  assume "input \<noteq> []"
  then obtain c cs where input: "input = c # cs" by (cases input) auto
  have "length (dropWhile is_space (dropWhile (\<lambda>c. \<not> is_space c) cs)) \<le> length cs"
    by (meson le_trans length_dropWhile_le)
  moreover have "length (dropWhile is_space cs) \<le> length cs"
    by (rule length_dropWhile_le)
  ultimately show ?thesis
    by (auto simp: getToken_def input)
qed

function parse_args :: "string \<Rightarrow> string list" where
  "parse_args input =
     (if input = [] then []
      else case getToken input of (commandArg, rest) \<Rightarrow> commandArg # parse_args rest)"
  by pat_completeness auto

termination
  by (relation "measure length") (simp, metis getToken_shorter in_measure snd_conv)

declare parse_args.simps [simp del]

text \<open>\<open>parseCommandArgs\<close>, with its log.\<close>

definition parseCommandArgs :: "string \<Rightarrow> command \<Rightarrow> ('z world_scheme, command) prog" where
  "parseCommandArgs input command =
     seqM (forM (\<lambda>arg. logM LT_Debug (arg @ '': Added as argument'')) (parse_args input))
       (returnM (command\<lparr>cmd_args := cmd_args command @ parse_args input\<rparr>))"

section \<open>The command's type\<close>

definition tolower :: "char \<Rightarrow> char" where
  "tolower c = (if 65 \<le> (of_char c :: nat) \<and> (of_char c :: nat) \<le> 90 then char_of ((of_char c :: nat) + 32) else c)"

definition toLower :: "string \<Rightarrow> string" where
  "toLower input = map tolower input"

definition validTypes :: "string list" where
  "validTypes = [''start'', ''stop'', ''restart'', ''status'', ''reload'', ''terminate'']"

text \<open>\<open>static_cast<proto::CommandType>(i)\<close>.\<close>

definition command_type_of :: "nat \<Rightarrow> command_type" where
  "command_type_of i = (if i < 7
     then [START, STOP, RESTART, STATUS, RELOAD, TERMINATE, COMMAND_ERROR] ! i else CT_Unknown (int i))"

fun find_index :: "string \<Rightarrow> string list \<Rightarrow> nat option" where
  "find_index x [] = None"
| "find_index x (y # ys) = (if x = y then Some 0 else map_option Suc (find_index x ys))"

definition parseCommandType :: "string \<Rightarrow> command \<Rightarrow> ('z world_scheme, (command \<times> string) option) prog" where
  "parseCommandType input command = (case getToken input of (token, rest) \<Rightarrow>
     let commandType = toLower token
     in case find_index commandType validTypes of
          Some i \<Rightarrow> seqM (logM LT_Debug (commandType @ '': Added as command type''))
            (returnM (Some (command\<lparr>cmd_type := command_type_of i\<rparr>, rest)))
        | None \<Rightarrow> seqM (logM LT_Warning (''Invalid command: '' @ commandType
              @ '' - Valid commands: start, stop, restart, status, reload, terminate''))
            (returnM None))"

definition command_new :: command where
  "command_new = \<lparr>cmd_type = START, cmd_args = []\<rparr>"

definition parseInput :: "string \<Rightarrow> ('z world_scheme, command option) prog" where
  "parseInput input = bindM (parseCommandType input command_new) (\<lambda>res. case res of
       None \<Rightarrow> returnM None
     | Some (command, rest) \<Rightarrow> bindM (parseCommandArgs rest command) (\<lambda>c. returnM (Some c)))"

text \<open>At the end of the input the program exits.\<close>

fun getCommandFromUser :: "string list \<Rightarrow> ('z world_scheme, command \<times> string list) prog" where
  "getCommandFromUser [] = throwM (Exits 0)"
| "getCommandFromUser (line # lines) = bindM (parseInput line) (\<lambda>command. case command of
       None \<Rightarrow> getCommandFromUser lines
     | Some c \<Rightarrow> returnM (c, lines))"

section \<open>Completion\<close>

text \<open>The table of \<^verbatim>\<open>main.cpp\<close>, up to its null pointer.\<close>

definition commands :: "string list" where
  "commands = [''start'', ''stop'', ''restart'', ''status'', ''reload'', ''terminate'']"

text \<open>\<open>strncmp(a, b, n) == 0\<close> on C strings, which end with a zero byte.\<close>

fun strncmp_equal :: "string \<Rightarrow> string \<Rightarrow> nat \<Rightarrow> bool" where
  "strncmp_equal a b 0 = True"
| "strncmp_equal [] [] (Suc n) = True"
| "strncmp_equal (x # a) (y # b) (Suc n) = (x = y \<and> strncmp_equal a b n)"
| "strncmp_equal _ _ (Suc n) = False"

text \<open>The \<open>while\<close> loop from \<open>list_index\<close> on, with the new \<open>list_index\<close>.\<close>

fun complete_from :: "string \<Rightarrow> nat \<Rightarrow> string list \<Rightarrow> nat \<Rightarrow> string option \<times> nat" where
  "complete_from text len [] list_index = (None, list_index)"
| "complete_from text len (name # names) list_index =
     (if strncmp_equal name text len then (Some name, Suc list_index)
      else complete_from text len names (Suc list_index))"

record completion =
  cp_list_index :: nat
  cp_len :: nat

definition completer_generator :: "string \<Rightarrow> int \<Rightarrow> completion \<Rightarrow> string option \<times> completion" where
  "completer_generator text state st =
     (let st = (if state = 0 then \<lparr>cp_list_index = 0, cp_len = length text\<rparr> else st)
      in case complete_from text (cp_len st) (drop (cp_list_index st) commands) (cp_list_index st) of
           (name, i) \<Rightarrow> (name, st\<lparr>cp_list_index := i\<rparr>))"

text \<open>
  readline's variables that the program sets. \<open>completer\<close> is given readline's \<open>rl_completion_matches\<close>.
\<close>

record readline =
  rl_has_completer :: bool
  rl_reads_getc :: bool
  rl_catch_signals :: bool
  rl_attempted_completion_over :: bool

definition completer ::
  "((string \<Rightarrow> int \<Rightarrow> completion \<Rightarrow> string option \<times> completion) \<Rightarrow> string \<Rightarrow> string list option) \<Rightarrow>
     string \<Rightarrow> int \<Rightarrow> int \<Rightarrow> readline \<Rightarrow> string list option \<times> readline" where
  "completer rl_matches text start_at end_at rl =
     (rl_matches completer_generator text, rl\<lparr>rl_attempted_completion_over := True\<rparr>)"

definition initializeReadline :: "readline \<Rightarrow> readline" where
  "initializeReadline rl = rl\<lparr>rl_has_completer := True, rl_reads_getc := True, rl_catch_signals := False\<rparr>"

text \<open>\<open>rl_completion_matches\<close> calls the generator with 0, 1, ... until it gives nothing.\<close>

fun completion_matches ::
  "(string \<Rightarrow> int \<Rightarrow> completion \<Rightarrow> string option \<times> completion) \<Rightarrow> nat \<Rightarrow> string \<Rightarrow> int \<Rightarrow> completion
     \<Rightarrow> string list option" where
  "completion_matches generator 0 text state st = None"
| "completion_matches generator (Suc fuel) text state st = (case generator text state st of
     (None, st') \<Rightarrow> Some []
   | (Some name, st') \<Rightarrow> map_option (Cons name) (completion_matches generator fuel text (state + 1) st'))"

end
