(* ===== verification/Ctl_Client.thy ===== *)
theory Ctl_Client
  imports Ctl_Input Ipc_Socket
begin

text \<open>
  taskmasterctl: the exchange with the daemon (\<^verbatim>\<open>taskmasterctl/src/ipc/Client.cpp\<close>) and the loop
  of \<open>main\<close>; its two threads are the subject of theory \<^verbatim>\<open>Ctl_Threads\<close>. Loops over the socket have a
  bound on their iterations; their result is \<open>None\<close> when it is used up.
\<close>

section \<open>The exchange with the daemon\<close>

definition connectToDaemon :: "('z world_scheme, socket) prog" where
  "connectToDaemon =
     (case address_new (\<lambda>_ _. None) UNIX ''/tmp/taskmasterd.sock'' 0 of
        Inl e \<Rightarrow> throwM e
      | Inr address \<Rightarrow> bindM (socket_new UNIX_SOCKET) (\<lambda>so.
          seqM (unwindM (tryM (socket_connect so address)
                   (\<lambda>w. throwM (StdExn ''Failed to connect to the daemon, is it running?'')))
                 (fd_destroy (so_fd so)))
            (returnM so)))"

definition sendCommandToDaemon ::
  "(command \<Rightarrow> bytes option) \<Rightarrow> nat \<Rightarrow> int \<Rightarrow> command \<Rightarrow> ('z world_scheme, unit option) prog" where
  "sendCommandToDaemon serialize bound fd command =
     (case writer_init serialize command writer_new of
        Inl e \<Rightarrow> throwM e
      | Inr w \<Rightarrow> bindM (write_until bound fd w) (\<lambda>done. case done of
            None \<Rightarrow> returnM None
          | Some w' \<Rightarrow> seqM (logM LT_Debug ''Successfully sent the command to the daemon'')
              (returnM (Some ()))))"

fun read_response ::
  "(bytes \<Rightarrow> response option) \<Rightarrow> nat \<Rightarrow> int \<Rightarrow> reader \<Rightarrow> ('z world_scheme, response option) prog" where
  "read_response parse 0 fd r = returnM None"
| "read_response parse (Suc bound) fd r = bindM (reader_read parse fd r) (\<lambda>(result, r').
     case result of
       Inl e \<Rightarrow> throwM e
     | Inr (bytes_read, None) \<Rightarrow> read_response parse bound fd r'
     | Inr (bytes_read, Some m) \<Rightarrow> returnM (Some m))"

definition print_line :: "string \<Rightarrow> ('z world_scheme, unit) prog" where
  "print_line text = modifyM (\<lambda>s. s\<lparr>w_sinks := (w_sinks s)\<lparr>stdout_lines := stdout_lines (w_sinks s) @ [text @ [CHR 0x0A]]\<rparr>\<rparr>)"

text \<open>The \<open>switch\<close> on the response's status: whether taskmasterctl should exit.\<close>

definition report_response :: "command \<Rightarrow> response \<Rightarrow> ('z world_scheme, bool) prog" where
  "report_response command response =
     (let msg = res_message response; say = (\<lambda>m. whenM (msg \<noteq> []) m)
      in case res_status response of
           OK \<Rightarrow> seqM (say (print_line msg)) (returnM (cmd_type command = TERMINATE))
         | ERROR \<Rightarrow> seqM (say (logM LT_Error msg)) (returnM False)
         | TYPE_ERROR \<Rightarrow> seqM (say (logM LT_Error msg)) (returnM False)
         | TOO_MANY_ARGUMENTS \<Rightarrow> seqM (say (logM LT_Warning msg)) (returnM False)
         | ARGUMENT_ERROR \<Rightarrow> seqM (say (logM LT_Warning msg)) (returnM False)
         | CS_Unknown n \<Rightarrow> throwM (StdExn ''Received an invalid response status''))"

definition awaitDaemonResponse ::
  "(bytes \<Rightarrow> response option) \<Rightarrow> nat \<Rightarrow> int \<Rightarrow> command \<Rightarrow> ('z world_scheme, bool option) prog" where
  "awaitDaemonResponse parse bound fd command =
     bindM (read_response parse bound fd reader_new) (\<lambda>res. case res of
       None \<Rightarrow> returnM None
     | Some response \<Rightarrow> bindM (report_response command response) (\<lambda>b. returnM (Some b)))"

section \<open>\<open>main\<close>\<close>

text \<open>
  The loop of \<open>main\<close>: the exit status, or \<open>None\<close> when a bound is used up. \<open>socketChecker.join()\<close>
  only waits.
\<close>

fun ctl_loop ::
  "(command \<Rightarrow> bytes option) \<Rightarrow> (bytes \<Rightarrow> response option) \<Rightarrow> nat \<Rightarrow> nat \<Rightarrow> int \<Rightarrow> string list
     \<Rightarrow> ('z world_scheme, int option) prog" where
  "ctl_loop serialize parse bound 0 fd lines = returnM None"
| "ctl_loop serialize parse bound (Suc rounds) fd lines =
     bindM (tryM
       (bindM (getCommandFromUser lines) (\<lambda>(command, lines').
        bindM (sendCommandToDaemon serialize bound fd command) (\<lambda>sent. case sent of
          None \<Rightarrow> returnM (Inl None)
        | Some _ \<Rightarrow> bindM (awaitDaemonResponse parse bound fd command) (\<lambda>finished. case finished of
            None \<Rightarrow> returnM (Inl None)
          | Some True \<Rightarrow> returnM (Inl (Some 0))
          | Some False \<Rightarrow> returnM (Inr lines')))))
       (\<lambda>w. seqM (logM LT_Error w) (returnM (Inl (Some 1)))))
     (\<lambda>next. case next of Inl status \<Rightarrow> returnM status
                       | Inr lines' \<Rightarrow> ctl_loop serialize parse bound rounds fd lines')"

definition ctl_main ::
  "(command \<Rightarrow> bytes option) \<Rightarrow> (bytes \<Rightarrow> response option) \<Rightarrow> nat \<Rightarrow> nat \<Rightarrow> string list
     \<Rightarrow> ('z world_scheme, int option) prog" where
  "ctl_main serialize parse bound rounds lines =
     tryM (bindM connectToDaemon (\<lambda>so.
             bindM (ctl_loop serialize parse bound rounds (so_fd so) lines) (\<lambda>status.
               seqM (noexceptM (fd_destroy (so_fd so))) (returnM status))))
       (\<lambda>w. seqM (logM LT_Error w) (returnM (Some 1)))"

end
