(* ===== verification/Ctl_Props.thy ===== *)
theory Ctl_Props
  imports Ctl_Client "HOL-Library.Sublist"
begin

text \<open>
  The shell: the tokeniser reads back what was written, the command names, the completion of names
  and the treatment of the daemon's answers.
\<close>

section \<open>Tokens\<close>

definition word_ok :: "string \<Rightarrow> bool" where
  "word_ok w \<longleftrightarrow> w \<noteq> [] \<and> CHR '' '' \<notin> set w"

text \<open>Words, each followed by a number of spaces; only after the last there need not be any.\<close>

fun spaced :: "(string \<times> nat) list \<Rightarrow> bool" where
  "spaced [] = True"
| "spaced [(w, n)] = word_ok w"
| "spaced ((w, n) # es) = (word_ok w \<and> 0 < n \<and> spaced es)"

fun render_words :: "(string \<times> nat) list \<Rightarrow> string" where
  "render_words [] = []"
| "render_words ((w, n) # es) = w @ replicate n (CHR '' '') @ render_words es"

lemma takeWhile_word: "CHR '' '' \<notin> set w \<Longrightarrow> takeWhile (\<lambda>c. \<not> is_space c) (w @ rest) = w @ takeWhile (\<lambda>c. \<not> is_space c) rest"
  by (rule takeWhile_append2) (auto simp: is_space_def)

lemma dropWhile_word: "CHR '' '' \<notin> set w \<Longrightarrow> dropWhile (\<lambda>c. \<not> is_space c) (w @ rest) = dropWhile (\<lambda>c. \<not> is_space c) rest"
  by (rule dropWhile_append2) (auto simp: is_space_def)

lemma dropWhile_spaces: "dropWhile is_space (replicate n (CHR '' '') @ rest) = dropWhile is_space rest"
  by (induction n) (simp_all add: is_space_def)

lemma getToken_word:
  assumes "spaced ((w, n) # es)"
  shows "getToken (render_words ((w, n) # es)) = (w, render_words es)"
proof -
  have w: "CHR '' '' \<notin> set w" using assms by (cases es) (auto simp: word_ok_def)
  have first: "dropWhile is_space (render_words es) = render_words es"
    by (cases es rule: spaced.cases) (use assms in \<open>auto simp: word_ok_def is_space_def neq_Nil_conv\<close>)
  show ?thesis
  proof (cases n)
    case 0
    with assms have "es = []" by (cases es) auto
    moreover have "dropWhile (\<lambda>c. \<not> is_space c) w = []" "takeWhile (\<lambda>c. \<not> is_space c) w = w"
      using takeWhile_word [OF w, of "[]"] dropWhile_word [OF w, of "[]"] by simp_all
    ultimately show ?thesis
      using 0 by (simp only: getToken_def render_words.simps replicate_0 append_Nil append_Nil2 dropWhile.simps)
  next
    case (Suc m)
    then have "takeWhile (\<lambda>c. \<not> is_space c) (render_words ((w, n) # es)) = w"
      using takeWhile_word [OF w] by (simp add: is_space_def)
    moreover have "dropWhile (\<lambda>c. \<not> is_space c) (render_words ((w, n) # es)) = replicate n (CHR '' '') @ render_words es"
      using Suc dropWhile_word [OF w] by (simp add: is_space_def)
    ultimately show ?thesis
      by (simp add: getToken_def dropWhile_spaces first)
  qed
qed

lemma spaced_tail: "spaced (e # es) \<Longrightarrow> spaced es"
  by (cases e; cases es) auto

lemma parse_args_words: "spaced es \<Longrightarrow> parse_args (render_words es) = map fst es"
proof (induction es)
  case Nil
  show ?case by (simp add: parse_args.simps)
next
  case (Cons e es)
  obtain w n where e: "e = (w, n)" by fastforce
  have "w \<noteq> []" using Cons.prems e by (cases es) (auto simp: word_ok_def)
  then have "render_words (e # es) \<noteq> []" by (simp add: e)
  then show ?case
    using getToken_word [of w n es] Cons e spaced_tail [of e es]
    by (subst parse_args.simps) simp
qed

lemma parse_args_run:
  "\<exists>t. parseCommandArgs rest c s = (Inr (c\<lparr>cmd_args := cmd_args c @ parse_args rest\<rparr>), t) \<and>
     w_ans t = w_ans s \<and> w_trace t = w_trace s"
proof -
  have "\<exists>t. forM (\<lambda>arg. logM LT_Debug (arg @ '': Added as argument'')) xs u = (Inr (), t) \<and>
      w_ans t = w_ans u \<and> w_trace t = w_trace u" for xs and u :: "'a world_scheme"
  proof (induction xs arbitrary: u)
    case (Cons x xs)
    from Cons.IH [of "snd (logM LT_Debug (x @ '': Added as argument'') u)"] show ?case
      by (auto simp: seqM_run logM_run)
  qed (simp add: returnM_run)
  from this [of "parse_args rest" s] show ?thesis
    by (auto simp: parseCommandArgs_def seqM_run returnM_run)
qed

section \<open>Command names\<close>

lemma find_index_Some: "find_index x ys = Some i \<Longrightarrow> i < length ys \<and> ys ! i = x"
  by (induction ys arbitrary: i) (auto split: if_splits)


text \<open>The contract: the name of each command.\<close>

fun command_name :: "command_type \<Rightarrow> string option" where
  "command_name START = Some ''start''"
| "command_name STOP = Some ''stop''"
| "command_name RESTART = Some ''restart''"
| "command_name STATUS = Some ''status''"
| "command_name RELOAD = Some ''reload''"
| "command_name TERMINATE = Some ''terminate''"
| "command_name _ = None"


lemma name_index: "command_name ty = Some w \<Longrightarrow> \<exists>i. find_index w validTypes = Some i \<and> command_type_of i = ty"
  by (cases ty) (auto simp: validTypes_def command_type_of_def)

lemma parse_line_ok:
  assumes "command_name ty = Some (toLower name)" and "spaced ((name, n) # args)"
  shows "\<exists>t. parseInput (render_words ((name, n) # args)) s = (Inr (Some \<lparr>cmd_type = ty, cmd_args = map fst args\<rparr>), t) \<and>
     w_ans t = w_ans s \<and> w_trace t = w_trace s"
proof -
  obtain i where i: "find_index (toLower name) validTypes = Some i" "command_type_of i = ty"
    using name_index [OF assms(1)] by blast
  let ?c = "\<lparr>cmd_type = ty, cmd_args = []\<rparr>" and ?u = "snd (logM LT_Debug (toLower name @ '': Added as command type'') s)"
  have "parseCommandType (render_words ((name, n) # args)) command_new s = (Inr (Some (?c, render_words args)), ?u)"
    using getToken_word [OF assms(2)] i by (simp add: parseCommandType_def command_new_def run_simps Let_def)
  moreover obtain t where "parseCommandArgs (render_words args) ?c ?u = (Inr \<lparr>cmd_type = ty, cmd_args = map fst args\<rparr>, t)"
    "w_ans t = w_ans s" "w_trace t = w_trace s"
    using parse_args_run [of "render_words args" ?c ?u] parse_args_words [OF spaced_tail [OF assms(2)]]
    by (auto simp: logM_run)
  ultimately show ?thesis by (simp add: parseInput_def bindM_run returnM_run)
qed


section \<open>Completion\<close>



end
