(* ===== verification/Ctl_Threads.thy ===== *)
theory Ctl_Threads
  imports Ctl_Client
begin

text \<open>
  The two threads of taskmasterctl: \<open>main\<close> (\<^verbatim>\<open>taskmasterctl/src/main.cpp\<close>) and the thread that
  watches the socket (\<^verbatim>\<open>taskmasterctl/src/ipc/CheckSocketState.cpp\<close>). They share the atomic flag
  \<open>g_exitChecker\<close> and meet in \<open>join\<close>. A step is one access to the flag, one call that may block, or
  one turn of \<open>main\<close>'s loop, whose content and log are those of \<^verbatim>\<open>Ctl_Client\<close>; \<open>sh_log\<close> is what the
  watching thread logs.
\<close>

section \<open>The machine\<close>

text \<open>
  Where the watching thread is: before \<open>epoll_create1\<close>, before \<open>epoll_ctl\<close>, before the loop's test,
  in \<open>epoll_wait\<close>, at a hang-up before the second test of the flag, before \<open>raise\<close>, returned, or
  left by an exception.
\<close>

datatype checker_pc =
  CkCreate | CkRegister | CkTest | CkWait | CkHangup | CkRaise | CkReturned | CkThrown

text \<open>\<open>main\<close>: in its loop, before it sets the flag, in \<open>join\<close>, ended with an exit status.\<close>

datatype main_pc = MnLoop | MnFlag int | MnJoin int | MnEnded int

record shell =
  sh_exit :: bool
  sh_main :: main_pc
  sh_checker :: checker_pc
  sh_interrupted :: bool
  sh_log :: messages

text \<open>
  The actions: a turn of \<open>main\<close>'s loop with its outcome (the next turn, the end of the input, a
  terminate command answered with OK, an exception), \<open>main\<close>'s other steps, and the steps of the
  watching thread with the result of the call it makes.
\<close>

datatype turn = TurnAgain | TurnEof | TurnDone | TurnFailed

datatype wait_result = WaitInterrupted | WaitError | WaitQuiet | WaitHangup

datatype shell_action = MainTurn turn | MainStep | CheckerCall bool | CheckerWait wait_result | CheckerStep

fun main_turn :: "turn \<Rightarrow> main_pc" where
  "main_turn TurnAgain = MnLoop"
| "main_turn TurnEof = MnEnded 0"
| "main_turn TurnDone = MnFlag 0"
| "main_turn TurnFailed = MnFlag 1"

fun checker_wait :: "wait_result \<Rightarrow> checker_pc" where
  "checker_wait WaitInterrupted = CkReturned"
| "checker_wait WaitError = CkThrown"
| "checker_wait WaitQuiet = CkTest"
| "checker_wait WaitHangup = CkHangup"

definition wait_log :: "wait_result \<Rightarrow> messages" where
  "wait_log w = (if w = WaitHangup then [(LT_Info, CHR 0x0A # ''Deamon has closed the socket'')] else [])"

text \<open>
  An exception that leaves the thread ends the program, and so does the SIGINT: the program installs
  no handler and tells readline (\<open>rl_catch_signals\<close>) to install none. Nothing happens after either.
\<close>

definition shell_live :: "shell \<Rightarrow> bool" where
  "shell_live s \<longleftrightarrow> (\<forall>n. sh_main s \<noteq> MnEnded n) \<and> sh_checker s \<noteq> CkThrown \<and> \<not> sh_interrupted s"

fun shell_act :: "shell_action \<Rightarrow> shell \<Rightarrow> shell option" where
  "shell_act (MainTurn t) s = (if sh_main s = MnLoop then Some (s\<lparr>sh_main := main_turn t\<rparr>) else None)"
| "shell_act MainStep s = (case sh_main s of
       MnFlag n \<Rightarrow> Some (s\<lparr>sh_main := MnJoin n, sh_exit := True\<rparr>)
     | MnJoin n \<Rightarrow> if sh_checker s = CkReturned then Some (s\<lparr>sh_main := MnEnded n\<rparr>) else None
     | _ \<Rightarrow> None)"
| "shell_act (CheckerCall ok) s = (case sh_checker s of
       CkCreate \<Rightarrow> Some (s\<lparr>sh_checker := (if ok then CkRegister else CkThrown)\<rparr>)
     | CkRegister \<Rightarrow> Some (s\<lparr>sh_checker := (if ok then CkTest else CkThrown)\<rparr>)
     | _ \<Rightarrow> None)"
| "shell_act (CheckerWait w) s =
     (if sh_checker s = CkWait
      then Some (s\<lparr>sh_checker := checker_wait w, sh_log := sh_log s @ wait_log w\<rparr>) else None)"
| "shell_act CheckerStep s = (case sh_checker s of
       CkTest \<Rightarrow> Some (s\<lparr>sh_checker := (if sh_exit s then CkReturned else CkWait)\<rparr>)
     | CkHangup \<Rightarrow> Some (s\<lparr>sh_checker := (if sh_exit s then CkReturned else CkRaise)\<rparr>)
     | CkRaise \<Rightarrow> Some (s\<lparr>sh_interrupted := True\<rparr>)
     | _ \<Rightarrow> None)"

definition shell_start :: shell where
  "shell_start = \<lparr>sh_exit = False, sh_main = MnLoop, sh_checker = CkCreate, sh_interrupted = False, sh_log = []\<rparr>"



fun shell_run :: "shell_action list \<Rightarrow> shell \<Rightarrow> shell option" where
  "shell_run [] s = Some s"
| "shell_run (a # as) s = (if shell_live s then Option.bind (shell_act a s) (shell_run as) else None)"

section \<open>Properties\<close>










text \<open>A run in which the terminate command is answered while the watching thread waits.\<close>

definition quiet_end :: "shell_action list" where
  "quiet_end = [CheckerCall True, CheckerCall True, CheckerStep, MainTurn TurnDone, MainStep,
     CheckerWait WaitQuiet, CheckerStep, MainStep]"


text \<open>How many steps the watching thread may still make once the flag is set.\<close>

fun checker_rank :: "checker_pc \<Rightarrow> nat" where
  "checker_rank CkCreate = 5"
| "checker_rank CkRegister = 4"
| "checker_rank CkWait = 3"
| "checker_rank CkTest = 2"
| "checker_rank CkHangup = 2"
| "checker_rank CkRaise = 1"
| "checker_rank CkReturned = 0"
| "checker_rank CkThrown = 0"

definition join_rank :: "shell \<Rightarrow> nat" where
  "join_rank s = (case sh_main s of
     MnEnded n \<Rightarrow> 0 | _ \<Rightarrow> if sh_interrupted s then 0 else Suc (checker_rank (sh_checker s)))"

lemma checker_rank_le: "checker_rank pc \<le> 5"
  by (cases pc) simp_all

text \<open>\<open>main\<close> waits in \<open>join\<close>, or has ended with the status it waited with.\<close>

definition joining :: "int \<Rightarrow> shell \<Rightarrow> bool" where
  "joining n s \<longleftrightarrow> sh_exit s \<and> (sh_main s = MnJoin n \<or> sh_main s = MnEnded n)"

lemma joining_act:
  assumes "joining n s" "shell_live s" "shell_act a s = Some t"
  shows "joining n t \<and> join_rank t < join_rank s"
proof -
  from assms(1,2) have s: "sh_exit s" "sh_main s = MnJoin n" "\<not> sh_interrupted s"
    by (auto simp: joining_def shell_live_def)
  show ?thesis
  proof (cases a)
    case (MainTurn u)
    with assms(3) s show ?thesis by simp
  next
    case MainStep
    with assms(3) s show ?thesis by (auto simp: joining_def join_rank_def split: if_splits)
  next
    case (CheckerCall ok)
    with assms(3) s show ?thesis by (cases "sh_checker s") (auto simp: joining_def join_rank_def)
  next
    case (CheckerWait w)
    with assms(3) s show ?thesis by (cases w) (auto simp: joining_def join_rank_def split: if_splits)
  next
    case CheckerStep
    with assms(3) s show ?thesis by (cases "sh_checker s") (auto simp: joining_def join_rank_def)
  qed
qed

lemma joining_run: "shell_run as s = Some t \<Longrightarrow> joining n s \<Longrightarrow> joining n t \<and> length as + join_rank t \<le> join_rank s"
proof (induction as s rule: shell_run.induct)
  case (2 a as s)
  then obtain u where u: "shell_live s" "shell_act a s = Some u" "shell_run as u = Some t"
    by (auto split: if_splits Option.bind_splits)
  from joining_act [OF 2(3) u(1,2)] 2(1) [OF u(1) u(2) u(3)] show ?case by auto
qed simp

lemma joining_goes_on:
  assumes "joining n s" "shell_live s"
  shows "\<exists>a t. shell_act a s = Some t"
proof -
  have m: "sh_main s = MnJoin n" using assms by (auto simp: joining_def shell_live_def)
  let ?a = "case sh_checker s of CkCreate \<Rightarrow> CheckerCall True | CkRegister \<Rightarrow> CheckerCall True
      | CkWait \<Rightarrow> CheckerWait WaitQuiet | CkReturned \<Rightarrow> MainStep | _ \<Rightarrow> CheckerStep"
  have "\<exists>t. shell_act ?a s = Some t"
    using m assms(2) by (cases "sh_checker s") (auto simp: shell_live_def)
  then show ?thesis by blast
qed

text \<open>
  C26. \<open>join\<close> returns: once \<open>main\<close> waits in \<open>join\<close>, every run of the two threads has at most six more
  steps whatever the calls of the watching thread return, is never stuck before the program has
  ended, and ends the program with the status \<open>main\<close> waits with unless the watching thread throws or
  raises its SIGINT.
\<close>

theorem join_terminates:
  assumes "sh_main s = MnJoin n" and "sh_exit s" and "shell_run actions s = Some t"
  shows "length actions \<le> 6 \<and> (shell_live t \<longrightarrow> (\<exists>a u. shell_act a t = Some u)) \<and>
    (\<not> shell_live t \<longrightarrow> sh_main t = MnEnded n \<or> sh_checker t = CkThrown \<or> sh_interrupted t)"
proof -
  have "joining n s" using assms(1,2) by (simp add: joining_def)
  note run = joining_run [OF assms(3) this]
  have "join_rank s \<le> 6" using assms(1) checker_rank_le [of "sh_checker s"] by (simp add: join_rank_def)
  then show ?thesis using run joining_goes_on [of n t] by (auto simp: joining_def shell_live_def)
qed

theorem join_terminates_witness:
  "\<exists>s t. shell_run (take 5 quiet_end) shell_start = Some s \<and> shell_run (drop 5 quiet_end) s = Some t \<and>
     length (drop 5 quiet_end) \<le> 6 \<and> sh_main t = MnEnded 0"
proof -
  obtain s t where s: "shell_run (take 5 quiet_end) shell_start = Some s" "sh_main s = MnJoin 0" "sh_exit s"
      "shell_run (drop 5 quiet_end) s = Some t" "sh_main t = MnEnded 0"
    by (simp add: quiet_end_def shell_start_def shell_live_def)
  from join_terminates [OF s(2,3,4)] s show ?thesis by blast
qed

text \<open>
  The race of the shell's threads: testing the flag does not keep the watching thread from
  killing a program that is about to end well. A run exists in which a terminate command was answered
  with OK and \<open>main\<close> waits in \<open>join\<close> with exit status 0, and the watching thread's next step raises the
  SIGINT.
\<close>

lemma sigint_race:
  "\<exists>actions s t. shell_run actions shell_start = Some s \<and> sh_main s = MnJoin 0 \<and> sh_exit s \<and>
     shell_act CheckerStep s = Some t \<and> sh_interrupted t"
  by (rule exI [of _ "[CheckerCall True, CheckerCall True, CheckerStep, CheckerWait WaitHangup, CheckerStep,
       MainTurn TurnDone, MainStep]"])
    (simp add: shell_start_def shell_live_def)

end
