(* ===== verification/Spec2Isabelle.thy ===== *)
theory Spec2Isabelle
  imports Command_Props Job_Reload Shutdown Daemon_Safety Child_Props Ctl_Props Ctl_Threads
begin

text \<open>
  A verification development for TaskMaster, a process supervisor: the daemon \<^verbatim>\<open>taskmasterd\<close>, which
  starts the processes of configured jobs, restarts them and stops them, and its shell
  \<^verbatim>\<open>taskmasterctl\<close>. Names in typewriter type are files and functions of the repository; paths are below its
  \<^verbatim>\<open>src\<close>.

  \<^bold>\<open>The program.\<close> The daemon is one thread around \<^verbatim>\<open>epoll_wait\<close>. \<^verbatim>\<open>JobManager\<close> owns the jobs
  and the configuration; a \<^verbatim>\<open>Job\<close> owns its \<^verbatim>\<open>Process\<close>es; each process is a forked child with a pidfd and
  at most one \<^verbatim>\<open>Timer\<close>. \<^verbatim>\<open>EventManager\<close> maps descriptors to callbacks; a readable pidfd calls
  \<^verbatim>\<open>Process::onStateChange\<close>, a readable timer its callback, a readable listening socket
  \<^verbatim>\<open>Server::onAccept\<close>, a readable client \<^verbatim>\<open>Client::handleRead\<close>, which hands a complete command to
  \<^verbatim>\<open>Server::onCommand\<close> and so to the manager, and a writable client \<^verbatim>\<open>Client::handleWrite\<close>. Handlers
  call upwards (\<^verbatim>\<open>Process\<close> calls \<^verbatim>\<open>Job::onExit\<close>, \<^verbatim>\<open>onStop\<close>, \<^verbatim>\<open>onProcessSurpassedStartTime\<close>; \<^verbatim>\<open>Job\<close> calls
  \<^verbatim>\<open>JobManager::onStop\<close>) and only mark jobs; \<^verbatim>\<open>JobManager::update\<close>, called between two waits, removes and
  replaces the marked ones. Signals set a global state the loop of \<^verbatim>\<open>main\<close> switches on. The shell has two threads:
  \<^verbatim>\<open>main\<close> exchanges one command and one response at a time, the other watches the socket for a hang-up.

  \<^bold>\<open>How it is modelled.\<close> Code with effects is a state-passing program with an exception result
  (theory Prelude): exceptions, undefined behaviour and the ends of a process are values of \<^verbatim>\<open>exn\<close>, and every
  throw and early return is a branch. The kernel is not modelled: its answers are a function of the
  number of calls made before and the call (\<^verbatim>\<open>w_ans\<close> in World), and every call with its answer goes into the history
  \<^verbatim>\<open>w_trace\<close>. Objects reached by reference live on a heap (\<^verbatim>\<open>h_jobs\<close>, \<^verbatim>\<open>h_clients\<close> in
  Daemon_State); \<^verbatim>\<open>std::unordered_map\<close> is an association list, and nothing is proved from its
  order that the code could not have in another. Closures are values of the type \<^verbatim>\<open>callback\<close> that \<^verbatim>\<open>dispatch\<close> interprets.
  Sizes are \<^verbatim>\<open>nat\<close>, \<^verbatim>\<open>i32\<close> values \<^verbatim>\<open>int\<close> where the code's operations cannot leave the range (the invariant
  on restarts shows it for the counter, \<^verbatim>\<open>config_values\<close> for what the loader reads) and words where
  it works on bits: the length prefix, the status word of \<^verbatim>\<open>waitpid\<close>, the flags.

  \<^bold>\<open>Theories and sources.\<close>
  \<^item> Prelude: programs, rules for relations they keep (locale \<^verbatim>\<open>effect_order\<close>), unordered maps (locale
    \<^verbatim>\<open>keyed_store\<close>), decimal printing.
  \<^item> Logger: \<^verbatim>\<open>libs/logger\<close>. World: system calls, \<^verbatim>\<open>libs/utils\<close>, the macros on status words.
  \<^item> Proto_Wire: \<^verbatim>\<open>ProtoWriter.hpp\<close>, \<^verbatim>\<open>ProtoReader.hpp\<close> and the messages of \<^verbatim>\<open>taskmaster.proto\<close>.
  \<^item> Event_Manager: \<^verbatim>\<open>taskmasterd/src/core/EventManager.cpp\<close>. Timer: \<^verbatim>\<open>core/Timer.cpp\<close>.
    Ipc_Socket: \<^verbatim>\<open>libs/ipc/src\<close>. Signals: \<^verbatim>\<open>jobs/Signal.cpp\<close>, \<^verbatim>\<open>Globals.hpp\<close>.
  \<^item> Job_Config: \<^verbatim>\<open>jobs/JobConfig.cpp\<close>, its result and, as a second function over the same nodes, its log.
  \<^item> Daemon_State: the objects and the state of the daemon. Process, Job, Job_Display, Job_Manager:
    \<^verbatim>\<open>jobs/Process.cpp\<close>, \<^verbatim>\<open>jobs/Job.cpp\<close> and its table, \<^verbatim>\<open>jobs/JobManager.cpp\<close>. Handlers of a
    process that call back into its job stand in Job.
  \<^item> Server: \<^verbatim>\<open>ipc/Server.cpp\<close>, \<^verbatim>\<open>ipc/Client.cpp\<close>. Daemon: \<^verbatim>\<open>main.cpp\<close> and the
    destructor of the manager, as a machine of actions (own step, result of a wait, signal) with reachability
    \<^verbatim>\<open>daemon_reaches\<close>.
  \<^item> Ctl_Input, Ctl_Client, Ctl_Threads: \<^verbatim>\<open>taskmasterctl/src\<close>; the last is a machine of its two threads.

  \<^bold>\<open>What is shown.\<close>
  \<^item> Job_Machine states what a job promises as a step relation without system calls; Job_Refinement
    and Manager_Refinement show that every handler, command and action makes only its steps, and
    Daemon_Props carries its invariants to every reachable state of the daemon.
  \<^item> Daemon_Effects is the interface behind such arguments: locales of relations kept by the primitives of
    a layer, with the theorem that every operation above keeps them; they are interpreted for the consistency
    of the event registry, the growth of the history, the refinement and several frames.
  \<^item> Supervision, Job_Stopping, Job_Update and Job_Reload say what the operations do, branch by branch, on a
    kernel whose calls succeed: the decision after an exit, timers, stopping, starting, the pass of \<^verbatim>\<open>update\<close>, \<^verbatim>\<open>reload\<close>.
    Among their results are faults of the code: a reload undoes its own stops, and a process killed by a
    signal is not restarted.
  \<^item> Descriptor_Frame, Shutdown: which descriptors the operations touch in the registry; so the daemon notices the end of
    every child while it waits in \<^verbatim>\<open>~JobManager\<close>, and a shutdown ends once all children have, in whatever order.
  \<^item> Command_Props: validation, answers and failures of commands, the last steps of a shutdown. Conversation: a command that
    arrives is carried out once and its answer sent as one frame. Child_Props: the forked child, the table.
  \<^item> Exception_Logic is a Hoare logic for these programs, with a postcondition for exceptions. Object_Safety,
    Job_Safety, Manager_Safety, Command_Safety, Client_Safety, Server_Safety and Daemon_Safety go through every operation with it,
    from timers up to the machine: every closure in the event registry refers to a live object, and nothing uses a destroyed one. The last
    also shows why the calls must succeed: after a start that fails half way a reload leaves an orphan and its closure, and a
    timer whose read fails leaves its closure when it is destroyed.
  \<^item> Job_Config_Props: ranges, defaults, independence of the iteration order, good jobs are kept.
  \<^item> Ctl_Props, Ctl_Threads: what lines are commands, completion, the end of the two threads. This theory: a
    command typed at the shell arrives at the daemon.
  \<^item> Daemon_Example holds concrete daemons, run by rewriting, for the witnesses.

  \<^bold>\<open>Hypotheses on the surroundings.\<close> \<^verbatim>\<open>booted\<close>: the state before \<^verbatim>\<open>main\<close> has no jobs. \<^verbatim>\<open>kernel_ok\<close>: no call
  other than \<^verbatim>\<open>waitpid\<close> fails, \<^verbatim>\<open>fork\<close> gives a positive number (the parent's side) and reading a timer gives
  its 8 bytes; it stands before statements on what the daemon achieves, not before invariants. \<^verbatim>\<open>resources_ok\<close>: the calls
  that create and poll children and timers succeed; \<^verbatim>\<open>yaml_ok\<close>: the YAML library throws what derives from \<^verbatim>\<open>std::exception\<close>, as documented;
  both stand in \<^verbatim>\<open>fresh_start\<close>, before the safety of closures only, where connections may fail at any call. \<^verbatim>\<open>sends_progress\<close>:
  a send takes at least a byte of what it is given, and the four bytes of a length whole, on which the code relies.
  \<^verbatim>\<open>children_end\<close>: \<^verbatim>\<open>waitpid\<close> reports a child that has exited or was killed; \<^verbatim>\<open>shutdown_ready\<close>: every child is watched through a
  descriptor which the kernel gives to nobody else while it is open, and no running job holds a killed process. Both stand before the shutdown only.

  \<^bold>\<open>Bounds.\<close> \<^verbatim>\<open>while (!writer.write(socket))\<close> is \<^verbatim>\<open>write_until\<close> with a bound on the calls; a message of n
  bytes needs at most n + 2, and the theorems show that this is enough. The loops of the shell over responses and lines have
  such a bound as well; their results are \<^verbatim>\<open>None\<close> when it is used up. \<^verbatim>\<open>completer_generator\<close> is called until it gives no name:
  seven calls. The machine of the shell's threads ends within six steps once \<^verbatim>\<open>main\<close> is in \<^verbatim>\<open>join\<close>. All other
  recursion is structural; the daemon's endless loop is a machine, not a recursion.

  \<^bold>\<open>Not modelled.\<close> Parameters of the model, since their code is elsewhere: the Protocol Buffers serialiser and parser,
  yaml-cpp's nodes and the file system, \<^verbatim>\<open>wordexp\<close>, \<^verbatim>\<open>inet_pton\<close>, readline. The passing of time is the kernel's: a timer expires when its
  event arrives. \<^verbatim>\<open>openlog\<close> and \<^verbatim>\<open>closelog\<close>, readline's history and the creation of a thread have no model.
  \<^verbatim>\<open>EventManager::getInstance\<close> is called where the instance is made, in the server's constructor; every other call returns it. Class declarations, accessors, type
  aliases and build files hold no logic.
\<close>

section \<open>From the keyboard to the daemon\<close>

text \<open>
  C15. What the user types is what the daemon gets: a command typed at the shell (its name in any case,
  its arguments separated by spaces), parsed and sent over a socket that takes at least a byte at a
  time, arrives at the daemon's reader as that command, however the stream cuts the bytes, with the
  last piece and not before; the message is serialised and parsed by Protocol Buffers, which is assumed
  to read back what it wrote.
\<close>

theorem command_travels:
  assumes "command_name ty = Some (toLower name)" and "spaced ((name, n) # args)"
    and "cmd = \<lparr>cmd_type = ty, cmd_args = map fst args\<rparr>"
    and "serialize cmd = Some bs" and "parse bs = Some cmd" and "length bs < 2 ^ 32"
    and "sends_progress fd s" and "length bs + 2 \<le> bound"
  shows "\<exists>t u. parseInput (render_words ((name, n) # args)) s = (Inr (Some cmd), t) \<and>
     sendCommandToDaemon serialize bound fd cmd t = (Inr (Some ()), u) \<and>
     (\<forall>cs. sent_bytes fd (w_trace s) @ concat cs = sent_bytes fd (w_trace u) \<and> [] \<notin> set cs \<longrightarrow>
        feed_all (reader_feed parse) reader_new cs =
          (replicate (length cs - 1) (Inr None) @ [Inr (Some cmd)], reader_new))"
proof -
  obtain t where t: "parseInput (render_words ((name, n) # args)) s = (Inr (Some cmd), t)" "w_ans t = w_ans s"
    "w_trace t = w_trace s"
    using parse_line_ok [OF assms(1,2)] assms(3) by blast
  let ?w = "\<lparr>pw_message = bs, pw_bytes_written = 0, pw_size_written = False\<rparr>"
  have w: "writer_init serialize cmd writer_new = Inr ?w"
    using assms(4) by (simp add: writer_init_def writer_new_def)
  have "sends_progress fd t" using assms(7) t(2) by (simp add: sends_progress_def)
  then obtain w' u where u: "write_until bound fd ?w t = (Inr (Some w'), u)"
    "sent_bytes fd (w_trace u) = sent_bytes fd (w_trace t) @ frame bs"
    using write_until_frame [OF w assms(4) _ assms(8)] by blast
  have "sendCommandToDaemon serialize bound fd cmd t =
      (Inr (Some ()), snd (logM LT_Debug ''Successfully sent the command to the daemon'' u))"
    by (simp add: sendCommandToDaemon_def w bindM_run seqM_run returnM_run logM_run u(1))
  moreover have "feed_all (reader_feed parse) reader_new cs =
      (replicate (length cs - 1) (Inr None) @ [Inr (Some cmd)], reader_new)"
    if "sent_bytes fd (w_trace s) @ concat cs = sent_bytes fd (w_trace u)" "[] \<notin> set cs" for cs
    using feed_all_one_frame [of bs parse cmd cs] assms(5,6) that u(2) t(3) by simp
  ultimately show ?thesis
    using t(1) u(2) t(3) by (intro exI conjI) (auto simp: logM_run)
qed

theorem command_travels_witness:
  "\<exists>t u. parseInput ''status'' example_world = (Inr (Some \<lparr>cmd_type = STATUS, cmd_args = []\<rparr>), t) \<and>
     sendCommandToDaemon (\<lambda>c. Some [3]) 3 7 \<lparr>cmd_type = STATUS, cmd_args = []\<rparr> t = (Inr (Some ()), u)"
proof -
  have "toLower ''status'' = ''status''" by code_simp
  moreover have "sends_progress 7 example_world"
    by (simp add: sends_progress_def example_world_def htonl_bytes_def Suc_le_eq)
  ultimately show ?thesis
    using command_travels [of STATUS "''status''" 0 "[]" "\<lparr>cmd_type = STATUS, cmd_args = []\<rparr>" "\<lambda>c. Some [3]" "[3]"
        "\<lambda>b. Some \<lparr>cmd_type = STATUS, cmd_args = []\<rparr>" 7 example_world 3]
    by (auto simp: word_ok_def)
qed

end
